(* ===== verification/Prelude.thy ===== *)
theory Prelude imports Complex_Main "HOL-Library.AList" "HOL-Library.Char_ord" "HOL-Library.List_Lexorder" begin

section \<open>Prelude: Python data and shared automation\<close>

text \<open>
  What every component shares. A Python \<open>dict\<close> keeps its insertion order, so it is an association
  list: a lookup is \<open>map_of\<close>, an assignment \<open>d[k] = v\<close> is \<open>AList.update\<close> (in place for a known key,
  at the end for a new one), a deletion is \<open>AList.delete\<close>. A Python float is an exact rational:
  every finite float is one, rounding and the values inf and nan are not modelled. Times are
  rational numbers of seconds.
\<close>

type_synonym ('k, 'v) dict = "('k \<times> 'v) list"
type_synonym flt = rat
type_synonym time = rat

named_theorems dict_simps "laws of Python dictionaries as association lists"

abbreviation dget :: "('k, 'v) dict \<Rightarrow> 'k \<Rightarrow> 'v option" where
  "dget d k \<equiv> map_of d k"

abbreviation dset :: "'k \<Rightarrow> 'v \<Rightarrow> ('k, 'v) dict \<Rightarrow> ('k, 'v) dict" where
  "dset k v d \<equiv> AList.update k v d"

abbreviation ddel :: "'k \<Rightarrow> ('k, 'v) dict \<Rightarrow> ('k, 'v) dict" where
  "ddel k d \<equiv> AList.delete k d"

abbreviation dkeys :: "('k, 'v) dict \<Rightarrow> 'k list" where
  "dkeys d \<equiv> map fst d"

abbreviation dvalues :: "('k, 'v) dict \<Rightarrow> 'v list" where
  "dvalues d \<equiv> map snd d"

text \<open>\<open>d.get(k, default)\<close>\<close>

definition dget_or :: "('k, 'v) dict \<Rightarrow> 'k \<Rightarrow> 'v \<Rightarrow> 'v" where
  "dget_or d k v = (case dget d k of None \<Rightarrow> v | Some x \<Rightarrow> x)"

text \<open>\<open>k in d\<close>\<close>

definition dhas :: "('k, 'v) dict \<Rightarrow> 'k \<Rightarrow> bool" where
  "dhas d k \<longleftrightarrow> dget d k \<noteq> None"

text \<open>Mutating the object stored under a key: nothing happens for a missing key.\<close>

definition dmodify :: "'k \<Rightarrow> ('v \<Rightarrow> 'v) \<Rightarrow> ('k, 'v) dict \<Rightarrow> ('k, 'v) dict" where
  "dmodify k f d = (case dget d k of None \<Rightarrow> d | Some v \<Rightarrow> dset k (f v) d)"

text \<open>Mutating every stored object.\<close>

definition dmap_values :: "('v \<Rightarrow> 'v) \<Rightarrow> ('k, 'v) dict \<Rightarrow> ('k, 'v) dict" where
  "dmap_values f d = map (\<lambda>(k, v). (k, f v)) d"

lemma dget_dset [dict_simps, simp]: "dget (dset k v d) k' = (if k' = k then Some v else dget d k')"
  by (simp add: update_conv')

lemma dget_ddel [dict_simps, simp]: "dget (ddel k d) k' = (if k' = k then None else dget d k')"
  by (simp add: delete_conv')

lemma dget_or_dset [dict_simps, simp]:
  "dget_or (dset k v d) k' w = (if k' = k then v else dget_or d k' w)"
  by (simp add: dget_or_def)

lemma dget_or_Nil [dict_simps, simp]: "dget_or [] k v = v"
  by (simp add: dget_or_def)

lemma dget_or_None: "dget d k = None \<Longrightarrow> dget_or d k v = v"
  by (simp add: dget_or_def)

lemma dhas_iff [dict_simps]: "dhas d k \<longleftrightarrow> k \<in> set (dkeys d)"
  by (simp add: dhas_def map_of_eq_None_iff)

lemma dget_dmodify [dict_simps, simp]:
  "dget (dmodify k f d) k' = (if k' = k then map_option f (dget d k) else dget d k')"
  by (simp add: dmodify_def split: option.splits)

lemma dget_dmap_values [dict_simps, simp]: "dget (dmap_values f d) k = map_option f (dget d k)"
  by (simp add: dmap_values_def map_of_map)

lemma dkeys_dset: "dkeys (dset k v d) = (if k \<in> set (dkeys d) then dkeys d else dkeys d @ [k])"
  by (induction d) auto

lemma dkeys_dmodify [dict_simps, simp]: "dkeys (dmodify k f d) = dkeys d"
proof (cases "dget d k")
  case None
  then show ?thesis by (simp add: dmodify_def)
next
  case (Some v)
  then have "k \<in> set (dkeys d)" by (force dest: map_of_SomeD)
  with Some show ?thesis by (simp add: dmodify_def dkeys_dset)
qed

lemma dkeys_dmap_values [dict_simps, simp]: "dkeys (dmap_values f d) = dkeys d"
  by (induction d) (auto simp: dmap_values_def)

lemma distinct_dset [dict_simps, simp]: "distinct (dkeys d) \<Longrightarrow> distinct (dkeys (dset k v d))"
  by (rule distinct_update)

lemma distinct_ddel [dict_simps, simp]: "distinct (dkeys d) \<Longrightarrow> distinct (dkeys (ddel k d))"
  by (rule distinct_delete)

lemma dget_in_values: "dget d k = Some v \<Longrightarrow> v \<in> set (dvalues d)"
  by (metis map_of_SomeD in_set_zipE zip_map_fst_snd)

lemma dvalues_dget: "distinct (dkeys d) \<Longrightarrow> v \<in> set (dvalues d) \<Longrightarrow> \<exists>k. dget d k = Some v"
  by (auto simp: map_of_eq_Some_iff)

lemma dset_values_subset: "set (dvalues (dset k v d)) \<subseteq> insert v (set (dvalues d))"
  by (induction d) auto

lemma length_dset: "length (dset k v d) = (if dhas d k then length d else Suc (length d))"
  by (induction d) (auto simp: dhas_def)

text \<open>Every binding of a dictionary satisfies a predicate; kept by each write.\<close>

definition dall :: "('k \<Rightarrow> 'v \<Rightarrow> bool) \<Rightarrow> ('k, 'v) dict \<Rightarrow> bool" where
  "dall P d \<longleftrightarrow> (\<forall>(k, v) \<in> set d. P k v)"

lemma dall_Nil [simp]: "dall P []"
  by (simp add: dall_def)

lemma dall_Cons [simp]: "dall P ((k, v) # d) \<longleftrightarrow> P k v \<and> dall P d"
  by (simp add: dall_def)

lemma dall_get: "dall P d \<Longrightarrow> dget d k = Some v \<Longrightarrow> P k v"
  by (auto simp: dall_def dest: map_of_SomeD)

lemma dall_dset: "dall P d \<Longrightarrow> P k v \<Longrightarrow> dall P (dset k v d)"
proof (induction d)
  case (Cons p d)
  then show ?case by (cases p) (auto simp: dall_def)
qed simp

lemma dall_ddel: "dall P d \<Longrightarrow> dall P (ddel k d)"
  by (auto simp: dall_def AList.delete_eq)

lemma dall_dmodify: "dall P d \<Longrightarrow> (\<And>v. P k v \<Longrightarrow> P k (f v)) \<Longrightarrow> dall P (dmodify k f d)"
  by (auto simp: dmodify_def split: option.splits intro!: dall_dset dest: dall_get)

lemma dall_dmap_values: "dall P d \<Longrightarrow> (\<And>k v. P k v \<Longrightarrow> P k (f v)) \<Longrightarrow> dall P (dmap_values f d)"
  by (auto simp: dall_def dmap_values_def)

subsection \<open>Python list operations\<close>

text \<open>
  \<open>xs.sort(key=f)\<close> is stable, as is \<open>sort_key\<close>. The first element of the sorted list is an
  element with the least key.
\<close>

lemma hd_sort_key_in: "xs \<noteq> [] \<Longrightarrow> hd (sort_key f xs) \<in> set xs"
  by (metis hd_in_set length_0_conv length_sort set_sort)

lemma hd_sort_key_least:
  assumes "y \<in> set xs" shows "f (hd (sort_key f xs)) \<le> f y"
proof -
  obtain z zs where z: "sort_key f xs = z # zs"
    using assms by (metis empty_iff list.exhaust list.set(1) set_sort)
  have "sorted (map f (z # zs))" using sorted_sort_key[of f xs] z by simp
  moreover have "y \<in> set (z # zs)" using assms z by (metis set_sort)
  ultimately show ?thesis using z by (auto simp: image_iff)
qed

text \<open>\<open>next((x for x in xs if p(x)), None)\<close>, and a \<open>for\<close> loop that breaks at the first hit.\<close>

lemma find_Some_in: "List.find p xs = Some x \<Longrightarrow> x \<in> set xs \<and> p x"
  by (auto simp: find_Some_iff)

lemma find_None_all: "List.find p xs = None \<longleftrightarrow> (\<forall>x \<in> set xs. \<not> p x)"
  by (auto simp: find_None_iff)

lemma those_Some: "those xs = Some ys \<longleftrightarrow> xs = map Some ys"
  by (induction xs arbitrary: ys) (auto split: option.split)

text \<open>The slice \<open>xs[offset : offset + limit]\<close> for non-negative arguments.\<close>

definition slice :: "nat \<Rightarrow> nat \<Rightarrow> 'a list \<Rightarrow> 'a list" where
  "slice off lmt xs = take lmt (drop off xs)"

lemma length_slice: "length (slice off lmt xs) = min lmt (length xs - off)"
  by (simp add: slice_def)

lemma set_slice: "set (slice off lmt xs) \<subseteq> set xs"
  by (auto simp: slice_def dest: in_set_takeD in_set_dropD)

text \<open>Every element of a list is counted under exactly one of the keys.\<close>

lemma sum_filter_keys:
  assumes "distinct ks" and "\<forall>r \<in> set rows. key r \<in> set ks"
  shows "sum_list (map (\<lambda>k. length (List.filter (\<lambda>r. key r = k) rows)) ks) = length rows"
  using assms(2)
proof (induction rows)
  case (Cons r rows)
  have "sum_list (map (\<lambda>k. length (List.filter (\<lambda>x. key x = k) (r # rows))) ks) =
      sum_list (map (\<lambda>k. if k = key r then 1 else 0) ks) +
      sum_list (map (\<lambda>k. length (List.filter (\<lambda>x. key x = k) rows)) ks)"
    by (simp add: sum_list_addf [symmetric]) (rule arg_cong[where f = sum_list], auto)
  moreover have "sum_list (map (\<lambda>k. if k = key r then 1 else 0 :: nat) ks) = 1"
    using assms(1) Cons.prems by (simp add: sum_list_distinct_conv_sum_set sum.delta)
  ultimately show ?case using Cons by simp
qed simp

text \<open>A \<open>deque(maxlen=n)\<close> drops from its left end.\<close>

definition deque_append :: "nat \<Rightarrow> 'a \<Rightarrow> 'a list \<Rightarrow> 'a list" where
  "deque_append n x xs = (let ys = xs @ [x] in drop (length ys - n) ys)"

lemma deque_append_length: "length (deque_append n x xs) \<le> n"
  by (simp add: deque_append_def)

subsection \<open>Rounding to decimal places\<close>

text \<open>
  \<open>round(x, n)\<close> rounds half to even. The value is the exact rational the decimal result denotes.
\<close>

definition round_half_even :: "rat \<Rightarrow> int" where
  "round_half_even x =
     (let f = \<lfloor>x\<rfloor>; r = x - of_int f
      in if r < 1 / 2 then f else if r > 1 / 2 then f + 1 else if even f then f else f + 1)"

definition py_round :: "rat \<Rightarrow> nat \<Rightarrow> rat" where
  "py_round x n = of_int (round_half_even (x * 10 ^ n)) / 10 ^ n"

lemma round_half_even_close: "\<bar>of_int (round_half_even x) - x\<bar> \<le> 1 / 2"
  unfolding round_half_even_def Let_def by (auto simp: abs_if split: if_splits) linarith+

lemma round_half_even_between:
  assumes "of_int a \<le> x" and "x \<le> of_int b"
  shows "a \<le> round_half_even x \<and> round_half_even x \<le> b"
proof -
  let ?r = "round_half_even x"
  have c: "of_int ?r - x \<le> 1 / 2" "x - of_int ?r \<le> 1 / 2"
    using round_half_even_close[of x] by linarith+
  have "of_int a < (of_int (?r + 1) :: rat)" using assms c by simp
  then have "a \<le> ?r" by linarith
  moreover have "of_int ?r < (of_int (b + 1) :: rat)" using assms c by simp
  then have "?r \<le> b" by linarith
  ultimately show ?thesis by simp
qed

lemma py_round_unit: "0 \<le> x \<Longrightarrow> x \<le> 1 \<Longrightarrow> 0 \<le> py_round x n \<and> py_round x n \<le> 1"
  using round_half_even_between[of 0 "x * 10 ^ n" "10 ^ n"]
  by (simp add: py_round_def mult_left_le_one_le divide_le_eq)

subsection \<open>Decimal integers\<close>

text \<open>
  \<open>str(n)\<close> of a non-negative integer, and \<open>int(s)\<close> on a string of digits. The white space, sign and
  underscores that \<open>int\<close> also accepts are not modelled: None stands for every other string.
\<close>

definition digit_char :: "nat \<Rightarrow> char" where
  "digit_char d = char_of (48 + d)"

fun nat_str :: "nat \<Rightarrow> string" where
  "nat_str n = (if n < 10 then [digit_char n] else nat_str (n div 10) @ [digit_char (n mod 10)])"

declare nat_str.simps [simp del]

definition digit_val :: "char \<Rightarrow> nat option" where
  "digit_val c = (let n = of_char c :: nat in if 48 \<le> n \<and> n < 58 then Some (n - 48) else None)"

fun digits_val :: "nat \<Rightarrow> string \<Rightarrow> nat option" where
  "digits_val acc [] = Some acc"
| "digits_val acc (c # cs) =
     (case digit_val c of None \<Rightarrow> None | Some d \<Rightarrow> digits_val (10 * acc + d) cs)"

definition py_int :: "string \<Rightarrow> nat option" where
  "py_int s = (if s = [] then None else digits_val 0 s)"

lemma digit_val_char [simp]: "d < 10 \<Longrightarrow> digit_val (digit_char d) = Some d"
  by (simp add: digit_val_def digit_char_def Let_def)

lemma digits_val_append:
  "digits_val acc (cs @ ds) = (case digits_val acc cs of None \<Rightarrow> None | Some a \<Rightarrow> digits_val a ds)"
  by (induction acc cs rule: digits_val.induct) (auto split: option.splits)

lemma digits_val_nat_str: "digits_val 0 (nat_str n) = Some n"
proof (induction n rule: nat_str.induct)
  case (1 n)
  then show ?case
    by (cases "n < 10") (auto simp: nat_str.simps[of n] digits_val_append)
qed

lemma nat_str_nonempty [simp]: "nat_str n \<noteq> []"
  by (simp add: nat_str.simps[of n])

lemma py_int_nat_str [simp]: "py_int (nat_str n) = Some n"
  by (simp add: py_int_def digits_val_nat_str)

lemma inj_nat_str: "inj nat_str"
  by (metis injI option.inject py_int_nat_str)

subsection \<open>JSON values\<close>

text \<open>What \<open>json.loads\<close> returns; an object keeps the order of its keys.\<close>

datatype json = JNull | JBool bool | JInt int | JFloat rat | JStr string | JArr "json list"
  | JObj "(string \<times> json) list"

subsection \<open>Code that raises\<close>

text \<open>
  A coroutine that reads and writes a state and may raise: the state it leaves behind is there in
  both cases. \<open>ebind\<close> is statement sequencing.
\<close>

type_synonym ('s, 'e, 'a) action = "'s \<Rightarrow> 's \<times> ('e + 'a)"

definition ret :: "'a \<Rightarrow> ('s, 'e, 'a) action" where
  "ret a s = (s, Inr a)"

definition raise :: "'e \<Rightarrow> ('s, 'e, 'a) action" where
  "raise e s = (s, Inl e)"

definition ebind :: "('s, 'e, 'a) action \<Rightarrow> ('a \<Rightarrow> ('s, 'e, 'b) action) \<Rightarrow> ('s, 'e, 'b) action" where
  "ebind m f s = (case m s of (s', Inl e) \<Rightarrow> (s', Inl e) | (s', Inr a) \<Rightarrow> f a s')"

lemma ret_simp [simp]: "ret a s = (s, Inr a)"
  by (simp add: ret_def)

lemma raise_simp [simp]: "raise e s = (s, Inl e)"
  by (simp add: raise_def)

lemma ebind_Inl [simp]: "m s = (s', Inl e) \<Longrightarrow> ebind m f s = (s', Inl e)"
  by (simp add: ebind_def)

lemma ebind_Inr [simp]: "m s = (s', Inr a) \<Longrightarrow> ebind m f s = f a s'"
  by (simp add: ebind_def)

lemma ebind_InrD:
  "ebind m f s = (s'', Inr b) \<Longrightarrow> \<exists>s' a. m s = (s', Inr a) \<and> f a s' = (s'', Inr b)"
  by (auto simp: ebind_def split: prod.splits sum.splits)

lemma ebind_InlD:
  "ebind m f s = (s'', Inl e) \<Longrightarrow>
   m s = (s'', Inl e) \<or> (\<exists>s' a. m s = (s', Inr a) \<and> f a s' = (s'', Inl e))"
  by (auto simp: ebind_def split: prod.splits sum.splits)

text \<open>An HTTP handler that raises \<open>HTTPException\<close>, or a request the framework rejects with 422.\<close>

datatype http_error = HTTPError (status_code: nat)


text \<open>\<open>str.lower\<close> on ASCII letters.\<close>

definition lower_char :: "char \<Rightarrow> char" where
  "lower_char c = (let n = of_char c :: nat in if 65 \<le> n \<and> n \<le> 90 then char_of (n + 32) else c)"

end
