(* ===== verification/Health.thy ===== *)
theory Health imports Prelude begin

section \<open>Health checks\<close>

text \<open>
  \<open>shared/utils/health.py\<close> and \<open>middleware/routers/health.py\<close>: the answer of \<open>/health\<close> and \<open>/ready\<close>, and the check of
  Redis and the upstream services. What Redis and a service answer is an argument; the texts of exceptions are kept.
\<close>

record health_response =
  hr_status :: string
  hr_service :: string
  hr_version :: string

definition health_endpoint :: "string \<Rightarrow> string \<Rightarrow> health_response" where
  "health_endpoint service_name version = \<lparr>hr_status = ''ok'', hr_service = service_name, hr_version = version\<rparr>"

definition ready_endpoint :: "(string, string) dict" where
  "ready_endpoint = [(''status'', ''ready'')]"

definition redis_health :: "string + bool \<Rightarrow> (string, string) dict" where
  "redis_health ping = (case ping of
     Inl exc \<Rightarrow> [(''status'', ''error''), (''detail'', exc)]
   | Inr pong \<Rightarrow> [(''status'', if pong then ''ok'' else ''degraded'')])"

definition upstream_health :: "string + nat \<Rightarrow> (string, string) dict" where
  "upstream_health answer = (case answer of
     Inl exc \<Rightarrow> [(''status'', ''unreachable''), (''detail'', exc)]
   | Inr code \<Rightarrow> if code = 200 then [(''status'', ''ok'')]
       else [(''status'', ''degraded''), (''detail'', ''HTTP '' @ nat_str code)])"

text \<open>\<open>get url\<close> is the answer of a GET; the upstreams are the four services with their configured URLs.\<close>

definition dependency_results :: "string + bool \<Rightarrow> (string \<Rightarrow> string + nat) \<Rightarrow> (string, string) dict \<Rightarrow>
    (string, (string, string) dict) dict" where
  "dependency_results ping get upstreams =
     fold (\<lambda>(name, base_url) results. dset name (upstream_health (get (base_url @ ''/health''))) results)
       upstreams [(''redis'', redis_health ping)]"

definition dep_status :: "(string, string) dict \<Rightarrow> string" where
  "dep_status dep = dget_or dep ''status'' ''''"

definition overall_status :: "(string, (string, string) dict) dict \<Rightarrow> string" where
  "overall_status results =
     (let all_ok = list_all (\<lambda>dep. dep_status dep = ''ok'') (dvalues results);
          any_error = list_ex (\<lambda>dep. dep_status dep \<in> {''error'', ''unreachable''}) (dvalues results)
      in if all_ok then ''ok'' else if any_error then ''degraded'' else ''degraded'')"

definition health_dependencies :: "string + bool \<Rightarrow> (string \<Rightarrow> string + nat) \<Rightarrow> string \<Rightarrow> string \<Rightarrow> string \<Rightarrow> string \<Rightarrow>
    string \<times> (string, (string, string) dict) dict" where
  "health_dependencies ping get device_manager data_ingestion ml_inference scheduler =
     (let results = dependency_results ping get [(''device-manager'', device_manager), (''data-ingestion'', data_ingestion),
        (''ml-inference'', ml_inference), (''scheduler'', scheduler)]
      in (overall_status results, results))"

lemma health_status [simp]:
  "dep_status (redis_health ping) = ''ok'' \<longleftrightarrow> ping = Inr True"
  "dep_status (upstream_health answer) = ''ok'' \<longleftrightarrow> answer = Inr 200"
  by (auto simp: dep_status_def redis_health_def upstream_health_def dget_or_def split: sum.splits)

text \<open>The overall status is ok exactly when Redis answers the ping and every service answers 200; it is never an error.\<close>

theorem gateway_healthy_iff:
  "fst (health_dependencies ping get dm di ml sc) = (if ping = Inr True \<and>
       (\<forall>url \<in> {dm, di, ml, sc}. get (url @ ''/health'') = Inr 200) then ''ok'' else ''degraded'')"
  by (simp add: health_dependencies_def dependency_results_def overall_status_def Let_def)

end
