(* ===== verification/Streams.thy ===== *)
theory Streams imports Prelude begin

section \<open>Redis streams\<close>

text \<open>
  The stream methods of \<open>shared/database/redis_client.py\<close>. As for keys, the server is an argument: the
  record \<open>stream_server\<close> holds the stream commands over an arbitrary state, each of which may raise.
  What the pipeline relies on of XADD, XREADGROUP with the id \<open>>\<close>, and XACK is the locale
  \<open>stream_laws\<close>; \<open>ref_streams\<close> is an executable server that satisfies it.
\<close>

type_synonym fields = "(string, string) dict"
type_synonym stream_entry = "string \<times> fields"

datatype redis_error = ConnectionError | ResponseError bool

text \<open>The flag of a response error tells whether its text contains BUSYGROUP.\<close>

record group_info =
  gi_name :: string
  gi_consumers :: nat
  gi_lag :: "int option"
  gi_pending :: nat

record 's stream_server =
  sv_xadd :: "string \<Rightarrow> fields \<Rightarrow> int option \<Rightarrow> bool \<Rightarrow> ('s, redis_error, string) action"
  sv_xgroup_create :: "string \<Rightarrow> string \<Rightarrow> string \<Rightarrow> ('s, redis_error, unit) action"
  sv_xreadgroup :: "string \<Rightarrow> string \<Rightarrow> string \<Rightarrow> nat \<Rightarrow>
     ('s, redis_error, (string \<times> stream_entry list) list) action"
  sv_xack :: "string \<Rightarrow> string \<Rightarrow> string list \<Rightarrow> ('s, redis_error, nat) action"
  sv_xlen :: "string \<Rightarrow> ('s, redis_error, nat) action"
  sv_exists :: "string \<Rightarrow> ('s, redis_error, bool) action"
  sv_xinfo_groups :: "string \<Rightarrow> ('s, redis_error, group_info list) action"

text \<open>Stream and group names (\<open>shared/streams/constants.py\<close>).\<close>

definition RAW_TELEMETRY :: string where "RAW_TELEMETRY = ''raw_telemetry''"
definition ALERTS :: string where "ALERTS = ''alerts''"
definition ML_INFERENCE :: string where "ML_INFERENCE = ''ml_inference''"
definition DATA_PERSISTENCE :: string where "DATA_PERSISTENCE = ''data_persistence''"
definition ALERT_HANDLER :: string where "ALERT_HANDLER = ''alert_handler''"

subsection \<open>The wrapper's stream methods\<close>

definition stream_add :: "'s stream_server \<Rightarrow> string \<Rightarrow> fields \<Rightarrow> int option \<Rightarrow> bool \<Rightarrow>
    ('s, redis_error, string) action" where
  "stream_add S stream data maxlen approximate = sv_xadd S stream data maxlen approximate"

definition ensure_consumer_group :: "'s stream_server \<Rightarrow> string \<Rightarrow> string \<Rightarrow> string \<Rightarrow>
    ('s, redis_error, unit) action" where
  "ensure_consumer_group S stream grp start_id s =
     (case sv_xgroup_create S stream grp start_id s of
        (s, Inl (ResponseError busygroup)) \<Rightarrow>
          if \<not> busygroup then raise (ResponseError busygroup) s else ret () s
      | (s, Inl e) \<Rightarrow> raise e s
      | (s, Inr u) \<Rightarrow> ret () s)"

definition stream_read_group :: "'s stream_server \<Rightarrow> string \<Rightarrow> string \<Rightarrow> string \<Rightarrow> nat \<Rightarrow>
    ('s, redis_error, stream_entry list) action" where
  "stream_read_group S stream grp consumer count =
     ebind (sv_xreadgroup S stream grp consumer count)
       (\<lambda>result. case result of [] \<Rightarrow> ret [] | (_, es) # _ \<Rightarrow> ret es)"

definition stream_ack :: "'s stream_server \<Rightarrow> string \<Rightarrow> string \<Rightarrow> string list \<Rightarrow>
    ('s, redis_error, nat) action" where
  "stream_ack S stream grp ids = sv_xack S stream grp ids"

definition stream_len :: "'s stream_server \<Rightarrow> string \<Rightarrow> ('s, redis_error, nat) action" where
  "stream_len S stream = sv_xlen S stream"

subsection \<open>The documented behaviour of the commands\<close>

text \<open>
  \<open>entries s st\<close> is the content of a stream, \<open>delivered s st g\<close> the ids handed to a group so far. A group read
  with \<open>>\<close> hands out only entries never delivered to the group before; XADD appends and trims from the
  oldest end; XACK changes neither.
\<close>

locale stream_laws =
  fixes S :: "'s stream_server" and good :: "'s \<Rightarrow> bool"
    and entries :: "'s \<Rightarrow> string \<Rightarrow> stream_entry list"
    and delivered :: "'s \<Rightarrow> string \<Rightarrow> string \<Rightarrow> string list"
  assumes add_ok: "good s \<Longrightarrow> stream_add S st f (Some m) ap s = (s', Inr i) \<Longrightarrow> 0 < m \<Longrightarrow>
      \<exists>k \<le> length (entries s st). entries s' st = drop k (entries s st) @ [(i, f)]"
    and add_keeps: "good s \<Longrightarrow> stream_add S st f ml ap s = (s', r) \<Longrightarrow>
      good s' \<and> delivered s' = delivered s"
    and read_ok: "good s \<Longrightarrow> stream_read_group S st g c n s = (s', Inr es) \<Longrightarrow>
      set es \<subseteq> set (entries s st) \<and> length es \<le> n \<and> distinct (map fst es)
        \<and> set (map fst es) \<inter> set (delivered s st g) = {}
        \<and> delivered s' st g = delivered s st g @ map fst es"
    and read_keeps: "good s \<Longrightarrow> stream_read_group S st g c n s = (s', q) \<Longrightarrow>
      good s' \<and> entries s' = entries s \<and> (\<forall>e. q = Inl e \<longrightarrow> set (delivered s st g) \<subseteq> set (delivered s' st g))"
    and ack_keeps: "good s \<Longrightarrow> stream_ack S st g ids s = (s', a) \<Longrightarrow>
      good s' \<and> entries s' = entries s \<and> delivered s' = delivered s"
begin

lemma read_fresh:
  "good s \<Longrightarrow> stream_read_group S st g c n s = (s', Inr es) \<Longrightarrow> i \<in> set (map fst es) \<Longrightarrow>
   i \<notin> set (delivered s st g) \<and> i \<in> set (delivered s' st g)"
  using read_ok by fastforce

lemma read_grows:
  "good s \<Longrightarrow> stream_read_group S st g c n s = (s', r) \<Longrightarrow>
   set (delivered s st g) \<subseteq> set (delivered s' st g)"
  using read_ok[of s st g c n s'] read_keeps[of s st g c n s' r] by (cases r) auto

lemma added_in_log:
  "good s \<Longrightarrow> stream_add S st f (Some m) ap s = (s', Inr i) \<Longrightarrow> 0 < m \<Longrightarrow> last (entries s' st) = (i, f)"
  using add_ok by fastforce

end

subsection \<open>A reference server\<close>

text \<open>
  Entries carry consecutive numbers; a group is the number it has been served up to, its pending ids
  and the ids it was given. Trimming is exact. The flag \<open>sr_up\<close> makes every command raise when it is down.
\<close>

record streams =
  sr_up :: bool
  sr_next :: nat
  sr_log :: "string \<Rightarrow> (nat \<times> fields) list"
  sr_served :: "string \<Rightarrow> string \<Rightarrow> nat"
  sr_pending :: "string \<Rightarrow> string \<Rightarrow> string list"
  sr_given :: "string \<Rightarrow> string \<Rightarrow> nat list"

definition streams_empty :: streams where
  "streams_empty = \<lparr>sr_up = True, sr_next = 1, sr_log = (\<lambda>_. []), sr_served = (\<lambda>_ _. 0),
     sr_pending = (\<lambda>_ _. []), sr_given = (\<lambda>_ _. [])\<rparr>"

definition keep_last :: "nat \<Rightarrow> 'a list \<Rightarrow> 'a list" where
  "keep_last n xs = drop (length xs - n) xs"

definition rs_add :: "string \<Rightarrow> fields \<Rightarrow> int option \<Rightarrow> bool \<Rightarrow> (streams, redis_error, string) action" where
  "rs_add st f ml ap s =
     (if \<not> sr_up s then raise ConnectionError s
      else let l = sr_log s st @ [(sr_next s, f)];
               l = (case ml of None \<Rightarrow> l | Some m \<Rightarrow> keep_last (nat m) l)
        in ret (nat_str (sr_next s))
             (s\<lparr>sr_next := sr_next s + 1, sr_log := (sr_log s)(st := l)\<rparr>))"

definition rs_read :: "string \<Rightarrow> string \<Rightarrow> string \<Rightarrow> nat \<Rightarrow>
    (streams, redis_error, (string \<times> stream_entry list) list) action" where
  "rs_read st g c n s =
     (if \<not> sr_up s then raise ConnectionError s
      else let es = take n [e \<leftarrow> sr_log s st. sr_served s st g < fst e];
               ids = map (nat_str \<circ> fst) es
        in if es = [] then ret [] s
           else ret [(st, map (\<lambda>(i, f). (nat_str i, f)) es)]
             (s\<lparr>sr_served := (sr_served s)(st := (sr_served s st)(g := fst (last es))),
                sr_pending := (sr_pending s)(st := (sr_pending s st)(g := sr_pending s st g @ ids)),
                sr_given := (sr_given s)(st := (sr_given s st)(g := sr_given s st g @ map fst es))\<rparr>))"

definition rs_ack :: "string \<Rightarrow> string \<Rightarrow> string list \<Rightarrow> (streams, redis_error, nat) action" where
  "rs_ack st g ids s =
     (if \<not> sr_up s then raise ConnectionError s
      else let p = sr_pending s st g in
        ret (length [i \<leftarrow> p. i \<in> set ids])
          (s\<lparr>sr_pending := (sr_pending s)(st := (sr_pending s st)(g := [i \<leftarrow> p. i \<notin> set ids]))\<rparr>))"

definition ref_streams :: "streams stream_server" where
  "ref_streams = \<lparr>sv_xadd = rs_add,
     sv_xgroup_create = (\<lambda>st g i s. if sr_up s then ret () s else raise ConnectionError s),
     sv_xreadgroup = rs_read, sv_xack = rs_ack,
     sv_xlen = (\<lambda>st s. ret (length (sr_log s st)) s),
     sv_exists = (\<lambda>st s. ret (sr_log s st \<noteq> []) s),
     sv_xinfo_groups = (\<lambda>st. ret [])\<rparr>"

definition rs_good :: "streams \<Rightarrow> bool" where
  "rs_good s \<longleftrightarrow> (\<forall>st. sorted_wrt (<) (map fst (sr_log s st)) \<and> (\<forall>i \<in> fst ` set (sr_log s st). i < sr_next s)
     \<and> (\<forall>g. \<forall>i \<in> set (sr_given s st g). i \<le> sr_served s st g))"

definition rs_view :: "streams \<Rightarrow> string \<Rightarrow> stream_entry list" where
  "rs_view s st = map (\<lambda>(i, f). (nat_str i, f)) (sr_log s st)"

definition rs_delivered :: "streams \<Rightarrow> string \<Rightarrow> string \<Rightarrow> string list" where
  "rs_delivered s st g = map nat_str (sr_given s st g)"

lemma nat_str_inj [simp]: "nat_str m = nat_str n \<longleftrightarrow> m = n"
  by (metis option.inject py_int_nat_str)

lemma sorted_wrt_less_last:
  "sorted_wrt (<) xs \<Longrightarrow> i \<in> set xs \<Longrightarrow> i \<le> last (xs :: nat list)"
  by (induction xs) (auto dest: last_in_set intro: less_imp_le)

lemma sorted_wrt_take_filter:
  "sorted_wrt (<) (map fst l) \<Longrightarrow> sorted_wrt (<) (map fst (take n (filter P l)))"
proof -
  assume "sorted_wrt (<) (map fst l)"
  then have "sorted_wrt (\<lambda>a b. fst a < fst b) (take n (filter P l))"
    by (simp add: sorted_wrt_map sorted_wrt_take sorted_wrt_filter)
  then show ?thesis by (simp add: sorted_wrt_map)
qed

lemma sorted_less_distinct: "sorted_wrt (<) xs \<Longrightarrow> distinct (xs :: nat list)"
  by (simp add: strict_sorted_iff)

lemmas rs_simps = stream_add_def stream_read_group_def stream_ack_def ref_streams_def

lemma ref_read_cases:
  assumes "rs_good s" "stream_read_group ref_streams st g c n s = (s', r)"
  obtains (down) "\<not> sr_up s" "s' = s" "r = Inl ConnectionError"
    | (none) "s' = s" "r = Inr []"
    | (some) es where "sr_up s" "es \<noteq> []" "es = take n [e \<leftarrow> sr_log s st. sr_served s st g < fst e]"
        "r = Inr (map (\<lambda>(i, f). (nat_str i, f)) es)" "sr_log s' = sr_log s" "sr_next s' = sr_next s"
        "sr_given s' = (sr_given s)(st := (sr_given s st)(g := sr_given s st g @ map fst es))"
        "sr_served s' = (sr_served s)(st := (sr_served s st)(g := fst (last es)))"
proof (cases "sr_up s")
  case False
  then have "rs_read st g c n s = (s, Inl ConnectionError)" by (simp add: rs_read_def)
  then have "s' = s \<and> r = Inl ConnectionError" using assms(2) by (simp add: rs_simps ebind_def)
  with False show ?thesis using down by blast
next
  case True
  define es where "es = take n [e \<leftarrow> sr_log s st. sr_served s st g < fst e]"
  have r: "rs_read st g c n s = (if es = [] then (s, Inr []) else
      (s\<lparr>sr_served := (sr_served s)(st := (sr_served s st)(g := fst (last es))),
         sr_pending := (sr_pending s)(st := (sr_pending s st)(g := sr_pending s st g @ map (nat_str \<circ> fst) es)),
         sr_given := (sr_given s)(st := (sr_given s st)(g := sr_given s st g @ map fst es))\<rparr>,
       Inr [(st, map (\<lambda>(i, f). (nat_str i, f)) es)]))"
    using True unfolding rs_read_def Let_def es_def[symmetric] ret_def by (simp only: not_True_eq_False if_False)
  show ?thesis
  proof (cases "es = []")
    case e: True
    have "s' = s \<and> r = Inr []" using assms(2) r e by (simp add: rs_simps ebind_def)
    then show ?thesis using none by blast
  next
    case False
    then have p: "rs_read st g c n s = (s\<lparr>sr_served := (sr_served s)(st := (sr_served s st)(g := fst (last es))),
         sr_pending := (sr_pending s)(st := (sr_pending s st)(g := sr_pending s st g @ map (nat_str \<circ> fst) es)),
         sr_given := (sr_given s)(st := (sr_given s st)(g := sr_given s st g @ map fst es))\<rparr>,
       Inr [(st, map (\<lambda>(i, f). (nat_str i, f)) es)])" using r by (simp only: if_False)
    have q: "s' = fst (rs_read st g c n s) \<and> r = Inr (map (\<lambda>(i, f). (nat_str i, f)) es)"
      using assms(2) p by (simp add: rs_simps ebind_def)
    show ?thesis
    proof (rule some[OF True False es_def])
      show "r = Inr (map (\<lambda>(i, f). (nat_str i, f)) es)" using q by simp
    qed (simp_all add: q p)
  qed
qed

interpretation rs: stream_laws ref_streams rs_good rs_view rs_delivered
proof (unfold_locales, goal_cases)
  case (1 s st f m ap s' i)
  let ?l = "sr_log s st @ [(sr_next s, f)]"
  have l: "sr_log s' st = drop (length ?l - nat m) ?l" "i = nat_str (sr_next s)"
    using 1 by (auto simp: rs_simps rs_add_def Let_def keep_last_def split: if_splits)
  let ?k = "length ?l - nat m"
  have k: "?k \<le> length (sr_log s st)" using 1(3) by auto
  then have "sr_log s' st = drop ?k (sr_log s st) @ [(sr_next s, f)]" using l(1) by simp
  then have "rs_view s' st = drop ?k (rs_view s st) @ [(i, f)]"
    using l(2) by (simp add: rs_view_def drop_map)
  then show ?case using k by (intro exI[of _ ?k]) (simp add: rs_view_def)
next
  case (2 s st f ml ap s' r)
  show ?case
  proof (cases "sr_up s")
    case False
    then show ?thesis using 2 by (simp add: rs_simps rs_add_def)
  next
    case True
    let ?l = "sr_log s st @ [(sr_next s, f)]"
    obtain k where l: "sr_log s' = (sr_log s)(st := drop k ?l)" "sr_next s' = sr_next s + 1"
        "sr_given s' = sr_given s" "sr_served s' = sr_served s"
    proof (cases ml)
      case None
      then show ?thesis using 2 True that[of 0] by (auto simp: rs_simps rs_add_def Let_def)
    next
      case (Some m)
      then show ?thesis using 2 True that[of "length ?l - nat m"]
        by (auto simp: rs_simps rs_add_def Let_def keep_last_def)
    qed
    have g: "sorted_wrt (<) (map fst (sr_log s t))" "\<forall>i \<in> fst ` set (sr_log s t). i < sr_next s" for t
      using 2(1) by (auto simp: rs_good_def)
    have "sorted_wrt (<) (map fst ?l)" using g[of st] by (auto simp: sorted_wrt_append)
    then have s: "sorted_wrt (<) (map fst (drop k ?l))"
      by (simp only: drop_map[symmetric] sorted_wrt_drop)
    have b: "\<forall>i \<in> fst ` set (drop k ?l). i < sr_next s + 1"
      using g(2)[of st] set_drop_subset[of k ?l] by fastforce
    have "rs_good s'" unfolding rs_good_def
    proof (intro allI conjI)
      fix t
      show "sorted_wrt (<) (map fst (sr_log s' t))" using s g(1)[of t] l by simp
      show "\<forall>i \<in> fst ` set (sr_log s' t). i < sr_next s'" using b g(2)[of t] l by (auto simp: less_Suc_eq)
      show "\<forall>i \<in> set (sr_given s' t g). i \<le> sr_served s' t g" for g
        using 2(1) l by (auto simp: rs_good_def)
    qed
    then show ?thesis using l by (simp add: rs_delivered_def fun_eq_iff)
  qed
next
  case (3 s st g c n s' es)
  from 3(1,2) show ?case
  proof (cases rule: ref_read_cases)
    case (some xs)
    have "sorted_wrt (<) (map fst xs)" unfolding some(3)
      using 3(1) by (intro sorted_wrt_take_filter) (simp add: rs_good_def)
    then have d: "distinct (map fst xs)" by (rule sorted_less_distinct)
    have "\<forall>e \<in> set xs. e \<in> set (sr_log s st) \<and> sr_served s st g < fst e" unfolding some(3)
      using set_take_subset[of n "filter (\<lambda>e. sr_served s st g < fst e) (sr_log s st)"] by auto
    moreover have "\<forall>i \<in> set (sr_given s st g). i \<le> sr_served s st g" using 3(1) by (simp add: rs_good_def)
    ultimately have f: "set (map fst xs) \<inter> set (sr_given s st g) = {}" "set xs \<subseteq> set (sr_log s st)"
      by fastforce+
    have es: "es = map (\<lambda>(i, f). (nat_str i, f)) xs" using some(4) by simp
    have ids: "map fst es = map nat_str (map fst xs)" unfolding es by auto
    have 1: "set es \<subseteq> set (rs_view s st)" using f(2) unfolding es rs_view_def by auto
    have 2: "length es \<le> n" unfolding es some(3) by simp
    have 3: "distinct (map fst es)" unfolding ids using d
      by (simp only: distinct_map[of nat_str] inj_on_subset[OF inj_nat_str subset_UNIV])
    have 4: "set (map fst es) \<inter> set (rs_delivered s st g) = {}"
      unfolding ids rs_delivered_def using f(1) by (auto simp: image_iff disjoint_iff)
    have 5: "rs_delivered s' st g = rs_delivered s st g @ map fst es"
      unfolding ids rs_delivered_def using some(7) by simp
    from 1 2 3 4 5 show ?thesis by simp
  qed (auto simp: rs_view_def)
next
  case (4 s st g c n s' r)
  from 4(1,2) show ?case
  proof (cases rule: ref_read_cases)
    case (some xs)
    have o: "sorted_wrt (<) (map fst xs)" unfolding some(3)
      using 4(1) by (intro sorted_wrt_take_filter) (simp add: rs_good_def)
    have m: "i \<le> fst (last xs)" if "i \<in> set (map fst xs)" for i
      using sorted_wrt_less_last[OF o that] some(2) by (simp add: last_map)
    have "last xs \<in> set xs" using some(2) by simp
    then have "sr_served s st g < fst (last xs)"
      using some(3) set_take_subset[of n "filter (\<lambda>e. sr_served s st g < fst e) (sr_log s st)"] by auto
    then have "\<forall>i \<in> set (sr_given s' t h). i \<le> sr_served s' t h" for t h
      using 4(1) m some(7,8) by (fastforce simp: rs_good_def)
    then have "rs_good s'" using 4(1) some(5,6) by (simp add: rs_good_def)
    then show ?thesis using some(4,5) by (simp add: rs_view_def fun_eq_iff)
  qed (use 4 in auto)
next
  case (5 s st g ids s' r)
  then show ?case
    by (fastforce simp: rs_simps rs_ack_def Let_def rs_good_def rs_view_def rs_delivered_def fun_eq_iff split: if_splits)
qed


subsection \<open>Several groups and the other commands\<close>

text \<open>A read concerns its own group only, and the other commands the services send hand out nothing.\<close>

locale stream_groups = stream_laws S good entries delivered
  for S :: "'s stream_server" and good and entries and delivered +
  assumes read_other: "good s \<Longrightarrow> stream_read_group S st g c n s = (s', r) \<Longrightarrow> st' \<noteq> st \<or> g' \<noteq> g \<Longrightarrow>
      delivered s' st' g' = delivered s st' g'"
    and create_keeps: "good s \<Longrightarrow> sv_xgroup_create S st g i s = (s', u) \<Longrightarrow> good s' \<and> delivered s' = delivered s"
    and len_keeps: "good s \<Longrightarrow> stream_len S st s = (s', k) \<Longrightarrow> good s' \<and> delivered s' = delivered s"
    and exists_keeps: "good s \<Longrightarrow> sv_exists S st s = (s', b) \<Longrightarrow> good s' \<and> delivered s' = delivered s"
    and info_keeps: "good s \<Longrightarrow> sv_xinfo_groups S st s = (s', gs) \<Longrightarrow> good s' \<and> delivered s' = delivered s"

interpretation rg: stream_groups ref_streams rs_good rs_view rs_delivered
proof (unfold_locales, goal_cases)
  case (1 s st g c n s' r st' g')
  from 1(1,2) show ?case
    by (cases rule: ref_read_cases) (use 1(3) in \<open>auto simp: rs_delivered_def\<close>)
qed (auto simp: ref_streams_def stream_len_def split: if_splits)

end
