(* ===== verification/Telemetry.thy ===== *)
theory Telemetry imports Streams begin

section \<open>Telemetry readings and alerts\<close>

text \<open>
  \<open>shared/models/telemetry.py\<close> and \<open>shared/models/alert.py\<close>. A UUID is its canonical text, so \<open>str\<close> of
  it is the text itself; a \<open>datetime\<close> is a number of seconds. The text formats are not code of the
  repository and are the fields of \<open>codec\<close>: \<open>json.loads\<close>, pydantic's JSON dump and its validation of a
  UUID and of a date, \<open>isoformat\<close> and its inverse, \<open>str\<close> and \<open>float\<close> of a float.
\<close>

type_synonym uuid = string
type_synonym json_object = "(string, json) dict"

record codec =
  cd_loads :: "string \<Rightarrow> json option"
  cd_dumps :: "json \<Rightarrow> string"
  cd_isoformat :: "time \<Rightarrow> string"
  cd_fromisoformat :: "string \<Rightarrow> time option"
  cd_uuid :: "json \<Rightarrow> uuid option"
  cd_datetime :: "json \<Rightarrow> time option"
  cd_float_str :: "flt \<Rightarrow> string"
  cd_float :: "string \<Rightarrow> flt option"

record telemetry_reading =
  tr_device_id :: uuid
  tr_device_type :: string
  tr_timestamp :: time
  tr_payload :: json_object
  tr_metadata :: json_object

definition json_str :: "json \<Rightarrow> string option" where
  "json_str j = (case j of JStr s \<Rightarrow> Some s | _ \<Rightarrow> None)"

definition json_dict :: "json \<Rightarrow> json_object option" where
  "json_dict j = (case j of JObj d \<Rightarrow> Some d | _ \<Rightarrow> None)"

text \<open>\<open>not v\<close> for a value that may be absent.\<close>

definition falsy :: "json option \<Rightarrow> bool" where
  "falsy j = (case j of None \<Rightarrow> True | Some JNull \<Rightarrow> True | Some (JStr s) \<Rightarrow> s = [] | Some (JBool b) \<Rightarrow> \<not> b
     | Some (JInt i) \<Rightarrow> i = 0 | Some (JFloat x) \<Rightarrow> x = 0 | Some (JArr xs) \<Rightarrow> xs = [] | Some (JObj d) \<Rightarrow> d = [])"

text \<open>
  \<open>TelemetryReading(**data)\<close>: the three required fields, the two with a default; other keys are
  ignored. None stands for a validation error.
\<close>

definition make_reading :: "codec \<Rightarrow> time \<Rightarrow> json_object \<Rightarrow> telemetry_reading option" where
  "make_reading c now data =
     Option.bind (Option.bind (dget data ''device_id'') (cd_uuid c)) (\<lambda>device_id.
     Option.bind (Option.bind (dget data ''device_type'') json_str) (\<lambda>device_type.
     Option.bind (case dget data ''timestamp'' of None \<Rightarrow> Some now | Some j \<Rightarrow> cd_datetime c j) (\<lambda>timestamp.
     Option.bind (Option.bind (dget data ''payload'') json_dict) (\<lambda>payload.
     Option.bind (case dget data ''metadata'' of None \<Rightarrow> Some [] | Some j \<Rightarrow> json_dict j) (\<lambda>metadata.
       Some \<lparr>tr_device_id = device_id, tr_device_type = device_type, tr_timestamp = timestamp,
             tr_payload = payload, tr_metadata = metadata\<rparr>)))))"

definition to_stream_dict :: "codec \<Rightarrow> telemetry_reading \<Rightarrow> fields" where
  "to_stream_dict c r =
     [(''device_id'', tr_device_id r),
      (''device_type'', tr_device_type r),
      (''timestamp'', cd_isoformat c (tr_timestamp r)),
      (''payload'', cd_dumps c (JObj [(''payload'', JObj (tr_payload r))])),
      (''metadata'', cd_dumps c (JObj [(''metadata'', JObj (tr_metadata r))]))]"

text \<open>\<open>json.loads(data[key])[key]\<close>, which must be a dict for the model to accept it.\<close>

definition nested_dict :: "codec \<Rightarrow> fields \<Rightarrow> string \<Rightarrow> json_object option" where
  "nested_dict c data key =
     Option.bind (dget data key) (\<lambda>s. Option.bind (cd_loads c s) (\<lambda>j.
       Option.bind (json_dict j) (\<lambda>d. Option.bind (dget d key) json_dict)))"

definition from_stream_dict :: "codec \<Rightarrow> fields \<Rightarrow> telemetry_reading option" where
  "from_stream_dict c data =
     Option.bind (Option.bind (dget data ''device_id'') (\<lambda>s. cd_uuid c (JStr s))) (\<lambda>device_id.
     Option.bind (dget data ''device_type'') (\<lambda>device_type.
     Option.bind (Option.bind (dget data ''timestamp'') (cd_fromisoformat c)) (\<lambda>timestamp.
     Option.bind (nested_dict c data ''payload'') (\<lambda>payload.
     Option.bind (nested_dict c data ''metadata'') (\<lambda>metadata.
       Some \<lparr>tr_device_id = device_id, tr_device_type = device_type, tr_timestamp = timestamp,
             tr_payload = payload, tr_metadata = metadata\<rparr>)))))"

text \<open>The formats read back what they write, for the fields of this reading.\<close>

definition reading_codec_ok :: "codec \<Rightarrow> telemetry_reading \<Rightarrow> bool" where
  "reading_codec_ok c r \<longleftrightarrow>
     cd_uuid c (JStr (tr_device_id r)) = Some (tr_device_id r) \<and>
     cd_fromisoformat c (cd_isoformat c (tr_timestamp r)) = Some (tr_timestamp r) \<and>
     (\<forall>j \<in> {JObj [(''payload'', JObj (tr_payload r))], JObj [(''metadata'', JObj (tr_metadata r))]}.
        cd_loads c (cd_dumps c j) = Some j)"

lemma stream_dict_round_trip:
  "reading_codec_ok c r \<Longrightarrow> from_stream_dict c (to_stream_dict c r) = Some r"
  by (simp add: reading_codec_ok_def from_stream_dict_def to_stream_dict_def nested_dict_def json_dict_def)

lemma json_str_Some: "json_str j = Some s \<longleftrightarrow> j = JStr s"
  by (cases j) (auto simp: json_str_def)

lemma json_dict_Some: "json_dict j = Some d \<longleftrightarrow> j = JObj d"
  by (cases j) (auto simp: json_dict_def)

lemma make_reading_fields:
  "make_reading c now d = Some r \<Longrightarrow>
   Option.bind (dget d ''device_id'') (cd_uuid c) = Some (tr_device_id r) \<and>
   dget d ''device_type'' = Some (JStr (tr_device_type r)) \<and>
   dget d ''payload'' = Some (JObj (tr_payload r))"
  by (auto simp: make_reading_def bind_eq_Some_conv json_str_Some json_dict_Some)

subsection \<open>Alerts\<close>

datatype alert_severity = INFO | WARNING | CRITICAL

definition severity_value :: "alert_severity \<Rightarrow> string" where
  "severity_value s = (case s of INFO \<Rightarrow> ''info'' | WARNING \<Rightarrow> ''warning'' | CRITICAL \<Rightarrow> ''critical'')"

record alert =
  al_alert_id :: uuid
  al_device_id :: uuid
  al_alert_type :: string
  al_severity :: alert_severity
  al_timestamp :: time
  al_anomaly_score :: flt
  al_model_version :: string
  al_details :: json_object

text \<open>The model refuses a score outside the unit interval; the alert type keeps its default.\<close>

definition make_alert :: "uuid \<Rightarrow> time \<Rightarrow> uuid \<Rightarrow> flt \<Rightarrow> string \<Rightarrow> alert_severity \<Rightarrow> json_object \<Rightarrow> alert option" where
  "make_alert alert_id now device_id anomaly_score model_version severity details =
     (if 0 \<le> anomaly_score \<and> anomaly_score \<le> 1
      then Some \<lparr>al_alert_id = alert_id, al_device_id = device_id, al_alert_type = ''anomaly_detected'',
                 al_severity = severity, al_timestamp = now, al_anomaly_score = anomaly_score,
                 al_model_version = model_version, al_details = details\<rparr>
      else None)"

definition alert_to_stream_dict :: "codec \<Rightarrow> alert \<Rightarrow> fields" where
  "alert_to_stream_dict c a =
     [(''alert_id'', al_alert_id a),
      (''device_id'', al_device_id a),
      (''alert_type'', al_alert_type a),
      (''severity'', severity_value (al_severity a)),
      (''timestamp'', cd_isoformat c (al_timestamp a)),
      (''anomaly_score'', cd_float_str c (al_anomaly_score a)),
      (''model_version'', al_model_version a),
      (''details'', cd_dumps c (JObj [(''details'', JObj (al_details a))]))]"

lemma severity_value_inj: "severity_value a = severity_value b \<longleftrightarrow> a = b"
  by (cases a; cases b) (simp_all add: severity_value_def)

end
