(* ===== verification/StreamMonitors.thy ===== *)
theory StreamMonitors imports Streams begin

section \<open>Stream monitor\<close>

text \<open>
  \<open>data_ingestion/services/stream_monitor.py\<close>: which devices reported lately, and the gauges computed
  from it and from the state of the streams. The set of known types is a list without repetitions;
  the gauges are dictionaries from their labels to a value.
\<close>

definition ACTIVE_WINDOW_SECONDS :: time where "ACTIVE_WINDOW_SECONDS = 60"

record stream_monitor =
  sm_last_seen :: "(string, string \<times> time) dict"
  sm_known_types :: "string list"
  sm_active_devices :: "(string, nat) dict"
  sm_stream_length :: "(string, nat) dict"
  sm_group_lag :: "(string \<times> string, int) dict"
  sm_group_pending :: "(string \<times> string, nat) dict"

definition sm_new :: stream_monitor where
  "sm_new = \<lparr>sm_last_seen = [], sm_known_types = [], sm_active_devices = [], sm_stream_length = [],
     sm_group_lag = [], sm_group_pending = []\<rparr>"

definition record_device :: "time \<Rightarrow> string \<Rightarrow> string \<Rightarrow> stream_monitor \<Rightarrow> stream_monitor" where
  "record_device now device_id device_type m =
     m\<lparr>sm_last_seen := dset device_id (device_type, now) (sm_last_seen m)\<rparr>"

text \<open>The counter of the types of the devices still there, and the update of a gauge per known type.\<close>

definition type_counts :: "(string, string \<times> time) dict \<Rightarrow> (string, nat) dict" where
  "type_counts d = fold (\<lambda>(device_type, _) c. dset device_type (dget_or c device_type 0 + 1) c) (dvalues d) []"

definition update_active_devices :: "time \<Rightarrow> stream_monitor \<Rightarrow> stream_monitor" where
  "update_active_devices now m =
     (let cutoff = now - ACTIVE_WINDOW_SECONDS;
          stale = [d. (d, (_, seen)) \<leftarrow> sm_last_seen m, seen < cutoff];
          last_seen = fold ddel stale (sm_last_seen m);
          counts = type_counts last_seen;
          known = fold List.insert (dkeys counts) (sm_known_types m)
      in m\<lparr>sm_last_seen := last_seen, sm_known_types := known,
           sm_active_devices := fold (\<lambda>t g. dset t (dget_or counts t 0) g) known (sm_active_devices m)\<rparr>)"

text \<open>A group no consumer ever joined is skipped; \<open>group.get("lag") or 0\<close>.\<close>

fun group_gauges :: "string \<Rightarrow> group_info list \<Rightarrow> stream_monitor \<Rightarrow> stream_monitor" where
  "group_gauges stream [] m = m"
| "group_gauges stream (g # gs) m =
     (if gi_consumers g = 0 then group_gauges stream gs m
      else group_gauges stream gs
        (m\<lparr>sm_group_lag := dset (stream, gi_name g)
              (case gi_lag g of None \<Rightarrow> 0 | Some l \<Rightarrow> l) (sm_group_lag m),
           sm_group_pending := dset (stream, gi_name g) (gi_pending g) (sm_group_pending m)\<rparr>))"

fun stream_gauges :: "'s stream_server \<Rightarrow> string list \<Rightarrow> ('s \<times> stream_monitor, redis_error, unit) action" where
  "stream_gauges S [] (s, m) = ret () (s, m)"
| "stream_gauges S (stream # streams) (s, m) =
     (case sv_exists S stream s of
        (s, Inl e) \<Rightarrow> raise e (s, m)
      | (s, Inr False) \<Rightarrow> stream_gauges S streams (s, m)
      | (s, Inr True) \<Rightarrow>
          (case stream_len S stream s of
             (s, Inl e) \<Rightarrow> raise e (s, m)
           | (s, Inr n) \<Rightarrow>
               let m = m\<lparr>sm_stream_length := dset stream n (sm_stream_length m)\<rparr> in
               (case sv_xinfo_groups S stream s of
                  (s, Inl e) \<Rightarrow> raise e (s, m)
                | (s, Inr gs) \<Rightarrow> stream_gauges S streams (s, group_gauges stream gs m))))"

definition update_stream_gauges :: "'s stream_server \<Rightarrow> ('s \<times> stream_monitor, redis_error, unit) action" where
  "update_stream_gauges S = stream_gauges S [RAW_TELEMETRY, ALERTS]"

text \<open>One round of \<open>run_stream_monitor\<close>: an error of the server is logged, the loop goes on.\<close>

definition monitor_round :: "'s stream_server \<Rightarrow> time \<Rightarrow> 's \<times> stream_monitor \<Rightarrow> 's \<times> stream_monitor" where
  "monitor_round S now = (\<lambda>(s, m). fst (update_stream_gauges S (s, update_active_devices now m)))"

subsection \<open>Lemmas\<close>

definition active_count :: "time \<Rightarrow> string \<Rightarrow> stream_monitor \<Rightarrow> nat" where
  "active_count now t m =
     length [(d, ty, seen) \<leftarrow> sm_last_seen m. ty = t \<and> now - ACTIVE_WINDOW_SECONDS \<le> seen]"

definition sm_ok :: "stream_monitor \<Rightarrow> bool" where
  "sm_ok m \<longleftrightarrow> distinct (dkeys (sm_last_seen m)) \<and> distinct (sm_known_types m)"

lemma fold_ddel: "fold ddel ks d = [(k, v) \<leftarrow> d. k \<notin> set ks]"
proof (induction ks arbitrary: d)
  case (Cons k ks)
  then show ?case by (auto simp: AList.delete_eq filter_filter intro!: filter_cong)
qed simp

lemma stale_filter:
  fixes d :: "(string, string \<times> time) dict"
  assumes "distinct (dkeys d)"
  shows "fold ddel [k. (k, (_, seen)) \<leftarrow> d, seen < cutoff] d = [(k, ty, seen) \<leftarrow> d. cutoff \<le> seen]"
proof -
  have s: "set [k. (k, (_, seen)) \<leftarrow> d, seen < cutoff] = {k. \<exists>ty seen. (k, ty, seen) \<in> set d \<and> seen < cutoff}"
    by (induction d) auto
  have u: "seen' = seen" if "(k, ty, seen) \<in> set d" "(k, ty', seen') \<in> set d" for k ty seen ty' seen'
    using eq_key_imp_eq_value[OF assms that] by simp
  have "(\<exists>ty seen. (k, ty, seen) \<in> set d \<and> seen < cutoff) = (seen < cutoff)"
    if m: "(k, ty, seen) \<in> set d" for k ty seen
  proof
    assume "\<exists>ty seen. (k, ty, seen) \<in> set d \<and> seen < cutoff"
    then obtain ty' seen' where "(k, ty', seen') \<in> set d" "seen' < cutoff" by blast
    with u[OF m] show "seen < cutoff" by simp
  next
    assume "seen < cutoff"
    with m show "\<exists>ty seen. (k, ty, seen) \<in> set d \<and> seen < cutoff" by blast
  qed
  then have "(case x of (k, v) \<Rightarrow> k \<notin> {k. \<exists>ty seen. (k, ty, seen) \<in> set d \<and> seen < cutoff}) =
      (case x of (k, ty, seen) \<Rightarrow> cutoff \<le> seen)" if "x \<in> set d" for x
    using that by (cases x) (simp del: not_ex add: not_less)
  then show ?thesis unfolding fold_ddel s by (intro filter_cong) simp_all
qed

lemma type_counts_step:
  "dget_or (fold (\<lambda>(ty, _) c. dset ty (dget_or c ty 0 + 1) c) vs c) t 0 =
   dget_or c t 0 + length [v \<leftarrow> vs. fst v = t]"
  by (induction vs arbitrary: c) (auto simp: split_beta)

lemma type_counts_get: "dget_or (type_counts d) t 0 = length [(k, ty, seen) \<leftarrow> d. ty = t]"
proof -
  have "length [v \<leftarrow> dvalues d. fst v = t] = length [(k, ty, seen) \<leftarrow> d. ty = t]"
    by (induction d) auto
  then show ?thesis unfolding type_counts_def type_counts_step by simp
qed

lemma fold_insert_set: "set (fold List.insert xs ys) = set xs \<union> set ys"
  by (induction xs arbitrary: ys) auto

lemma fold_insert_distinct: "distinct ys \<Longrightarrow> distinct (fold List.insert xs ys)"
  by (induction xs arbitrary: ys) auto

lemma fold_gauge_get:
  "dget (fold (\<lambda>t g. dset t (f t) g) ts g) t = (if t \<in> set ts then Some (f t) else dget g t)"
  by (induction ts arbitrary: g) auto

lemma type_counts_keys: "t \<in> set (dkeys (type_counts d)) \<longleftrightarrow> t \<in> fst ` set (dvalues d)"
proof -
  have "set (dkeys (fold (\<lambda>(ty, _) c. dset ty (dget_or c ty 0 + 1) c) vs c)) = set (dkeys c) \<union> fst ` set vs"
    for vs :: "(string \<times> time) list" and c :: "(string, nat) dict"
    by (induction vs arbitrary: c) (auto simp: split_beta dom_update simp flip: dom_map_of_conv_image_fst)
  then show ?thesis by (simp add: type_counts_def)
qed

lemma active_gauge:
  assumes "sm_ok m" "t \<in> set (sm_known_types (update_active_devices now m))"
  shows "dget (sm_active_devices (update_active_devices now m)) t = Some (active_count now t m)"
proof -
  have "length [(k, ty, seen) \<leftarrow> [(k, ty, seen) \<leftarrow> sm_last_seen m. now - ACTIVE_WINDOW_SECONDS \<le> seen]. ty = t] =
      active_count now t m"
    unfolding active_count_def filter_filter by (intro arg_cong[where f = length] filter_cong) auto
  then show ?thesis using assms stale_filter[of "sm_last_seen m"]
    by (simp add: update_active_devices_def Let_def fold_gauge_get type_counts_get sm_ok_def)
qed

lemma known_types_grow:
  "set (sm_known_types m) \<subseteq> set (sm_known_types (update_active_devices now m))"
  by (auto simp: update_active_devices_def Let_def fold_insert_set)

lemma active_known:
  assumes "sm_ok m" "0 < active_count now t m"
  shows "t \<in> set (sm_known_types (update_active_devices now m))"
proof -
  obtain d seen where "(d, t, seen) \<in> set (sm_last_seen m)" "now - ACTIVE_WINDOW_SECONDS \<le> seen"
    using assms(2) by (auto simp: active_count_def filter_empty_conv)
  then have "(t, seen) \<in> set (dvalues [(k, ty, seen) \<leftarrow> sm_last_seen m. now - ACTIVE_WINDOW_SECONDS \<le> seen])"
    by force
  then have "t \<in> fst ` set (dvalues [(k, ty, seen) \<leftarrow> sm_last_seen m. now - ACTIVE_WINDOW_SECONDS \<le> seen])"
    by force
  then show ?thesis using assms(1) stale_filter[of "sm_last_seen m"]
    by (simp add: update_active_devices_def Let_def fold_insert_set type_counts_keys sm_ok_def del: set_map)
qed

lemma sm_ok_new: "sm_ok sm_new"
  by (simp add: sm_ok_def sm_new_def)

lemma sm_ok_record: "sm_ok m \<Longrightarrow> sm_ok (record_device now d t m)"
  by (simp add: sm_ok_def record_device_def)

lemma sm_ok_update: "sm_ok m \<Longrightarrow> sm_ok (update_active_devices now m)"
  by (auto simp: sm_ok_def update_active_devices_def Let_def fold_insert_distinct fold_ddel
      intro: distinct_map_filter)

end
