(* ===== verification/Ingestion.thy ===== *)
theory Ingestion imports Telemetry StreamMonitors begin

section \<open>Ingestion pipeline\<close>

text \<open>
  \<open>data_ingestion/services/ingestion_service.py\<close>, the MQTT subscriber with its reconnection, the HTTP
  and CoAP endpoints, and \<open>telemetry_validator.py\<close>. The state holds the stream server, the
  module-level state of the stream monitor and the Prometheus counters.
\<close>

record 's ingest =
  ig_srv :: 's
  ig_monitor :: stream_monitor
  ig_received :: "(string \<times> string, nat) dict"
  ig_published :: nat

definition count_up :: "'k \<Rightarrow> ('k, nat) dict \<Rightarrow> ('k, nat) dict" where
  "count_up k d = dset k (dget_or d k 0 + 1) d"

definition process :: "codec \<Rightarrow> 's stream_server \<Rightarrow> time \<Rightarrow> telemetry_reading \<Rightarrow> string \<Rightarrow> int \<Rightarrow>
    ('s ingest, redis_error, string) action" where
  "process c S now reading protocol stream_max_len g =
     (let g = g\<lparr>ig_received := count_up (tr_device_type reading, protocol) (ig_received g)\<rparr>;
          g = g\<lparr>ig_monitor := record_device now (tr_device_id reading) (tr_device_type reading) (ig_monitor g)\<rparr>;
          stream_data = to_stream_dict c reading
      in case stream_add S RAW_TELEMETRY stream_data (Some stream_max_len) True (ig_srv g) of
           (s, Inl e) \<Rightarrow> raise e (g\<lparr>ig_srv := s\<rparr>)
         | (s, Inr stream_id) \<Rightarrow>
             ret stream_id (g\<lparr>ig_srv := s, ig_published := ig_published g + 1\<rparr>))"

subsection \<open>MQTT messages\<close>

text \<open>\<open>topic.split("/")\<close>\<close>

fun split_on :: "char \<Rightarrow> string \<Rightarrow> string list" where
  "split_on x [] = [[]]"
| "split_on x (y # ys) =
     (if y = x then [] # split_on x ys
      else case split_on x ys of z # zs \<Rightarrow> (y # z) # zs | [] \<Rightarrow> [[y]])"

definition topic_device_id :: "string \<Rightarrow> string option" where
  "topic_device_id topic =
     (let topic_parts = split_on (CHR ''/'') topic
      in if length topic_parts \<ge> 3 then Some (topic_parts ! 1) else None)"

definition known_keys :: "string list" where
  "known_keys = [''device_id'', ''device_type'', ''timestamp'', ''metadata'']"

text \<open>The four defaults, in the order of the code; an empty id in the topic counts as none.\<close>

definition normalise :: "codec \<Rightarrow> time \<Rightarrow> string \<Rightarrow> json_object \<Rightarrow> json_object" where
  "normalise c now topic data =
     (let data = (if \<not> dhas data ''device_id''
                  then case topic_device_id topic of
                         Some (x # xs) \<Rightarrow> dset ''device_id'' (JStr (x # xs)) data
                       | _ \<Rightarrow> data
                  else data);
          data = (if \<not> dhas data ''device_type'' then dset ''device_type'' (JStr ''unknown'') data else data);
          data = (if \<not> dhas data ''timestamp''
                  then dset ''timestamp'' (JStr (cd_isoformat c now)) data else data)
      in if \<not> dhas data ''payload''
         then dset ''payload'' (JObj [(k, v) \<leftarrow> data. k \<notin> set known_keys]) data
         else data)"

record mqtt_message =
  mm_topic :: string
  mm_payload :: "string option"

text \<open>
  The payload is its text, None when the bytes are not UTF-8. A body that is not an object makes one
  of the assignments or the keyword call raise. Every error is caught and logged: the state that the
  failing call left is kept.
\<close>

definition parse_message :: "codec \<Rightarrow> time \<Rightarrow> mqtt_message \<Rightarrow> telemetry_reading option" where
  "parse_message c now m =
     Option.bind (mm_payload m) (\<lambda>raw. Option.bind (cd_loads c raw) (\<lambda>j. Option.bind (json_dict j) (\<lambda>data.
       make_reading c now (normalise c now (mm_topic m) data))))"

definition handle_message :: "codec \<Rightarrow> 's stream_server \<Rightarrow> int \<Rightarrow> time \<Rightarrow> mqtt_message \<Rightarrow> 's ingest \<Rightarrow> 's ingest" where
  "handle_message c S maxlen now m g =
     (case parse_message c now m of
        None \<Rightarrow> g
      | Some reading \<Rightarrow> fst (process c S now reading ''mqtt'' maxlen g))"

subsection \<open>Connection and reconnection\<close>

text \<open>
  What the broker and the rest of the process do during one connection: whether it is established,
  the messages that arrive and the calls of \<open>stop\<close>, and how the connection ends. Sleeps are recorded.
\<close>

datatype mqtt_event = Message time mqtt_message | StopRequest
datatype mqtt_end = EndError | EndCancelled | EndNormal

record mqtt_attempt =
  ma_connects :: bool
  ma_events :: "mqtt_event list"
  ma_end :: mqtt_end

record 's mqtt_subscriber =
  ms_running :: bool
  ms_reconnect_delay :: flt
  ms_ingest :: "'s ingest"
  ms_sleeps :: "flt list"

definition BASE_RECONNECT_DELAY :: flt where "BASE_RECONNECT_DELAY = 1"
definition MAX_RECONNECT_DELAY :: flt where "MAX_RECONNECT_DELAY = 60"
definition BACKOFF_MULTIPLIER :: flt where "BACKOFF_MULTIPLIER = 2"

definition mqtt_new :: "'s ingest \<Rightarrow> 's mqtt_subscriber" where
  "mqtt_new g = \<lparr>ms_running = True, ms_reconnect_delay = BASE_RECONNECT_DELAY, ms_ingest = g, ms_sleeps = []\<rparr>"

definition mqtt_stop :: "'s mqtt_subscriber \<Rightarrow> 's mqtt_subscriber" where
  "mqtt_stop m = m\<lparr>ms_running := False\<rparr>"

text \<open>The message loop of \<open>_connect_and_subscribe\<close>: a message that arrives after \<open>stop\<close> ends it normally.\<close>

fun message_loop :: "codec \<Rightarrow> 's stream_server \<Rightarrow> int \<Rightarrow> mqtt_event list \<Rightarrow> 's mqtt_subscriber \<Rightarrow>
    's mqtt_subscriber \<times> bool" where
  "message_loop c S maxlen [] m = (m, False)"
| "message_loop c S maxlen (StopRequest # es) m = message_loop c S maxlen es (mqtt_stop m)"
| "message_loop c S maxlen (Message now msg # es) m =
     (if \<not> ms_running m then (m, True)
      else message_loop c S maxlen es
        (m\<lparr>ms_ingest := handle_message c S maxlen now msg (ms_ingest m)\<rparr>))"

definition connect_and_subscribe :: "codec \<Rightarrow> 's stream_server \<Rightarrow> int \<Rightarrow> mqtt_attempt \<Rightarrow> 's mqtt_subscriber \<Rightarrow>
    's mqtt_subscriber \<times> mqtt_end" where
  "connect_and_subscribe c S maxlen a m =
     (if \<not> ma_connects a then (m, ma_end a)
      else let m = m\<lparr>ms_reconnect_delay := BASE_RECONNECT_DELAY\<rparr>;
               (m, stopped) = message_loop c S maxlen (ma_events a) m
           in (m, if stopped then EndNormal else ma_end a))"

definition backoff :: "'s mqtt_subscriber \<Rightarrow> 's mqtt_subscriber" where
  "backoff m = m\<lparr>ms_sleeps := ms_sleeps m @ [ms_reconnect_delay m],
     ms_reconnect_delay := min (ms_reconnect_delay m * BACKOFF_MULTIPLIER) MAX_RECONNECT_DELAY\<rparr>"

text \<open>The main loop over the connections of an execution.\<close>

fun mqtt_run :: "codec \<Rightarrow> 's stream_server \<Rightarrow> int \<Rightarrow> mqtt_attempt list \<Rightarrow> 's mqtt_subscriber \<Rightarrow> 's mqtt_subscriber" where
  "mqtt_run c S maxlen [] m = m"
| "mqtt_run c S maxlen (a # as) m =
     (if \<not> ms_running m then m
      else case connect_and_subscribe c S maxlen a m of
        (m, EndError) \<Rightarrow> if \<not> ms_running m then m else mqtt_run c S maxlen as (backoff m)
      | (m, EndCancelled) \<Rightarrow> m
      | (m, EndNormal) \<Rightarrow> mqtt_run c S maxlen as m)"

subsection \<open>HTTP and CoAP endpoints\<close>

record ingest_response =
  ir_status :: string
  ir_stream_id :: string
  ir_device_id :: string

text \<open>The framework parses the body into a reading, or answers 422.\<close>

definition ingest_telemetry :: "codec \<Rightarrow> 's stream_server \<Rightarrow> int \<Rightarrow> time \<Rightarrow> json_object \<Rightarrow>
    ('s ingest, http_error, ingest_response) action" where
  "ingest_telemetry c S maxlen now body g =
     (case make_reading c now body of
        None \<Rightarrow> raise (HTTPError 422) g
      | Some reading \<Rightarrow>
          (case process c S now reading ''http'' maxlen g of
             (g, Inl e) \<Rightarrow> raise (HTTPError 500) g
           | (g, Inr stream_id) \<Rightarrow>
               ret \<lparr>ir_status = ''accepted'', ir_stream_id = stream_id, ir_device_id = tr_device_id reading\<rparr> g))"

definition telemetry_stats :: "'s stream_server \<Rightarrow> ('s ingest, http_error, string \<times> nat) action" where
  "telemetry_stats S g =
     (case stream_len S RAW_TELEMETRY (ig_srv g) of
        (s, Inl e) \<Rightarrow> raise (HTTPError 500) (g\<lparr>ig_srv := s\<rparr>)
      | (s, Inr n) \<Rightarrow> ret (RAW_TELEMETRY, n) (g\<lparr>ig_srv := s\<rparr>))"

definition CONTENT_FORMAT_JSON :: nat where "CONTENT_FORMAT_JSON = 50"
definition CONTENT_FORMAT_CBOR :: nat where "CONTENT_FORMAT_CBOR = 60"

datatype coap_code = CREATED | BAD_REQUEST

text \<open>The two codecs of the request are arguments; CBOR values outside JSON are not modelled.\<close>

definition coap_decode :: "(string \<Rightarrow> json option) \<Rightarrow> codec \<Rightarrow> nat option \<Rightarrow> string \<Rightarrow> json option" where
  "coap_decode cbor c content_format payload =
     (if content_format = Some CONTENT_FORMAT_CBOR then cbor payload else cd_loads c payload)"

definition render_post :: "(string \<Rightarrow> json option) \<Rightarrow> codec \<Rightarrow> 's stream_server \<Rightarrow> int \<Rightarrow> time \<Rightarrow>
    nat option \<Rightarrow> string \<Rightarrow> 's ingest \<Rightarrow> 's ingest \<times> coap_code" where
  "render_post cbor c S maxlen now content_format payload g =
     (if payload = [] then (g, BAD_REQUEST)
      else case Option.bind (Option.bind (coap_decode cbor c content_format payload) json_dict)
                  (make_reading c now) of
        None \<Rightarrow> (g, BAD_REQUEST)
      | Some reading \<Rightarrow>
          (case process c S now reading ''coap'' maxlen g of
             (g, Inl e) \<Rightarrow> (g, BAD_REQUEST)
           | (g, Inr _) \<Rightarrow> (g, CREATED)))"

definition render_put :: "(string \<Rightarrow> json option) \<Rightarrow> codec \<Rightarrow> 's stream_server \<Rightarrow> int \<Rightarrow> time \<Rightarrow>
    nat option \<Rightarrow> string \<Rightarrow> 's ingest \<Rightarrow> 's ingest \<times> coap_code" where
  "render_put cbor c S maxlen now content_format payload g =
     render_post cbor c S maxlen now content_format payload g"

subsection \<open>The validator\<close>

datatype validation_error = TooFarInFuture | TooOld | EmptyPayload | InvalidDeviceId

definition validate_telemetry :: "codec \<Rightarrow> time \<Rightarrow> telemetry_reading \<Rightarrow> validation_error + telemetry_reading" where
  "validate_telemetry c now reading =
     (if tr_timestamp reading > now + 5 * 60 then Inl TooFarInFuture
      else if tr_timestamp reading < now - 24 * 60 * 60 then Inl TooOld
      else if tr_payload reading = [] then Inl EmptyPayload
      else if cd_uuid c (JStr (tr_device_id reading)) = None then Inl InvalidDeviceId
      else Inr reading)"

subsection \<open>Normalisation\<close>

lemma normalise_eq:
  "dget (normalise c now topic d) k =
     (if dhas d k then dget d k
      else if k = ''device_id'' then
        (case topic_device_id topic of Some (x # xs) \<Rightarrow> Some (JStr (x # xs)) | _ \<Rightarrow> None)
      else if k = ''device_type'' then Some (JStr ''unknown'')
      else if k = ''timestamp'' then Some (JStr (cd_isoformat c now))
      else if k = ''payload'' then Some (JObj [(k, v) \<leftarrow> d. k \<notin> set known_keys])
      else None)"
proof -
  have f: "[(k, v) \<leftarrow> dset a x e. k \<notin> set known_keys] = [(k, v) \<leftarrow> e. k \<notin> set known_keys]"
    if "a \<in> set known_keys" for a x and e :: json_object
    using that by (induction e) auto
  have k: "''device_id'' \<in> set known_keys" "''device_type'' \<in> set known_keys" "''timestamp'' \<in> set known_keys"
    by (simp_all add: known_keys_def)
  define d1 where "d1 = (if \<not> dhas d ''device_id''
                  then case topic_device_id topic of
                         Some (x # xs) \<Rightarrow> dset ''device_id'' (JStr (x # xs)) d
                       | _ \<Rightarrow> d
                  else d)"
  define d2 where "d2 = (if \<not> dhas d1 ''device_type'' then dset ''device_type'' (JStr ''unknown'') d1 else d1)"
  define d3 where "d3 = (if \<not> dhas d2 ''timestamp''
                  then dset ''timestamp'' (JStr (cd_isoformat c now)) d2 else d2)"
  have n: "normalise c now topic d = (if \<not> dhas d3 ''payload''
         then dset ''payload'' (JObj [(k, v) \<leftarrow> d3. k \<notin> set known_keys]) d3 else d3)"
    unfolding normalise_def Let_def d1_def[symmetric] d2_def[symmetric] d3_def[symmetric] ..
  have 1: "dget d1 k = (if k = ''device_id'' \<and> dget d k = None then
        (case topic_device_id topic of Some (x # xs) \<Rightarrow> Some (JStr (x # xs)) | _ \<Rightarrow> None) else dget d k)" for k
    unfolding d1_def dhas_def by (cases "k = ''device_id''") (simp_all split: option.split list.split)
  have 2: "dget d2 k = (if k = ''device_type'' \<and> dget d1 k = None then Some (JStr ''unknown'') else dget d1 k)" for k
    unfolding d2_def dhas_def by (cases "k = ''device_type''") simp_all
  have 3: "dget d3 k = (if k = ''timestamp'' \<and> dget d2 k = None then Some (JStr (cd_isoformat c now)) else dget d2 k)" for k
    unfolding d3_def dhas_def by (cases "k = ''timestamp''") simp_all
  have "[(k, v) \<leftarrow> d1. k \<notin> set known_keys] = [(k, v) \<leftarrow> d. k \<notin> set known_keys]"
    unfolding d1_def using f[OF k(1)] by (simp split: option.split list.split)
  then have "[(k, v) \<leftarrow> d2. k \<notin> set known_keys] = [(k, v) \<leftarrow> d. k \<notin> set known_keys]"
    unfolding d2_def using f[OF k(2)] by simp
  then have 4: "[(k, v) \<leftarrow> d3. k \<notin> set known_keys] = [(k, v) \<leftarrow> d. k \<notin> set known_keys]"
    unfolding d3_def using f[OF k(3)] by simp
  have 5: "dget (normalise c now topic d) k = (if k = ''payload'' \<and> dget d3 k = None
      then Some (JObj [(k, v) \<leftarrow> d. k \<notin> set known_keys]) else dget d3 k)" for k
    unfolding n 4 dhas_def by (cases "k = ''payload''") simp_all
  consider "k = ''device_id''" | "k = ''device_type''" | "k = ''timestamp''" | "k = ''payload''"
    | "k \<noteq> ''device_id''" "k \<noteq> ''device_type''" "k \<noteq> ''timestamp''" "k \<noteq> ''payload''" by blast
  then show ?thesis
    by cases (simp_all add: 1 2 3 5 dhas_def split: option.split)
qed

lemma parse_message_fields:
  assumes "parse_message c now m = Some r"
  obtains raw d where "mm_payload m = Some raw" "cd_loads c raw = Some (JObj d)"
    "make_reading c now (normalise c now (mm_topic m) d) = Some r"
  using assms by (auto simp: parse_message_def bind_eq_Some_conv json_dict_Some)

subsection \<open>Publishing\<close>

lemma process_received:
  "ig_received (fst (process c S now r p ml g)) = count_up (tr_device_type r, p) (ig_received g)"
  by (simp add: process_def Let_def split: prod.splits sum.splits)

lemma process_seen:
  "ig_monitor (fst (process c S now r p ml g)) =
   record_device now (tr_device_id r) (tr_device_type r) (ig_monitor g)"
  by (simp add: process_def Let_def split: prod.splits sum.splits)

lemma process_result:
  "process c S now r p ml g = (g', Inr i) \<Longrightarrow>
   stream_add S RAW_TELEMETRY (to_stream_dict c r) (Some ml) True (ig_srv g) = (ig_srv g', Inr i) \<and>
   ig_published g' = ig_published g + 1"
  by (auto simp: process_def Let_def split: prod.splits sum.splits)

lemma process_error:
  "process c S now r p ml g = (g', Inl e) \<Longrightarrow>
   stream_add S RAW_TELEMETRY (to_stream_dict c r) (Some ml) True (ig_srv g) = (ig_srv g', Inl e) \<and>
   ig_published g' = ig_published g"
  by (auto simp: process_def Let_def split: prod.splits sum.splits)

lemma ingest_telemetry_accepted:
  "ingest_telemetry c S ml now body g = (g', Inr resp) \<Longrightarrow>
   \<exists>r. make_reading c now body = Some r \<and> process c S now r ''http'' ml g = (g', Inr (ir_stream_id resp))
     \<and> ir_device_id resp = tr_device_id r"
  by (auto simp: ingest_telemetry_def split: option.splits prod.splits sum.splits)

subsection \<open>Backoff\<close>

definition delay_ok :: "'s mqtt_subscriber \<Rightarrow> bool" where
  "delay_ok m \<longleftrightarrow> BASE_RECONNECT_DELAY \<le> ms_reconnect_delay m \<and> ms_reconnect_delay m \<le> MAX_RECONNECT_DELAY
     \<and> (\<forall>d \<in> set (ms_sleeps m). BASE_RECONNECT_DELAY \<le> d \<and> d \<le> MAX_RECONNECT_DELAY)"

lemmas delays = BASE_RECONNECT_DELAY_def MAX_RECONNECT_DELAY_def BACKOFF_MULTIPLIER_def

lemma message_loop_delay:
  "message_loop c S ml es m = (m', b) \<Longrightarrow>
   ms_reconnect_delay m' = ms_reconnect_delay m \<and> ms_sleeps m' = ms_sleeps m"
  by (induction c S ml es m arbitrary: m' b rule: message_loop.induct)
    (auto simp: mqtt_stop_def split: if_splits)

lemma connect_delay:
  "connect_and_subscribe c S ml a m = (m', r) \<Longrightarrow>
   ms_sleeps m' = ms_sleeps m \<and>
   ms_reconnect_delay m' = (if ma_connects a then BASE_RECONNECT_DELAY else ms_reconnect_delay m)"
  by (auto simp: connect_and_subscribe_def Let_def split: if_splits prod.splits dest: message_loop_delay)

lemma delay_ok_connect:
  assumes "delay_ok m" "connect_and_subscribe c S ml a m = (m', r)" shows "delay_ok m'"
  using connect_delay[OF assms(2)] assms(1) by (auto simp: delay_ok_def delays)

lemma delay_ok_backoff: "delay_ok m \<Longrightarrow> delay_ok (backoff m)"
  by (auto simp: delay_ok_def backoff_def delays)

lemma delay_ok_run: "delay_ok m \<Longrightarrow> delay_ok (mqtt_run c S ml as m)"
proof (induction as arbitrary: m)
  case (Cons a as)
  obtain m' r where r: "connect_and_subscribe c S ml a m = (m', r)" by fastforce
  have ok: "delay_ok m'" using delay_ok_connect[OF Cons.prems r] .
  show ?case
    by (cases r) (auto simp: r Cons.prems ok Cons.IH delay_ok_backoff)
qed simp

lemma delay_ok_new: "delay_ok (mqtt_new g)"
  by (simp add: delay_ok_def mqtt_new_def delays)

definition failed_attempt :: "mqtt_attempt \<Rightarrow> bool" where
  "failed_attempt a \<longleftrightarrow> \<not> ma_connects a \<and> ma_end a = EndError"

lemma min_double: "min (min (2 ^ n) 60 * 2) 60 = (min (2 ^ Suc n) 60 :: flt)"
  by (simp add: min_def)

text \<open>Failing to connect over and over sleeps 1, 2, 4, ... seconds, at most 60.\<close>

lemma failed_sleeps:
  assumes "list_all failed_attempt as" "ms_running m" "ms_reconnect_delay m = min (2 ^ n) 60"
  shows "ms_sleeps (mqtt_run c S ml as m) = ms_sleeps m @ map (\<lambda>i. min (2 ^ i) 60) [n..<n + length as]"
  using assms
proof (induction as arbitrary: m n)
  case (Cons a as)
  have a: "connect_and_subscribe c S ml a m = (m, EndError)"
    using Cons.prems by (simp add: connect_and_subscribe_def failed_attempt_def)
  have "ms_reconnect_delay (backoff m) = min (2 ^ Suc n) 60"
    using Cons.prems min_double[of n] by (simp add: backoff_def delays)
  from Cons.IH[OF _ _ this] have "ms_sleeps (mqtt_run c S ml as (backoff m)) =
      ms_sleeps (backoff m) @ map (\<lambda>i. min (2 ^ i) 60) [Suc n..<Suc n + length as]"
    using Cons.prems by (simp add: backoff_def)
  then show ?case using Cons.prems a by (simp add: backoff_def upt_conv_Cons del: upt_Suc)
qed simp

text \<open>After \<open>stop\<close>, no message is handled.\<close>

lemma stopped_loop: "\<not> ms_running m \<Longrightarrow> ms_ingest (fst (message_loop c S ml es m)) = ms_ingest m"
proof (induction es arbitrary: m)
  case (Cons e es)
  then show ?case by (cases e) (auto simp: mqtt_stop_def)
qed simp

end
