(* ===== verification/Persistence.thy ===== *)
theory Persistence imports Telemetry begin

section \<open>Persistence worker\<close>

text \<open>
  \<open>data_persistence/services/batch_writer.py\<close>, \<open>db/models.py\<close> and the worker loop of
  \<open>workers/stream_to_postgres.py\<close>. PostgreSQL and SQLAlchemy are the record \<open>database\<close>, an argument:
  \<open>execute\<close>, \<open>commit\<close> and the end of the session over an arbitrary state. The transaction the code
  relies on is the locale \<open>transactions\<close>; \<open>ref_db\<close> satisfies it.
\<close>

record telemetry_record =
  tc_id :: uuid
  tc_device_id :: uuid
  tc_device_type :: string
  tc_timestamp :: time
  tc_payload :: json_object
  tc_metadata :: json_object

datatype db_error = DBError

record 'd database =
  db_execute :: "telemetry_record list \<Rightarrow> ('d, db_error, unit) action"
  db_commit :: "('d, db_error, unit) action"
  db_close :: "'d \<Rightarrow> 'd"

locale transactions =
  fixes D :: "'d database" and rows :: "'d \<Rightarrow> telemetry_record list"
    and open_rows :: "'d \<Rightarrow> telemetry_record list" and idle :: "'d \<Rightarrow> bool"
  assumes idle_open: "idle d \<Longrightarrow> open_rows d = []"
    and execute: "db_execute D rs d = (d', r) \<Longrightarrow>
      rows d' = rows d \<and> (r = Inr () \<longrightarrow> open_rows d' = open_rows d @ rs)"
    and commit_ok: "db_commit D d = (d', Inr ()) \<Longrightarrow> rows d' = rows d @ open_rows d"
    and commit_fails: "db_commit D d = (d', Inl e) \<Longrightarrow> rows d' = rows d"
    and close: "rows (db_close D d) = rows d \<and> idle (db_close D d)"

subsection \<open>Batch writer\<close>

text \<open>The buffered dicts hold the fields of a record; \<open>metadata_\<close> is written to the column \<open>metadata\<close>.\<close>

definition accumulate :: "telemetry_record \<Rightarrow> telemetry_record list \<Rightarrow> telemetry_record list" where
  "accumulate r buffer = buffer @ [r]"

definition flush :: "'d database \<Rightarrow> ('d \<times> telemetry_record list, db_error, nat) action" where
  "flush D = (\<lambda>(d, buffer).
     if buffer = [] then ret 0 (d, buffer)
     else case db_execute D buffer d of
       (d, Inl e) \<Rightarrow> raise e (d, buffer)
     | (d, Inr _) \<Rightarrow>
         (case db_commit D d of
            (d, Inl e) \<Rightarrow> raise e (d, buffer)
          | (d, Inr _) \<Rightarrow> ret (length buffer) (d, [])))"

text \<open>\<open>async with session_factory() as session\<close>: the session is closed however the body ends.\<close>

definition flush_in_session :: "'d database \<Rightarrow> ('d \<times> telemetry_record list, db_error, nat) action" where
  "flush_in_session D st = (case flush D st of ((d, buffer), r) \<Rightarrow> ((db_close D d, buffer), r))"

subsection \<open>Worker\<close>

text \<open>
  The worker's variables, the server and database it talks to, the number of ids \<open>uuid4\<close> has given
  out, and the log of what it has done, which only the statements below read.
\<close>

datatype worker_event = Buffered string telemetry_record | Dropped string | Committed "telemetry_record list"
  | Acked "string list" | Paused

record ('s, 'd) worker =
  wk_srv :: 's
  wk_db :: 'd
  wk_buffer :: "telemetry_record list"
  wk_pending_ids :: "string list"
  wk_last_flush :: time
  wk_uuids :: nat
  wk_consumed :: nat
  wk_log :: "worker_event list"

record worker_settings =
  ws_batch_size :: nat
  ws_flush_interval :: time
  ws_consumer_name :: string

definition wk_emit :: "worker_event \<Rightarrow> ('s, 'd) worker \<Rightarrow> ('s, 'd) worker" where
  "wk_emit e w = w\<lparr>wk_log := wk_log w @ [e]\<rparr>"

definition telemetry_to_record :: "uuid \<Rightarrow> telemetry_reading \<Rightarrow> telemetry_record" where
  "telemetry_to_record u reading =
     \<lparr>tc_id = u, tc_device_id = tr_device_id reading, tc_device_type = tr_device_type reading,
      tc_timestamp = tr_timestamp reading, tc_payload = tr_payload reading,
      tc_metadata = tr_metadata reading\<rparr>"

text \<open>
  The loop over the entries. A malformed one is acknowledged at once; when that raises, the exception
  leaves the loop.
\<close>

fun process_entries :: "codec \<Rightarrow> (nat \<Rightarrow> uuid) \<Rightarrow> 's stream_server \<Rightarrow> stream_entry list \<Rightarrow>
    (('s, 'd) worker, redis_error, unit) action" where
  "process_entries c uuid4 S [] w = ret () w"
| "process_entries c uuid4 S ((entry_id, data) # es) w =
     (case from_stream_dict c data of
        Some reading \<Rightarrow>
          let r = telemetry_to_record (uuid4 (wk_uuids w)) reading;
              w = w\<lparr>wk_uuids := wk_uuids w + 1, wk_buffer := accumulate r (wk_buffer w),
                    wk_pending_ids := wk_pending_ids w @ [entry_id], wk_consumed := wk_consumed w + 1\<rparr>
          in process_entries c uuid4 S es (wk_emit (Buffered entry_id r) w)
      | None \<Rightarrow>
          (case stream_ack S RAW_TELEMETRY DATA_PERSISTENCE [entry_id] (wk_srv w) of
             (s, Inl e) \<Rightarrow> raise e (w\<lparr>wk_srv := s\<rparr>)
           | (s, Inr _) \<Rightarrow> process_entries c uuid4 S es (wk_emit (Dropped entry_id) (w\<lparr>wk_srv := s\<rparr>))))"

text \<open>The acknowledgement of everything written; the ids stay when it raises.\<close>

definition ack_pending :: "'s stream_server \<Rightarrow> (('s, 'd) worker, redis_error, unit) action" where
  "ack_pending S w =
     (if wk_pending_ids w = [] then ret () w
      else case stream_ack S RAW_TELEMETRY DATA_PERSISTENCE (wk_pending_ids w) (wk_srv w) of
        (s, Inl e) \<Rightarrow> raise e (w\<lparr>wk_srv := s\<rparr>)
      | (s, Inr _) \<Rightarrow> ret () (wk_emit (Acked (wk_pending_ids w)) (w\<lparr>wk_srv := s, wk_pending_ids := []\<rparr>)))"

text \<open>The body of the inner \<open>try\<close>, whose errors are logged; the clock is read after the acknowledgement.\<close>

definition flush_and_ack :: "'s stream_server \<Rightarrow> 'd database \<Rightarrow> time \<Rightarrow> ('s, 'd) worker \<Rightarrow> ('s, 'd) worker" where
  "flush_and_ack S D after w =
     (case flush_in_session D (wk_db w, wk_buffer w) of
        ((d, buffer), Inl e) \<Rightarrow> w\<lparr>wk_db := d, wk_buffer := buffer\<rparr>
      | ((d, buffer), Inr count) \<Rightarrow>
          (case ack_pending S (wk_emit (Committed (wk_buffer w)) (w\<lparr>wk_db := d, wk_buffer := buffer\<rparr>)) of
             (w, Inl e) \<Rightarrow> w
           | (w, Inr _) \<Rightarrow> w\<lparr>wk_last_flush := after\<rparr>))"

text \<open>
  One iteration of the loop. The environment gives the two readings of the clock. An error outside the
  inner \<open>try\<close> is logged, followed by a pause.
\<close>

record cycle_env =
  ce_cancelled :: bool
  ce_now :: time
  ce_after :: time

definition should_flush :: "worker_settings \<Rightarrow> time \<Rightarrow> ('s, 'd) worker \<Rightarrow> bool" where
  "should_flush cfg now w \<longleftrightarrow>
     length (wk_buffer w) \<ge> ws_batch_size cfg \<or>
     (length (wk_buffer w) > 0 \<and> now - wk_last_flush w \<ge> ws_flush_interval cfg)"

definition worker_cycle :: "codec \<Rightarrow> (nat \<Rightarrow> uuid) \<Rightarrow> 's stream_server \<Rightarrow> 'd database \<Rightarrow> worker_settings \<Rightarrow>
    cycle_env \<Rightarrow> ('s, 'd) worker \<Rightarrow> ('s, 'd) worker" where
  "worker_cycle c uuid4 S D cfg env w =
     (case stream_read_group S RAW_TELEMETRY DATA_PERSISTENCE (ws_consumer_name cfg)
             (ws_batch_size cfg) (wk_srv w) of
        (s, Inl e) \<Rightarrow> wk_emit Paused (w\<lparr>wk_srv := s\<rparr>)
      | (s, Inr es) \<Rightarrow>
          (case process_entries c uuid4 S es (w\<lparr>wk_srv := s\<rparr>) of
             (w, Inl e) \<Rightarrow> wk_emit Paused w
           | (w, Inr _) \<Rightarrow>
               if should_flush cfg (ce_now env) w then flush_and_ack S D (ce_after env) w else w))"

text \<open>The loop runs while the shutdown event is not set, one environment per iteration; cancelling ends it.\<close>

fun worker_loop :: "codec \<Rightarrow> (nat \<Rightarrow> uuid) \<Rightarrow> 's stream_server \<Rightarrow> 'd database \<Rightarrow> worker_settings \<Rightarrow>
    cycle_env list \<Rightarrow> ('s, 'd) worker \<Rightarrow> ('s, 'd) worker" where
  "worker_loop c uuid4 S D cfg [] w = w"
| "worker_loop c uuid4 S D cfg (env # envs) w =
     (if ce_cancelled env then w
      else worker_loop c uuid4 S D cfg envs (worker_cycle c uuid4 S D cfg env w))"

definition shutdown_flush :: "'s stream_server \<Rightarrow> 'd database \<Rightarrow> ('s, 'd) worker \<Rightarrow> ('s, 'd) worker" where
  "shutdown_flush S D w =
     (if length (wk_buffer w) > 0
      then case flush_in_session D (wk_db w, wk_buffer w) of
        ((d, buffer), Inl e) \<Rightarrow> w\<lparr>wk_db := d, wk_buffer := buffer\<rparr>
      | ((d, buffer), Inr count) \<Rightarrow>
          fst (ack_pending S (wk_emit (Committed (wk_buffer w)) (w\<lparr>wk_db := d, wk_buffer := buffer\<rparr>)))
      else w)"

definition worker_new :: "'s \<Rightarrow> 'd \<Rightarrow> time \<Rightarrow> ('s, 'd) worker" where
  "worker_new s d now = \<lparr>wk_srv = s, wk_db = d, wk_buffer = [], wk_pending_ids = [], wk_last_flush = now,
     wk_uuids = 0, wk_consumed = 0, wk_log = []\<rparr>"

definition stream_to_postgres :: "codec \<Rightarrow> (nat \<Rightarrow> uuid) \<Rightarrow> 's stream_server \<Rightarrow> 'd database \<Rightarrow>
    worker_settings \<Rightarrow> time \<Rightarrow> cycle_env list \<Rightarrow> 's \<Rightarrow> 'd \<Rightarrow> ('s, 'd) worker" where
  "stream_to_postgres c uuid4 S D cfg now envs s d =
     shutdown_flush S D (worker_loop c uuid4 S D cfg envs (worker_new s d now))"

subsection \<open>A reference database\<close>

text \<open>Committed rows, rows of the open transaction, and the rows that the schema refuses.\<close>

record ref_state =
  rd_rows :: "telemetry_record list"
  rd_open :: "telemetry_record list"

definition ref_db :: "(telemetry_record \<Rightarrow> bool) \<Rightarrow> ref_state database" where
  "ref_db accepts =
     \<lparr>db_execute = (\<lambda>rs d. if list_all accepts rs then ret () (d\<lparr>rd_open := rd_open d @ rs\<rparr>)
                            else raise DBError d),
      db_commit = (\<lambda>d. ret () (d\<lparr>rd_rows := rd_rows d @ rd_open d, rd_open := []\<rparr>)),
      db_close = (\<lambda>d. d\<lparr>rd_open := []\<rparr>)\<rparr>"

interpretation ref_db: transactions "ref_db accepts" rd_rows rd_open "\<lambda>d. rd_open d = []" for accepts
  by unfold_locales (auto simp: ref_db_def split: if_splits)

text \<open>\<open>String(50)\<close>, the length the schema gives \<open>device_type\<close>.\<close>

definition schema_accepts :: "telemetry_record \<Rightarrow> bool" where
  "schema_accepts r \<longleftrightarrow> length (tc_device_type r) \<le> 50"

subsection \<open>What the log says\<close>

definition buffered :: "worker_event list \<Rightarrow> (string \<times> telemetry_record) list" where
  "buffered es = concat (map (\<lambda>e. case e of Buffered i r \<Rightarrow> [(i, r)] | _ \<Rightarrow> []) es)"

definition dropped :: "worker_event list \<Rightarrow> string list" where
  "dropped es = concat (map (\<lambda>e. case e of Dropped i \<Rightarrow> [i] | _ \<Rightarrow> []) es)"

definition acked :: "worker_event list \<Rightarrow> string list" where
  "acked es = concat (map (\<lambda>e. case e of Acked is \<Rightarrow> is | _ \<Rightarrow> []) es)"

definition handled :: "worker_event list \<Rightarrow> string list" where
  "handled es = concat (map (\<lambda>e. case e of Buffered i r \<Rightarrow> [i] | Dropped i \<Rightarrow> [i] | _ \<Rightarrow> []) es)"

lemma log_Nil [simp]: "buffered [] = []" "dropped [] = []" "acked [] = []" "handled [] = []"
  by (simp_all add: buffered_def dropped_def acked_def handled_def)

lemma log_append [simp]:
  "buffered (es @ [e]) = buffered es @ (case e of Buffered i r \<Rightarrow> [(i, r)] | _ \<Rightarrow> [])"
  "dropped (es @ [e]) = dropped es @ (case e of Dropped i \<Rightarrow> [i] | _ \<Rightarrow> [])"
  "acked (es @ [e]) = acked es @ (case e of Acked is \<Rightarrow> is | _ \<Rightarrow> [])"
  "handled (es @ [e]) = handled es @ (case e of Buffered i r \<Rightarrow> [i] | Dropped i \<Rightarrow> [i] | _ \<Rightarrow> [])"
  by (simp_all add: buffered_def dropped_def acked_def handled_def)

lemma handled_split: "set (handled es) = set (map fst (buffered es)) \<union> set (dropped es)"
  by (induction es rule: rev_induct) (auto split: worker_event.splits)

lemma handled_distinct: "distinct (handled es) \<Longrightarrow> distinct (map fst (buffered es)) \<and>
   set (map fst (buffered es)) \<inter> set (dropped es) = {}"
proof (induction es rule: rev_induct)
  case (snoc e es)
  then show ?case using handled_split[of es] by (cases e) auto
qed simp

text \<open>
  The worker's invariant: the records buffered so far are those written to the table since the start,
  followed by the buffer; the ids buffered so far are those acknowledged, followed by the pending ones;
  and no id of the buffer has been acknowledged.
\<close>

definition worker_inv :: "('d \<Rightarrow> telemetry_record list) \<Rightarrow> telemetry_record list \<Rightarrow> ('s, 'd) worker \<Rightarrow> bool" where
  "worker_inv rows base w \<longleftrightarrow>
     (\<exists>written. rows (wk_db w) = base @ written \<and> map snd (buffered (wk_log w)) = written @ wk_buffer w) \<and>
     map fst (buffered (wk_log w)) = acked (wk_log w) @ wk_pending_ids w \<and>
     length (wk_buffer w) \<le> length (wk_pending_ids w)"

lemma wk_emit_simps [simp]:
  "wk_srv (wk_emit e w) = wk_srv w" "wk_db (wk_emit e w) = wk_db w" "wk_buffer (wk_emit e w) = wk_buffer w"
  "wk_pending_ids (wk_emit e w) = wk_pending_ids w" "wk_log (wk_emit e w) = wk_log w @ [e]"
  by (simp_all add: wk_emit_def)

lemma inv_paused: "worker_inv rows base w \<Longrightarrow> worker_inv rows base (wk_emit Paused w)"
  by (simp add: worker_inv_def)

lemma inv_srv [simp]: "worker_inv rows base (w\<lparr>wk_srv := s\<rparr>) = worker_inv rows base w"
  by (simp add: worker_inv_def)

lemma inv_last [simp]: "worker_inv rows base (w\<lparr>wk_last_flush := t\<rparr>) = worker_inv rows base w"
  by (simp add: worker_inv_def)

lemma inv_entries:
  "worker_inv rows base w \<Longrightarrow> process_entries c u S es w = (w', r) \<Longrightarrow>
   worker_inv rows base w' \<and> wk_db w' = wk_db w"
proof (induction es arbitrary: w)
  case (Cons e es)
  obtain i data where e: "e = (i, data)" by (cases e)
  show ?case
  proof (cases "from_stream_dict c data")
    case None
    obtain s q where q: "stream_ack S RAW_TELEMETRY DATA_PERSISTENCE [i] (wk_srv w) = (s, q)" by fastforce
    have i: "worker_inv rows base (wk_emit (Dropped i) (w\<lparr>wk_srv := s\<rparr>))"
      using Cons.prems(1) by (simp add: worker_inv_def)
    show ?thesis using Cons.prems None q e Cons.IH[OF i] by (cases q) auto
  next
    case (Some reading)
    let ?r = "telemetry_to_record (u (wk_uuids w)) reading"
    let ?w = "wk_emit (Buffered i ?r) (w\<lparr>wk_uuids := wk_uuids w + 1, wk_buffer := accumulate ?r (wk_buffer w),
                    wk_pending_ids := wk_pending_ids w @ [i], wk_consumed := wk_consumed w + 1\<rparr>)"
    have i: "worker_inv rows base ?w"
      using Cons.prems(1) by (auto simp: worker_inv_def accumulate_def)
    show ?thesis using Cons.prems Some e Cons.IH[OF i] by (simp add: Let_def)
  qed
qed simp

lemma inv_ack:
  assumes "worker_inv rows base w" "wk_buffer w = []" "ack_pending S w = (w', r)"
  shows "worker_inv rows base w'"
  using assms by (auto simp: ack_pending_def worker_inv_def split: if_splits prod.splits sum.splits)

subsection \<open>The database and the worker\<close>

context transactions begin

lemma flush_cases:
  assumes "idle d" "flush_in_session D (d, b) = ((d', b'), r)"
  shows "idle d' \<and> ((\<exists>e. r = Inl e) \<and> rows d' = rows d \<and> b' = b
    \<or> r = Inr (length b) \<and> rows d' = rows d @ b \<and> b' = [])"
proof (cases "b = []")
  case True
  then show ?thesis using assms close by (auto simp: flush_in_session_def flush_def)
next
  case False
  obtain d1 q where q: "db_execute D b d = (d1, q)" by fastforce
  obtain d2 p where p: "db_commit D d1 = (d2, p)" by fastforce
  have "rows d1 = rows d" using execute[OF q] by simp
  moreover have "q = Inr () \<Longrightarrow> open_rows d1 = b"
    using execute[OF q] idle_open[OF assms(1)] by simp
  ultimately show ?thesis using assms False q p close commit_ok[of d1 d2] commit_fails[of d1 d2]
    by (cases q; cases p) (auto simp: flush_in_session_def flush_def)
qed

definition ok :: "telemetry_record list \<Rightarrow> ('s, 'd) worker \<Rightarrow> bool" where
  "ok base w \<longleftrightarrow> worker_inv rows base w \<and> idle (wk_db w)"

lemma ok_flushed:
  assumes "ok base w" "flush_in_session D (wk_db w, wk_buffer w) = ((d, b), r)"
  shows "case r of Inl _ \<Rightarrow> ok base (w\<lparr>wk_db := d, wk_buffer := b\<rparr>)
    | Inr _ \<Rightarrow> b = [] \<and> ok base (wk_emit (Committed (wk_buffer w)) (w\<lparr>wk_db := d, wk_buffer := b\<rparr>))"
  using flush_cases[OF _ assms(2)] assms(1) by (auto simp: ok_def worker_inv_def split: sum.splits)

lemma ack_pending_db: "ack_pending S w = (w', r) \<Longrightarrow> wk_db w' = wk_db w"
  by (auto simp: ack_pending_def split: if_splits prod.splits sum.splits)

lemma ok_flush_and_ack:
  assumes "ok base w" shows "ok base (flush_and_ack S D t w)"
proof -
  obtain d b r where r: "flush_in_session D (wk_db w, wk_buffer w) = ((d, b), r)" by (metis prod.exhaust)
  let ?w = "wk_emit (Committed (wk_buffer w)) (w\<lparr>wk_db := d, wk_buffer := b\<rparr>)"
  obtain w' q where q: "ack_pending S ?w = (w', q)" by fastforce
  note f = ok_flushed[OF assms r]
  show ?thesis
  proof (cases r)
    case (Inl e)
    then show ?thesis using f r by (simp add: flush_and_ack_def)
  next
    case (Inr n)
    then have "ok base w'" using f inv_ack[OF _ _ q] ack_pending_db[OF q] by (auto simp: ok_def)
    then show ?thesis using Inr r q by (cases q) (simp_all add: flush_and_ack_def ok_def)
  qed
qed

lemma ok_shutdown:
  assumes "ok base w" shows "ok base (shutdown_flush S D w)"
proof -
  obtain d b r where r: "flush_in_session D (wk_db w, wk_buffer w) = ((d, b), r)" by (metis prod.exhaust)
  let ?w = "wk_emit (Committed (wk_buffer w)) (w\<lparr>wk_db := d, wk_buffer := b\<rparr>)"
  obtain w' q where q: "ack_pending S ?w = (w', q)" by fastforce
  note f = ok_flushed[OF assms r]
  show ?thesis
  proof (cases r)
    case (Inl e)
    then show ?thesis using f r assms by (simp add: shutdown_flush_def)
  next
    case (Inr n)
    then have "ok base w'" using f inv_ack[OF _ _ q] ack_pending_db[OF q] by (auto simp: ok_def)
    then show ?thesis using Inr r q assms by (simp add: shutdown_flush_def)
  qed
qed

lemma ok_cycle:
  assumes "ok base w" shows "ok base (worker_cycle c u S D cfg env w)"
proof -
  obtain s q where q: "stream_read_group S RAW_TELEMETRY DATA_PERSISTENCE (ws_consumer_name cfg)
      (ws_batch_size cfg) (wk_srv w) = (s, q)" by fastforce
  have i: "worker_inv rows base (w\<lparr>wk_srv := s\<rparr>)" using assms by (simp add: ok_def)
  show ?thesis
  proof (cases q)
    case (Inl e)
    then show ?thesis using q assms by (simp add: worker_cycle_def ok_def inv_paused)
  next
    case (Inr es)
    obtain w' r where r: "process_entries c u S es (w\<lparr>wk_srv := s\<rparr>) = (w', r)" by fastforce
    have k: "ok base w'" using inv_entries[OF i r] assms by (simp add: ok_def)
    then have "ok base (wk_emit Paused w')" by (simp add: ok_def inv_paused)
    with k show ?thesis using q Inr r
      by (cases r) (auto simp: worker_cycle_def ok_flush_and_ack)
  qed
qed

lemma ok_loop: "ok base w \<Longrightarrow> ok base (worker_loop c u S D cfg envs w)"
  by (induction envs arbitrary: w) (auto simp: ok_cycle)

lemma ok_worker:
  "idle d \<Longrightarrow> ok (rows d) (stream_to_postgres c u S D cfg now envs s d)"
  unfolding stream_to_postgres_def
  by (intro ok_shutdown ok_loop) (simp add: ok_def worker_inv_def worker_new_def)

text \<open>What is acknowledged after a flush is in the table, in the order it was read.\<close>

lemma ok_acked:
  assumes "ok base w"
  shows "\<exists>written. rows (wk_db w) = base @ map snd written \<and>
    map snd (buffered (wk_log w)) = map snd written @ wk_buffer w \<and>
    (\<exists>rest. buffered (wk_log w) = written @ rest) \<and>
    (\<exists>more. map fst written = acked (wk_log w) @ more)"
proof -
  let ?b = "buffered (wk_log w)"
  obtain wr where wr: "rows (wk_db w) = base @ wr" "map snd ?b = wr @ wk_buffer w"
      "map fst ?b = acked (wk_log w) @ wk_pending_ids w" "length (wk_buffer w) \<le> length (wk_pending_ids w)"
    using assms by (auto simp: ok_def worker_inv_def)
  let ?w = "take (length wr) ?b"
  have l: "length ?b = length wr + length (wk_buffer w)" "length ?b = length (acked (wk_log w)) + length (wk_pending_ids w)"
    using wr(2,3) by (metis length_append length_map)+
  have s: "map snd ?w = wr" using wr(2) by (metis append_eq_conv_conj take_map)
  have "map fst ?w = take (length wr) (acked (wk_log w) @ wk_pending_ids w)" using wr(3) by (metis take_map)
  then have "map fst ?w = acked (wk_log w) @ take (length wr - length (acked (wk_log w))) (wk_pending_ids w)"
    using l wr(4) by simp
  then show ?thesis using wr s by (intro exI[of _ ?w]) (metis append_take_drop_id)
qed

text \<open>While a record the database refuses is in the buffer, nothing is written any more.\<close>

lemma refused_flush:
  assumes "\<And>rs d. r \<in> set rs \<Longrightarrow> \<exists>d' e. db_execute D rs d = (d', Inl e)"
    and "r \<in> set (wk_buffer w)"
  shows "rows (wk_db (flush_and_ack S D t w)) = rows (wk_db w) \<and> wk_buffer (flush_and_ack S D t w) = wk_buffer w
    \<and> acked (wk_log (flush_and_ack S D t w)) = acked (wk_log w)"
proof -
  obtain d' e where e: "db_execute D (wk_buffer w) (wk_db w) = (d', Inl e)" using assms by blast
  have "wk_buffer w \<noteq> []" using assms(2) by auto
  then show ?thesis using e execute[OF e] close
    by (simp add: flush_and_ack_def flush_in_session_def flush_def)
qed

end

lemma entries_buffer:
  "process_entries c u S es w = (w', r) \<Longrightarrow>
   set (wk_buffer w) \<subseteq> set (wk_buffer w') \<and> wk_db w' = wk_db w \<and> acked (wk_log w') = acked (wk_log w)"
proof (induction es arbitrary: w)
  case (Cons e es)
  obtain i data where e: "e = (i, data)" by (cases e)
  show ?case
  proof (cases "from_stream_dict c data")
    case None
    obtain s q where q: "stream_ack S RAW_TELEMETRY DATA_PERSISTENCE [i] (wk_srv w) = (s, q)" by fastforce
    show ?thesis using Cons.prems None q e Cons.IH[of "wk_emit (Dropped i) (w\<lparr>wk_srv := s\<rparr>)"]
      by (cases q) auto
  next
    case (Some reading)
    then show ?thesis using Cons.prems e Cons.IH[of "wk_emit (Buffered i (telemetry_to_record (u (wk_uuids w)) reading))
        (w\<lparr>wk_uuids := wk_uuids w + 1, wk_buffer := accumulate (telemetry_to_record (u (wk_uuids w)) reading) (wk_buffer w),
           wk_pending_ids := wk_pending_ids w @ [i], wk_consumed := wk_consumed w + 1\<rparr>)"]
      by (auto simp: Let_def accumulate_def)
  qed
qed simp

context transactions begin

lemma refused_cycle:
  assumes "\<And>rs d. r \<in> set rs \<Longrightarrow> \<exists>d' e. db_execute D rs d = (d', Inl e)"
    and "r \<in> set (wk_buffer w)"
  shows "rows (wk_db (worker_cycle c u S D cfg env w)) = rows (wk_db w) \<and>
    r \<in> set (wk_buffer (worker_cycle c u S D cfg env w)) \<and>
    acked (wk_log (worker_cycle c u S D cfg env w)) = acked (wk_log w)"
proof -
  obtain s q where q: "stream_read_group S RAW_TELEMETRY DATA_PERSISTENCE (ws_consumer_name cfg)
      (ws_batch_size cfg) (wk_srv w) = (s, q)" by fastforce
  show ?thesis
  proof (cases q)
    case (Inl e)
    then show ?thesis using q assms by (simp add: worker_cycle_def)
  next
    case (Inr es)
    obtain w' p where p: "process_entries c u S es (w\<lparr>wk_srv := s\<rparr>) = (w', p)" by fastforce
    from entries_buffer[OF p] assms(2)
    have w': "r \<in> set (wk_buffer w')" "wk_db w' = wk_db w" "acked (wk_log w') = acked (wk_log w)" by auto
    show ?thesis using q Inr p w' refused_flush[OF assms(1) w'(1)]
      by (cases p) (auto simp: worker_cycle_def)
  qed
qed

lemma refused_loop:
  assumes "\<And>rs d. r \<in> set rs \<Longrightarrow> \<exists>d' e. db_execute D rs d = (d', Inl e)"
    and "r \<in> set (wk_buffer w)"
  shows "rows (wk_db (worker_loop c u S D cfg envs w)) = rows (wk_db w) \<and>
    acked (wk_log (worker_loop c u S D cfg envs w)) = acked (wk_log w)"
  using assms(2)
proof (induction envs arbitrary: w)
  case (Cons env envs)
  note n = refused_cycle[OF assms(1) Cons.prems, of c u S cfg env]
  show ?case using Cons.IH[of "worker_cycle c u S D cfg env w"] n by simp
qed simp

end

subsection \<open>The stream and the worker\<close>

lemma handled_entries:
  "process_entries c u S es w = (w', r) \<Longrightarrow>
   set (handled (wk_log w')) \<subseteq> set (handled (wk_log w)) \<union> set (map fst es)"
proof (induction es arbitrary: w)
  case (Cons e es)
  obtain i data where e: "e = (i, data)" by (cases e)
  show ?case
  proof (cases "from_stream_dict c data")
    case None
    obtain s q where q: "stream_ack S RAW_TELEMETRY DATA_PERSISTENCE [i] (wk_srv w) = (s, q)" by fastforce
    show ?thesis using Cons.prems None q e Cons.IH[of "wk_emit (Dropped i) (w\<lparr>wk_srv := s\<rparr>)"]
      by (cases q) auto
  next
    case (Some reading)
    let ?r = "telemetry_to_record (u (wk_uuids w)) reading"
    show ?thesis using Cons.prems Some e Cons.IH[of "wk_emit (Buffered i ?r) (w\<lparr>wk_uuids := wk_uuids w + 1,
        wk_buffer := accumulate ?r (wk_buffer w),
        wk_pending_ids := wk_pending_ids w @ [i], wk_consumed := wk_consumed w + 1\<rparr>)"]
      by (auto simp: Let_def)
  qed
qed simp

context stream_laws begin

definition fresh :: "('s, 'd) worker \<Rightarrow> bool" where
  "fresh w \<longleftrightarrow> good (wk_srv w) \<and> distinct (handled (wk_log w)) \<and>
     set (handled (wk_log w)) \<subseteq> set (delivered (wk_srv w) RAW_TELEMETRY DATA_PERSISTENCE)"

lemma fresh_entries:
  assumes "good (wk_srv w)" "distinct (handled (wk_log w) @ map fst es)"
    and "set (handled (wk_log w)) \<union> set (map fst es) \<subseteq> set (delivered (wk_srv w) RAW_TELEMETRY DATA_PERSISTENCE)"
    and "process_entries c u S es w = (w', r)"
  shows "fresh w'"
  using assms
proof (induction es arbitrary: w)
  case Nil
  then show ?case by (simp add: fresh_def)
next
  case (Cons e es)
  obtain i data where e: "e = (i, data)" by (cases e)
  show ?case
  proof (cases "from_stream_dict c data")
    case None
    obtain s q where q: "stream_ack S RAW_TELEMETRY DATA_PERSISTENCE [i] (wk_srv w) = (s, q)" by fastforce
    note k = ack_keeps[OF Cons.prems(1) q]
    show ?thesis
    proof (cases q)
      case (Inl x)
      then show ?thesis using Cons.prems None q e k by (auto simp: fresh_def)
    next
      case (Inr n)
      then have "process_entries c u S es (wk_emit (Dropped i) (w\<lparr>wk_srv := s\<rparr>)) = (w', r)"
        using Cons.prems(4) None q e by simp
      from Cons.IH[OF _ _ _ this] show ?thesis using Cons.prems(1-3) e k by auto
    qed
  next
    case (Some reading)
    let ?r = "telemetry_to_record (u (wk_uuids w)) reading"
    let ?w = "wk_emit (Buffered i ?r) (w\<lparr>wk_uuids := wk_uuids w + 1, wk_buffer := accumulate ?r (wk_buffer w),
                    wk_pending_ids := wk_pending_ids w @ [i], wk_consumed := wk_consumed w + 1\<rparr>)"
    have "process_entries c u S es ?w = (w', r)" using Cons.prems(4) Some e by (simp add: Let_def)
    from Cons.IH[OF _ _ _ this] show ?thesis using Cons.prems(1-3) e by auto
  qed
qed

lemma fresh_ack_pending:
  assumes "fresh w" "ack_pending S w = (w', r)" shows "fresh w'"
proof -
  obtain s q where q: "stream_ack S RAW_TELEMETRY DATA_PERSISTENCE (wk_pending_ids w) (wk_srv w) = (s, q)"
    by fastforce
  have "good s \<and> delivered s = delivered (wk_srv w)"
    using ack_keeps[OF _ q] assms(1) by (simp add: fresh_def)
  then show ?thesis using assms q by (cases q) (auto simp: ack_pending_def fresh_def split: if_splits)
qed

lemma fresh_commit [simp]:
  "fresh (wk_emit (Committed rs) (w\<lparr>wk_db := d, wk_buffer := b\<rparr>)) = fresh w"
  "fresh (w\<lparr>wk_db := d, wk_buffer := b\<rparr>) = fresh w" "fresh (w\<lparr>wk_last_flush := t\<rparr>) = fresh w"
  "fresh (wk_emit Paused w) = fresh w"
  by (simp_all add: fresh_def)

lemma fresh_flush_and_ack: "fresh w \<Longrightarrow> fresh (flush_and_ack S D t w)"
  unfolding flush_and_ack_def by (auto split: prod.split sum.split dest: fresh_ack_pending[rotated])

lemma fresh_shutdown: "fresh w \<Longrightarrow> fresh (shutdown_flush S D w)"
  unfolding shutdown_flush_def
  by (auto split: prod.split sum.split intro: fresh_ack_pending[OF _ surjective_pairing])

lemma fresh_cycle:
  assumes "fresh w" shows "fresh (worker_cycle c u S D cfg env w)"
proof -
  obtain s q where q: "stream_read_group S RAW_TELEMETRY DATA_PERSISTENCE (ws_consumer_name cfg)
      (ws_batch_size cfg) (wk_srv w) = (s, q)" by fastforce
  have g: "good (wk_srv w)" using assms by (simp add: fresh_def)
  show ?thesis
  proof (cases q)
    case (Inl e)
    have "fresh (w\<lparr>wk_srv := s\<rparr>)"
      using assms read_keeps[OF g q] Inl by (auto simp: fresh_def)
    then show ?thesis using q Inl by (simp add: worker_cycle_def)
  next
    case (Inr es)
    obtain w' r where r: "process_entries c u S es (w\<lparr>wk_srv := s\<rparr>) = (w', r)" by fastforce
    have "fresh w'"
      by (rule fresh_entries[OF _ _ _ r])
        (use assms read_ok[OF g q[unfolded Inr]] read_keeps[OF g q] in \<open>auto simp: fresh_def\<close>)
    then show ?thesis using q Inr r
      by (cases r) (auto simp: worker_cycle_def fresh_flush_and_ack)
  qed
qed

lemma fresh_loop: "fresh w \<Longrightarrow> fresh (worker_loop c u S D cfg envs w)"
  by (induction envs arbitrary: w) (auto simp: fresh_cycle)

lemma fresh_worker: "good s \<Longrightarrow> fresh (stream_to_postgres c u S D cfg now envs s d)"
  unfolding stream_to_postgres_def
  by (intro fresh_shutdown fresh_loop) (simp add: fresh_def worker_new_def)

text \<open>An id handed to the group is never handed out again, whatever the worker did with it.\<close>

lemma delivered_entries:
  assumes "good (wk_srv w)" "process_entries c u S es w = (w', r)"
  shows "good (wk_srv w') \<and> delivered (wk_srv w') = delivered (wk_srv w)"
  using assms
proof (induction es arbitrary: w)
  case (Cons e es)
  obtain i data where e: "e = (i, data)" by (cases e)
  show ?case
  proof (cases "from_stream_dict c data")
    case None
    obtain s q where q: "stream_ack S RAW_TELEMETRY DATA_PERSISTENCE [i] (wk_srv w) = (s, q)" by fastforce
    note k = ack_keeps[OF Cons.prems(1) q]
    show ?thesis
      using Cons.prems None q e k Cons.IH[of "wk_emit (Dropped i) (w\<lparr>wk_srv := s\<rparr>)"] by (cases q) auto
  next
    case (Some reading)
    let ?r = "telemetry_to_record (u (wk_uuids w)) reading"
    show ?thesis using Cons.prems Some e Cons.IH[of "wk_emit (Buffered i ?r) (w\<lparr>wk_uuids := wk_uuids w + 1,
        wk_buffer := accumulate ?r (wk_buffer w),
        wk_pending_ids := wk_pending_ids w @ [i], wk_consumed := wk_consumed w + 1\<rparr>)"]
      by (simp add: Let_def)
  qed
qed simp

text \<open>An entry given to the worker that it did not handle in that iteration is never handled.\<close>

definition skipped :: "string \<Rightarrow> ('s, 'd) worker \<Rightarrow> bool" where
  "skipped x w \<longleftrightarrow> good (wk_srv w) \<and> x \<in> set (delivered (wk_srv w) RAW_TELEMETRY DATA_PERSISTENCE) \<and>
     x \<notin> set (handled (wk_log w))"

lemma skipped_ack_pending:
  assumes "skipped x w" "ack_pending S w = (w', r)" shows "skipped x w'"
proof -
  obtain s q where q: "stream_ack S RAW_TELEMETRY DATA_PERSISTENCE (wk_pending_ids w) (wk_srv w) = (s, q)"
    by fastforce
  have "good s \<and> delivered s = delivered (wk_srv w)"
    using ack_keeps[OF _ q] assms(1) by (simp add: skipped_def)
  then show ?thesis using assms q by (cases q) (auto simp: ack_pending_def skipped_def split: if_splits)
qed

lemma skipped_simps [simp]:
  "skipped x (wk_emit (Committed rs) (w\<lparr>wk_db := d, wk_buffer := b\<rparr>)) = skipped x w"
  "skipped x (w\<lparr>wk_db := d, wk_buffer := b\<rparr>) = skipped x w" "skipped x (w\<lparr>wk_last_flush := t\<rparr>) = skipped x w"
  "skipped x (wk_emit Paused w) = skipped x w"
  by (simp_all add: skipped_def)

lemma skipped_flush_and_ack: "skipped x w \<Longrightarrow> skipped x (flush_and_ack S D t w)"
  unfolding flush_and_ack_def by (auto split: prod.split sum.split dest: skipped_ack_pending[rotated])

lemma skipped_shutdown: "skipped x w \<Longrightarrow> skipped x (shutdown_flush S D w)"
  unfolding shutdown_flush_def
  by (auto split: prod.split sum.split intro: skipped_ack_pending[OF _ surjective_pairing])

lemma skipped_cycle:
  assumes "skipped x w" shows "skipped x (worker_cycle c u S D cfg env w)"
proof -
  obtain s q where q: "stream_read_group S RAW_TELEMETRY DATA_PERSISTENCE (ws_consumer_name cfg)
      (ws_batch_size cfg) (wk_srv w) = (s, q)" by fastforce
  have g: "good (wk_srv w)" and x: "x \<in> set (delivered (wk_srv w) RAW_TELEMETRY DATA_PERSISTENCE)"
    using assms by (simp_all add: skipped_def)
  have s: "skipped x (w\<lparr>wk_srv := s\<rparr>)"
    using assms read_keeps[OF g q] read_grows[OF g q] by (auto simp: skipped_def)
  show ?thesis
  proof (cases q)
    case (Inl e)
    then show ?thesis using q s by (simp add: worker_cycle_def)
  next
    case (Inr es)
    obtain w' r where r: "process_entries c u S es (w\<lparr>wk_srv := s\<rparr>) = (w', r)" by fastforce
    have "x \<notin> set (map fst es)" using read_fresh[OF g q[unfolded Inr]] x by blast
    then have "skipped x w'" using handled_entries[OF r] delivered_entries[OF _ r] s
      by (auto simp: skipped_def)
    then show ?thesis using q Inr r
      by (cases r) (auto simp: worker_cycle_def skipped_flush_and_ack)
  qed
qed

lemma skipped_loop: "skipped x w \<Longrightarrow> skipped x (worker_loop c u S D cfg envs w)"
  by (induction envs arbitrary: w) (auto simp: skipped_cycle)

text \<open>The entries behind a malformed one whose acknowledgement raises.\<close>

lemma failed_ack_skips:
  assumes "good (wk_srv w)" "fresh w"
    and read: "stream_read_group S RAW_TELEMETRY DATA_PERSISTENCE (ws_consumer_name cfg)
      (ws_batch_size cfg) (wk_srv w) = (s, Inr ((i, data) # es))"
    and "from_stream_dict c data = None"
    and "stream_ack S RAW_TELEMETRY DATA_PERSISTENCE [i] s = (s', Inl e)"
    and "x \<in> set (map fst es)"
  shows "skipped x (worker_cycle c u S D cfg env w)"
proof -
  have "x \<notin> set (delivered (wk_srv w) RAW_TELEMETRY DATA_PERSISTENCE)"
    "x \<in> set (delivered s RAW_TELEMETRY DATA_PERSISTENCE)"
    using read_fresh[OF assms(1) read, of x] assms(6) by simp_all
  moreover have "good s' \<and> delivered s' = delivered s"
    using ack_keeps[OF _ assms(5)] read_keeps[OF assms(1) read] by simp
  ultimately have "skipped x (w\<lparr>wk_srv := s'\<rparr>)"
    using assms(2) by (auto simp: skipped_def fresh_def)
  then show ?thesis using assms by (simp add: worker_cycle_def)
qed

end

end
