(* ===== verification/Simulator.thy ===== *)
theory Simulator imports Telemetry "HOL-Library.State_Monad" begin

section \<open>Device simulator\<close>

text \<open>
  The package \<open>simulator\<close>: the generators of \<open>generators/normal_data.py\<close> and \<open>generators/anomaly_data.py\<close>, the
  three devices, the fleets and the publish cycle. The edge model is trained on these devices. Random
  numbers come from a source \<open>rng\<close> of arbitrary draws; a computation that draws is a state monad over
  the number of draws so far, and \<open>pred_state P m\<close> says that every value \<open>m\<close> can produce satisfies \<open>P\<close>.
\<close>

record rng =
  rn_gauss :: "nat \<Rightarrow> rat \<Rightarrow> rat \<Rightarrow> rat"
  rn_uniform :: "nat \<Rightarrow> rat \<Rightarrow> rat \<Rightarrow> rat"
  rn_choice :: "nat \<Rightarrow> nat \<Rightarrow> nat"
  rn_randint :: "nat \<Rightarrow> int \<Rightarrow> int \<Rightarrow> int"
  rn_random :: "nat \<Rightarrow> rat"
  rn_sin :: "rat \<Rightarrow> rat"

text \<open>The documented ranges of \<open>random\<close>; \<open>rn_sin t\<close> is the sine of t full turns.\<close>

definition rng_ok :: "rng \<Rightarrow> bool" where
  "rng_ok r \<longleftrightarrow> (\<forall>n a b. a \<le> b \<longrightarrow> a \<le> rn_uniform r n a b \<and> rn_uniform r n a b \<le> b) \<and>
     (\<forall>n k. 0 < k \<longrightarrow> rn_choice r n k < k) \<and> (\<forall>n a b. a \<le> b \<longrightarrow> a \<le> rn_randint r n a b \<and> rn_randint r n a b \<le> b) \<and>
     (\<forall>n. 0 \<le> rn_random r n \<and> rn_random r n < 1) \<and> (\<forall>t. \<bar>rn_sin r t\<bar> \<le> 1)"

type_synonym 'a random = "(nat, 'a) state"

abbreviation give :: "'a \<Rightarrow> 'a random" where "give \<equiv> State_Monad.return"

definition random_gauss :: "rng \<Rightarrow> rat \<Rightarrow> rat \<Rightarrow> rat random" where
  "random_gauss r mu sigma = State (\<lambda>n. (rn_gauss r n mu sigma, n + 1))"

definition random_uniform :: "rng \<Rightarrow> rat \<Rightarrow> rat \<Rightarrow> rat random" where
  "random_uniform r a b = State (\<lambda>n. (rn_uniform r n a b, n + 1))"

definition random_choice :: "rng \<Rightarrow> 'a list \<Rightarrow> 'a random" where
  "random_choice r xs = State (\<lambda>n. (xs ! rn_choice r n (length xs), n + 1))"

definition random_randint :: "rng \<Rightarrow> int \<Rightarrow> int \<Rightarrow> int random" where
  "random_randint r a b = State (\<lambda>n. (rn_randint r n a b, n + 1))"

definition random_random :: "rng \<Rightarrow> rat random" where
  "random_random r = State (\<lambda>n. (rn_random r n, n + 1))"

subsection \<open>Generators\<close>

definition sinusoidal :: "rng \<Rightarrow> rat \<Rightarrow> rat \<Rightarrow> rat \<Rightarrow> rat \<Rightarrow> rat" where
  "sinusoidal r amplitude frequency offset t = offset + amplitude * rn_sin r (frequency * t)"

definition gaussian_noise :: "rng \<Rightarrow> rat \<Rightarrow> rat \<Rightarrow> rat random" where
  "gaussian_noise r mu std = random_gauss r mu std"

definition brownian_motion :: "rng \<Rightarrow> rat \<Rightarrow> rat \<Rightarrow> rat random" where
  "brownian_motion r current step_std = do { g \<leftarrow> random_gauss r 0 step_std; give (current + g) }"

definition seasonal_pattern :: "rng \<Rightarrow> rat \<Rightarrow> rat \<Rightarrow> rat \<Rightarrow> rat" where
  "seasonal_pattern r t daily_amp yearly_amp = daily_amp * rn_sin r (t / 24) + yearly_amp * rn_sin r (t / 8760)"

definition point_anomaly :: "rng \<Rightarrow> rat \<Rightarrow> rat \<Rightarrow> rat \<Rightarrow> rat random" where
  "point_anomaly r base_value lo hi = do {
     multiplier \<leftarrow> random_uniform r lo hi;
     sign \<leftarrow> random_choice r [-1, 1];
     give (base_value + sign * \<bar>base_value\<bar> * multiplier) }"

definition drift_anomaly :: "rat \<Rightarrow> rat \<Rightarrow> nat \<Rightarrow> rat" where
  "drift_anomaly base_value drift_rate elapsed_steps = base_value + drift_rate * of_nat elapsed_steps"

definition stuck_sensor :: "rat \<Rightarrow> rat" where "stuck_sensor last_value = last_value"

definition noise_burst :: "rng \<Rightarrow> rat \<Rightarrow> rat \<Rightarrow> rat random" where
  "noise_burst r base_value noise_multiplier = do {
     noise \<leftarrow> random_uniform r (-1) 1; give (base_value + noise * noise_multiplier) }"

subsection \<open>Temperature sensor\<close>

record temperature_sensor =
  tse_time_offset :: rat
  tse_last_temperature :: "rat option"
  tse_drift_steps :: nat

definition temperature_new :: temperature_sensor where
  "temperature_new = \<lparr>tse_time_offset = 0, tse_last_temperature = None, tse_drift_steps = 0\<rparr>"

definition normal_temperature :: "rng \<Rightarrow> temperature_sensor \<Rightarrow> rat random" where
  "normal_temperature r d = do {
     g \<leftarrow> gaussian_noise r 0 (1 / 2); give (sinusoidal r 5 (1 / 24) 23 (tse_time_offset d) + g) }"

definition normal_humidity :: "rng \<Rightarrow> rat random" where
  "normal_humidity r = do { g \<leftarrow> gaussian_noise r 0 1; give (50 + g) }"

definition temperature_payload :: "rat \<Rightarrow> rat \<Rightarrow> json_object" where
  "temperature_payload temperature humidity =
     [(''temperature_celsius'', JFloat (py_round temperature 2)),
      (''humidity_percent'', JFloat (py_round (max 0 (min 100 humidity)) 2)), (''unit'', JStr ''celsius'')]"

definition temperature_reading :: "rng \<Rightarrow> temperature_sensor \<Rightarrow> (temperature_sensor \<times> json_object) random" where
  "temperature_reading r d = do {
     temperature \<leftarrow> normal_temperature r d;
     humidity \<leftarrow> normal_humidity r;
     give (d\<lparr>tse_time_offset := tse_time_offset d + 1, tse_last_temperature := Some temperature, tse_drift_steps := 0\<rparr>,
       temperature_payload temperature humidity @ [(''anomaly'', JBool False)]) }"

definition last_or_default :: "temperature_sensor \<Rightarrow> rat" where
  "last_or_default d = (case tse_last_temperature d of None \<Rightarrow> 23 | Some t \<Rightarrow> t)"

text \<open>The value of each type of anomaly; the drift counter is advanced before it is used.\<close>

definition temperature_fault :: "rng \<Rightarrow> string \<Rightarrow> temperature_sensor \<Rightarrow> (temperature_sensor \<times> rat) random" where
  "temperature_fault r anomaly_type d =
     (if anomaly_type = ''spike'' then do { t \<leftarrow> random_uniform r 80 120; give (d, t) }
      else if anomaly_type = ''drift'' then
        let base = last_or_default d; d = d\<lparr>tse_drift_steps := tse_drift_steps d + 1\<rparr>
        in give (d, min (drift_anomaly base (1 / 2) (tse_drift_steps d)) (base + 20))
      else if anomaly_type = ''stuck'' then give (d, stuck_sensor (last_or_default d))
      else do { t \<leftarrow> normal_temperature r d; t \<leftarrow> noise_burst r t 15; give (d, t) })"

definition temperature_anomaly :: "rng \<Rightarrow> temperature_sensor \<Rightarrow> (temperature_sensor \<times> json_object) random" where
  "temperature_anomaly r d = do {
     anomaly_type \<leftarrow> random_choice r [''spike'', ''drift'', ''stuck''];
     dt \<leftarrow> temperature_fault r anomaly_type d;
     humidity \<leftarrow> normal_humidity r;
     give ((fst dt)\<lparr>tse_time_offset := tse_time_offset d + 1, tse_last_temperature := Some (snd dt)\<rparr>,
       temperature_payload (snd dt) humidity @ [(''anomaly'', JBool True), (''anomaly_type'', JStr anomaly_type)]) }"

subsection \<open>Pressure sensor\<close>

record pressure_sensor =
  prs_current_pressure :: rat
  prs_last_flow_rate :: rat

definition PRESSURE_BASELINE :: rat where "PRESSURE_BASELINE = 1013 + 1 / 4"
definition PRESSURE_RANGE :: rat where "PRESSURE_RANGE = 5"

definition pressure_new :: "rng \<Rightarrow> pressure_sensor random" where
  "pressure_new r = do {
     u \<leftarrow> random_uniform r (- PRESSURE_RANGE) PRESSURE_RANGE;
     give \<lparr>prs_current_pressure = PRESSURE_BASELINE + u, prs_last_flow_rate = 30\<rparr> }"

definition normal_pressure :: "rng \<Rightarrow> pressure_sensor \<Rightarrow> (pressure_sensor \<times> rat) random" where
  "normal_pressure r d = do {
     moved \<leftarrow> brownian_motion r (prs_current_pressure d) (5 / 100);
     let current = max (PRESSURE_BASELINE - PRESSURE_RANGE) (min (PRESSURE_BASELINE + PRESSURE_RANGE) moved);
     g \<leftarrow> gaussian_noise r 0 (3 / 10);
     give (d\<lparr>prs_current_pressure := current\<rparr>, current + g) }"

definition normal_flow_rate :: "rng \<Rightarrow> rat random" where
  "normal_flow_rate r = do { g \<leftarrow> gaussian_noise r 0 1; give (max 10 (min 50 (30 + g))) }"

definition pressure_payload :: "rat \<Rightarrow> rat \<Rightarrow> json_object" where
  "pressure_payload pressure flow_rate =
     [(''pressure_hpa'', JFloat (py_round pressure 2)), (''flow_rate_lpm'', JFloat (py_round flow_rate 2)),
      (''unit'', JStr ''hPa'')]"

definition pressure_reading :: "rng \<Rightarrow> pressure_sensor \<Rightarrow> (pressure_sensor \<times> json_object) random" where
  "pressure_reading r d = do {
     dp \<leftarrow> normal_pressure r d;
     flow_rate \<leftarrow> normal_flow_rate r;
     give ((fst dp)\<lparr>prs_last_flow_rate := flow_rate\<rparr>, pressure_payload (snd dp) flow_rate @ [(''anomaly'', JBool False)]) }"

definition pressure_fault :: "rng \<Rightarrow> string \<Rightarrow> pressure_sensor \<Rightarrow> (pressure_sensor \<times> rat) random" where
  "pressure_fault r anomaly_type d = do {
     dp \<leftarrow> normal_pressure r d;
     if anomaly_type = ''pressure_drop'' then give (fst dp, snd dp - 200)
     else if anomaly_type = ''overpressure'' then give (fst dp, snd dp + 500)
     else do { p \<leftarrow> noise_burst r (snd dp) 100; give (fst dp, p) } }"

definition pressure_anomaly :: "rng \<Rightarrow> pressure_sensor \<Rightarrow> (pressure_sensor \<times> json_object) random" where
  "pressure_anomaly r d = do {
     anomaly_type \<leftarrow> random_choice r [''pressure_drop'', ''overpressure''];
     dp \<leftarrow> pressure_fault r anomaly_type d;
     flow_rate \<leftarrow> normal_flow_rate r;
     give (fst dp, pressure_payload (snd dp) flow_rate @ [(''anomaly'', JBool True), (''anomaly_type'', JStr anomaly_type)]) }"

subsection \<open>Vibration sensor\<close>

definition normal_rms :: "rng \<Rightarrow> rat random" where
  "normal_rms r = do { g \<leftarrow> gaussian_noise r 0 (1 / 10); give (max 0 (5 / 4 + g)) }"

definition normal_frequency :: "rng \<Rightarrow> rat random" where
  "normal_frequency r = do { g \<leftarrow> gaussian_noise r 0 5; give (max 0 (125 + g)) }"

definition vibration_payload :: "rat \<Rightarrow> rat \<Rightarrow> json_object" where
  "vibration_payload rms_velocity peak_frequency =
     [(''rms_velocity_mm_s'', JFloat (py_round rms_velocity 3)), (''peak_frequency_hz'', JFloat (py_round peak_frequency 1)),
      (''unit'', JStr ''mm/s'')]"

definition vibration_reading :: "rng \<Rightarrow> json_object random" where
  "vibration_reading r = do {
     rms_velocity \<leftarrow> normal_rms r;
     peak_frequency \<leftarrow> normal_frequency r;
     give (vibration_payload rms_velocity peak_frequency @ [(''anomaly'', JBool False)]) }"

definition vibration_fault :: "rng \<Rightarrow> string \<Rightarrow> (rat \<times> rat) random" where
  "vibration_fault r anomaly_type =
     (if anomaly_type = ''bearing_failure'' then do {
        rms_velocity \<leftarrow> random_uniform r 10 50;
        peak_frequency \<leftarrow> normal_frequency r;
        give (rms_velocity, peak_frequency) }
      else if anomaly_type = ''erratic_burst'' then do {
        rms \<leftarrow> normal_rms r;
        rms_velocity \<leftarrow> point_anomaly r rms 5 15;
        peak_frequency \<leftarrow> random_uniform r 800 2000;
        give (\<bar>rms_velocity\<bar>, peak_frequency) }
      else do {
        rms \<leftarrow> normal_rms r;
        rms_velocity \<leftarrow> noise_burst r rms 30;
        peak_frequency \<leftarrow> normal_frequency r;
        give (rms_velocity, peak_frequency) })"

definition vibration_anomaly :: "rng \<Rightarrow> json_object random" where
  "vibration_anomaly r = do {
     anomaly_type \<leftarrow> random_choice r [''bearing_failure'', ''erratic_burst''];
     v \<leftarrow> vibration_fault r anomaly_type;
     give (vibration_payload (max 0 (fst v)) (max 0 (snd v)) @
       [(''anomaly'', JBool True), (''anomaly_type'', JStr anomaly_type)]) }"

subsection \<open>Devices\<close>

datatype sensor = Temperature temperature_sensor | Pressure pressure_sensor | Vibration

record base_device =
  bd_device_id :: uuid
  bd_device_type :: string
  bd_sampling_interval :: rat
  bd_sensor :: sensor

definition generate_reading :: "rng \<Rightarrow> sensor \<Rightarrow> (sensor \<times> json_object) random" where
  "generate_reading r d = (case d of
     Temperature t \<Rightarrow> do { x \<leftarrow> temperature_reading r t; give (Temperature (fst x), snd x) }
   | Pressure p \<Rightarrow> do { x \<leftarrow> pressure_reading r p; give (Pressure (fst x), snd x) }
   | Vibration \<Rightarrow> do { x \<leftarrow> vibration_reading r; give (Vibration, x) })"

definition generate_anomaly :: "rng \<Rightarrow> sensor \<Rightarrow> (sensor \<times> json_object) random" where
  "generate_anomaly r d = (case d of
     Temperature t \<Rightarrow> do { x \<leftarrow> temperature_anomaly r t; give (Temperature (fst x), snd x) }
   | Pressure p \<Rightarrow> do { x \<leftarrow> pressure_anomaly r p; give (Pressure (fst x), snd x) }
   | Vibration \<Rightarrow> do { x \<leftarrow> vibration_anomaly r; give (Vibration, x) })"

text \<open>\<open>now\<close> is the text of the current time.\<close>

definition get_telemetry :: "rng \<Rightarrow> string \<Rightarrow> bool \<Rightarrow> base_device \<Rightarrow> (base_device \<times> json_object) random" where
  "get_telemetry r now anomaly d = do {
     x \<leftarrow> (if anomaly then generate_anomaly r (bd_sensor d) else generate_reading r (bd_sensor d));
     signal_strength \<leftarrow> random_randint r (-90) (-30);
     give (d\<lparr>bd_sensor := fst x\<rparr>,
       [(''device_id'', JStr (bd_device_id d)), (''device_type'', JStr (bd_device_type d)), (''timestamp'', JStr now),
        (''payload'', JObj (snd x)),
        (''metadata'', JObj [(''firmware_version'', JStr ''1.0.0''), (''signal_strength'', JInt signal_strength)])]) }"

text \<open>The constructors of the three classes, by the name of the type; the pressure sensor draws.\<close>

definition new_device :: "rng \<Rightarrow> string \<Rightarrow> uuid \<Rightarrow> rat \<Rightarrow> base_device option random" where
  "new_device r device_type device_id sampling_interval =
     (let dev = (\<lambda>s. Some \<lparr>bd_device_id = device_id, bd_device_type = device_type,
        bd_sampling_interval = sampling_interval, bd_sensor = s\<rparr>) in
      if device_type = ''temperature_sensor'' then give (dev (Temperature temperature_new))
      else if device_type = ''pressure_sensor'' then do { p \<leftarrow> pressure_new r; give (dev (Pressure p)) }
      else if device_type = ''vibration_sensor'' then give (dev Vibration)
      else give None)"

subsection \<open>Fleets\<close>

text \<open>A zero-padded decimal of at least the given width.\<close>

definition padded :: "nat \<Rightarrow> nat \<Rightarrow> string" where
  "padded width n = replicate (width - length (nat_str n)) (CHR ''0'') @ nat_str n"

definition human_name :: "string \<Rightarrow> nat \<Rightarrow> string" where
  "human_name device_type count = take 4 device_type @ ''-'' @ padded 4 count"

text \<open>\<open>uuid5\<close> is the name-based UUID. An unknown type is counted and skipped; no types at all divide by zero.\<close>

definition fleet_step :: "rng \<Rightarrow> (string \<Rightarrow> uuid) \<Rightarrow> string list \<Rightarrow> rat \<Rightarrow> nat \<Rightarrow> base_device list \<times> (string, nat) dict \<Rightarrow>
    (base_device list \<times> (string, nat) dict) random" where
  "fleet_step r uuid5 device_types interval i s =
     (let device_type = device_types ! (i mod length device_types);
          count = dget_or (snd s) device_type 0;
          type_count = dset device_type (count + 1) (snd s)
      in do {
        dev \<leftarrow> new_device r device_type (uuid5 (human_name device_type count)) interval;
        give (case dev of None \<Rightarrow> fst s | Some d \<Rightarrow> fst s @ [d], type_count) })"

fun fleet_loop :: "rng \<Rightarrow> (string \<Rightarrow> uuid) \<Rightarrow> string list \<Rightarrow> rat \<Rightarrow> nat list \<Rightarrow> base_device list \<times> (string, nat) dict \<Rightarrow>
    (base_device list \<times> (string, nat) dict) random" where
  "fleet_loop r uuid5 device_types interval [] s = give s"
| "fleet_loop r uuid5 device_types interval (i # is) s = do {
     s \<leftarrow> fleet_step r uuid5 device_types interval i s;
     fleet_loop r uuid5 device_types interval is s }"

definition create_device_fleet :: "rng \<Rightarrow> (string \<Rightarrow> uuid) \<Rightarrow> nat \<Rightarrow> string list \<Rightarrow> rat \<Rightarrow> base_device list option random" where
  "create_device_fleet r uuid5 num_devices device_types interval =
     (if device_types = [] \<and> 0 < num_devices then give None
      else do { s \<leftarrow> fleet_loop r uuid5 device_types interval [0..<num_devices] ([], []); give (Some (fst s)) })"

definition factory_group :: "rng \<Rightarrow> (string \<Rightarrow> uuid) \<Rightarrow> string \<Rightarrow> string \<Rightarrow> nat \<Rightarrow> base_device list random" where
  "factory_group r uuid5 device_type name_prefix k = do {
     ds \<leftarrow> State_Monad.traverse_list (\<lambda>i. new_device r device_type (uuid5 (name_prefix @ padded 3 i)) 5) [0..<k];
     give (map the ds) }"

definition create_factory_floor_fleet :: "rng \<Rightarrow> (string \<Rightarrow> uuid) \<Rightarrow> base_device list random" where
  "create_factory_floor_fleet r uuid5 = do {
     ts \<leftarrow> factory_group r uuid5 ''temperature_sensor'' ''temp-'' 20;
     vs \<leftarrow> factory_group r uuid5 ''vibration_sensor'' ''vib-'' 15;
     ps \<leftarrow> factory_group r uuid5 ''pressure_sensor'' ''pres-'' 15;
     give (ts @ vs @ ps) }"

subsection \<open>Publishing\<close>

text \<open>
  What a publisher makes of a message: it is sent, the call reports or logs a failure, or it raises.
  The fleet manager looks at none of the results.
\<close>

datatype publish_result = Sent | Refused | Raises

text \<open>\<open>RestPublisher\<close>: the status of the answer, None for a connection error.\<close>

definition rest_publish :: "bool \<Rightarrow> nat option \<Rightarrow> publish_result" where
  "rest_publish is_connected answer = (if \<not> is_connected then Refused
     else case answer of None \<Rightarrow> Refused | Some status \<Rightarrow> if status \<in> {200, 201, 202} then Sent else Refused)"

text \<open>\<open>CoapPublisher\<close>: whether the code of the response is a success, None for any exception.\<close>

definition coap_publish :: "bool option \<Rightarrow> publish_result" where
  "coap_publish response = (case response of Some True \<Rightarrow> Sent | _ \<Rightarrow> Refused)"

text \<open>\<open>MqttPublisher\<close>: the topic and the JSON text.\<close>

definition mqtt_topic :: "uuid \<Rightarrow> string" where "mqtt_topic device_id = ''devices/'' @ device_id @ ''/telemetry''"

definition mqtt_publish :: "codec \<Rightarrow> uuid \<Rightarrow> json_object \<Rightarrow> string \<times> string" where
  "mqtt_publish c device_id telemetry = (mqtt_topic device_id, cd_dumps c (JObj telemetry))"

record fleet =
  fl_devices :: "base_device list"
  fl_total_published :: nat
  fl_total_anomalies :: nat
  fl_running :: bool

definition fleet_new :: "base_device list \<Rightarrow> fleet" where
  "fleet_new devices = \<lparr>fl_devices = devices, fl_total_published = 0, fl_total_anomalies = 0, fl_running = False\<rparr>"

text \<open>The part of \<open>_publish_device\<close> before its await, in the order of the devices.\<close>

definition make_telemetry :: "rng \<Rightarrow> string \<Rightarrow> rat \<Rightarrow> base_device \<Rightarrow> (base_device \<times> json_object \<times> bool) random" where
  "make_telemetry r now anomaly_rate d = do {
     u \<leftarrow> random_random r;
     let is_anomaly = u < anomaly_rate;
     dm \<leftarrow> get_telemetry r now is_anomaly d;
     give (fst dm, snd dm, is_anomaly) }"

text \<open>The part after it: the counters, unless the publisher raised.\<close>

definition count_published :: "publish_result \<times> bool \<Rightarrow> fleet \<Rightarrow> fleet" where
  "count_published p f = (if fst p = Raises then f
     else f\<lparr>fl_total_published := fl_total_published f + 1,
            fl_total_anomalies := fl_total_anomalies f + (if snd p then 1 else 0)\<rparr>)"

text \<open>\<open>deliver\<close> is the publisher; \<open>gather\<close> raises if one of the calls does.\<close>

definition publish_cycle :: "rng \<Rightarrow> string \<Rightarrow> rat \<Rightarrow> (uuid \<Rightarrow> json_object \<Rightarrow> publish_result) \<Rightarrow> fleet \<Rightarrow> (fleet \<times> bool) random" where
  "publish_cycle r now anomaly_rate deliver f = do {
     ms \<leftarrow> State_Monad.traverse_list (make_telemetry r now anomaly_rate) (fl_devices f);
     let results = map (\<lambda>(d, m, a). (deliver (bd_device_id d) m, a)) ms;
     give (fold count_published results (f\<lparr>fl_devices := map fst ms\<rparr>), \<forall>p \<in> set results. fst p \<noteq> Raises) }"

text \<open>\<open>run\<close>: per round the publisher and whether \<open>stop\<close> is called during the round. The end clears the flag.\<close>

fun fleet_rounds :: "rng \<Rightarrow> string \<Rightarrow> rat \<Rightarrow> ((uuid \<Rightarrow> json_object \<Rightarrow> publish_result) \<times> bool) list \<Rightarrow> fleet \<Rightarrow> fleet random" where
  "fleet_rounds r now anomaly_rate [] f = give f"
| "fleet_rounds r now anomaly_rate ((deliver, stop_called) # es) f =
     (if \<not> fl_running f then give f
      else do {
        fo \<leftarrow> publish_cycle r now anomaly_rate deliver f;
        if \<not> snd fo then give ((fst fo)\<lparr>fl_running := False\<rparr>)
        else fleet_rounds r now anomaly_rate es
          (if stop_called then (fst fo)\<lparr>fl_running := False\<rparr> else fst fo) })"

definition fleet_run :: "rng \<Rightarrow> string \<Rightarrow> rat \<Rightarrow> ((uuid \<Rightarrow> json_object \<Rightarrow> publish_result) \<times> bool) list \<Rightarrow> fleet \<Rightarrow> fleet random" where
  "fleet_run r now anomaly_rate es f = fleet_rounds r now anomaly_rate es (f\<lparr>fl_running := True\<rparr>)"

definition fleet_stop :: "fleet \<Rightarrow> fleet" where "fleet_stop f = f\<lparr>fl_running := False\<rparr>"

text \<open>
  \<open>main\<close> of the simulator: None for an exception (no types to choose from, or a publisher that cannot connect), an exit
  code, or the fleet after its run. \<open>rounds\<close> gives the rounds with the publisher of a transport.
\<close>

record simulator_settings =
  sx_num_devices :: nat
  sx_device_types :: "string list"
  sx_interval :: rat
  sx_anomaly_rate :: rat
  sx_transport :: string

definition TRANSPORTS :: "string list" where "TRANSPORTS = [''mqtt'', ''rest'', ''coap'']"

definition simulator_main :: "rng \<Rightarrow> (string \<Rightarrow> uuid) \<Rightarrow> string \<Rightarrow> simulator_settings \<Rightarrow> (string \<Rightarrow> bool) \<Rightarrow>
    (string \<Rightarrow> ((uuid \<Rightarrow> json_object \<Rightarrow> publish_result) \<times> bool) list) \<Rightarrow> (nat + fleet) option random" where
  "simulator_main r uuid5 now cfg connects rounds = do {
     devices \<leftarrow> create_device_fleet r uuid5 (sx_num_devices cfg) (sx_device_types cfg) (sx_interval cfg);
     let transport = map lower_char (sx_transport cfg);
     (case devices of
        None \<Rightarrow> give None
      | Some ds \<Rightarrow>
          if ds = [] then give (Some (Inl 1))
          else if transport \<notin> set TRANSPORTS then give (Some (Inl 1))
          else if \<not> connects transport then give None
          else do { f \<leftarrow> fleet_run r now (sx_anomaly_rate cfg) (rounds transport) (fleet_new ds); give (Some (Inr f)) }) }"

subsection \<open>Possible outcomes\<close>

named_theorems outcome \<open>rules for what a computation that draws can produce\<close>

lemma outcome_give [outcome]: "P x \<Longrightarrow> pred_state P (give x)"
  by auto

lemmas outcome_bind [outcome] = bind_predI

lemma outcome_if [outcome]: "(b \<Longrightarrow> pred_state P m) \<Longrightarrow> (\<not> b \<Longrightarrow> pred_state P m') \<Longrightarrow> pred_state P (if b then m else m')"
  by simp

lemma outcome_mono: "pred_state P m \<Longrightarrow> (\<And>x. P x \<Longrightarrow> Q x) \<Longrightarrow> pred_state Q m"
  by (rule state.pred_mono_strong)

lemma outcome_gauss [outcome]: "(\<And>n. P (rn_gauss r n mu sigma)) \<Longrightarrow> pred_state P (random_gauss r mu sigma)"
  by (auto simp: random_gauss_def)

lemma outcome_random [outcome]: "(\<And>u. P u) \<Longrightarrow> pred_state P (random_random r)"
  by (auto simp: random_random_def)

lemma outcome_uniform [outcome]:
  assumes "rng_ok r" and "a \<le> b" and "\<And>x. a \<le> x \<Longrightarrow> x \<le> b \<Longrightarrow> P x"
  shows "pred_state P (random_uniform r a b)"
  using assms by (auto simp: random_uniform_def rng_ok_def)

lemma outcome_choice [outcome]:
  assumes "rng_ok r" and "xs \<noteq> []" and "\<And>x. x \<in> set xs \<Longrightarrow> P x"
  shows "pred_state P (random_choice r xs)"
  using assms by (auto simp: random_choice_def rng_ok_def)

lemma outcome_randint [outcome]:
  assumes "rng_ok r" and "a \<le> b" and "\<And>x. a \<le> x \<Longrightarrow> x \<le> b \<Longrightarrow> P x"
  shows "pred_state P (random_randint r a b)"
  using assms by (auto simp: random_randint_def rng_ok_def)

lemma outcome_get [outcome]: "(\<And>n. P n) \<Longrightarrow> pred_state P State_Monad.get"
  by (auto simp: State_Monad.get_def)

lemma outcome_traverse:
  assumes "\<And>x. x \<in> set xs \<Longrightarrow> pred_state (P x) (f x)"
  shows "pred_state (list_all2 P xs) (State_Monad.traverse_list f xs)"
  using assms
proof (induction xs)
  case (Cons x xs)
  have x: "pred_state (P x) (f x)" using Cons.prems by simp
  have xs: "pred_state (list_all2 P xs) (State_Monad.traverse_list f xs)" using Cons by simp
  show ?case
    unfolding State_Monad.traverse_list.simps
    by (rule outcome_bind[OF outcome_mono[OF x]], rule outcome_bind[OF outcome_mono[OF xs]]) (auto intro: outcome)
qed (auto intro: outcome_give)

lemma py_round_between:
  assumes "of_int a \<le> x" and "x \<le> of_int b"
  shows "of_int a \<le> py_round x n \<and> py_round x n \<le> of_int b"
proof -
  have "of_int (a * 10 ^ n) \<le> x * 10 ^ n" "x * 10 ^ n \<le> of_int (b * 10 ^ n)"
    using assms by (simp_all add: mult_right_mono)
  from round_half_even_between[OF this]
  have "(of_int (a * 10 ^ n) :: rat) \<le> of_int (round_half_even (x * 10 ^ n))"
    "of_int (round_half_even (x * 10 ^ n)) \<le> (of_int (b * 10 ^ n) :: rat)" by (simp_all only: of_int_le_iff)
  then show ?thesis by (simp add: py_round_def pos_le_divide_eq pos_divide_le_eq)
qed

subsection \<open>Devices in their range\<close>

definition sensor_ok :: "sensor \<Rightarrow> bool" where
  "sensor_ok s = (case s of Pressure p \<Rightarrow> \<bar>prs_current_pressure p - PRESSURE_BASELINE\<bar> \<le> PRESSURE_RANGE | _ \<Rightarrow> True)"

definition sensor_type :: "sensor \<Rightarrow> string" where
  "sensor_type s = (case s of Temperature _ \<Rightarrow> ''temperature_sensor'' | Pressure _ \<Rightarrow> ''pressure_sensor''
     | Vibration \<Rightarrow> ''vibration_sensor'')"

definition device_ok :: "base_device \<Rightarrow> bool" where
  "device_ok d \<longleftrightarrow> sensor_ok (bd_sensor d) \<and> bd_device_type d = sensor_type (bd_sensor d)"

text \<open>The two sensor values of a payload and its label, in the ranges the physics allows.\<close>

definition payload_ok :: "sensor \<Rightarrow> bool \<Rightarrow> json_object \<Rightarrow> bool" where
  "payload_ok s anomaly p \<longleftrightarrow> dget p ''anomaly'' = Some (JBool anomaly) \<and> distinct (dkeys p) \<and> (\<exists>a b.
     (case s of
        Temperature _ \<Rightarrow> dget p ''temperature_celsius'' = Some (JFloat a) \<and> dget p ''humidity_percent'' = Some (JFloat b) \<and>
          0 \<le> b \<and> b \<le> 100
      | Pressure _ \<Rightarrow> dget p ''pressure_hpa'' = Some (JFloat a) \<and> dget p ''flow_rate_lpm'' = Some (JFloat b) \<and>
          10 \<le> b \<and> b \<le> 50
      | Vibration \<Rightarrow> dget p ''rms_velocity_mm_s'' = Some (JFloat a) \<and> dget p ''peak_frequency_hz'' = Some (JFloat b) \<and>
          0 \<le> a \<and> 0 \<le> b))"

lemma py_round_nonneg: "0 \<le> x \<Longrightarrow> 0 \<le> py_round x n"
  using round_half_even_between[of 0 "x * 10 ^ n" "\<lceil>x * 10 ^ n\<rceil>"] by (simp add: py_round_def)

lemma temperature_payload_ok:
  "payload_ok (Temperature s) False (temperature_payload t h @ [(''anomaly'', JBool False)])"
  "payload_ok (Temperature s) True (temperature_payload t h @ [(''anomaly'', JBool True), (''anomaly_type'', JStr k)])"
  using py_round_between[of 0 "max 0 (min 100 h)" 100 2] by (simp_all add: payload_ok_def temperature_payload_def)

lemma pressure_payload_ok:
  assumes "10 \<le> f" and "f \<le> 50"
  shows "payload_ok (Pressure s) False (pressure_payload p f @ [(''anomaly'', JBool False)])"
    "payload_ok (Pressure s) True (pressure_payload p f @ [(''anomaly'', JBool True), (''anomaly_type'', JStr k)])"
  using py_round_between[of 10 f 50 2] assms by (simp_all add: payload_ok_def pressure_payload_def)

lemma vibration_payload_ok:
  assumes "0 \<le> v" and "0 \<le> f"
  shows "payload_ok Vibration False (vibration_payload v f @ [(''anomaly'', JBool False)])"
    "payload_ok Vibration True (vibration_payload v f @ [(''anomaly'', JBool True), (''anomaly_type'', JStr k)])"
  using assms by (simp_all add: payload_ok_def vibration_payload_def py_round_nonneg)

lemma flow_rate_range: "pred_state (\<lambda>f. 10 \<le> f \<and> f \<le> 50) (normal_flow_rate r)"
  unfolding normal_flow_rate_def gaussian_noise_def by (intro outcome) auto

lemma normal_rms_nonneg: "pred_state (\<lambda>x. 0 \<le> x) (normal_rms r)"
  unfolding normal_rms_def gaussian_noise_def by (intro outcome) auto

lemma normal_frequency_nonneg: "pred_state (\<lambda>x. 0 \<le> x) (normal_frequency r)"
  unfolding normal_frequency_def gaussian_noise_def by (intro outcome) auto

text \<open>The drift of the pressure stays in its band.\<close>

lemma normal_pressure_band:
  "pred_state (\<lambda>x. sensor_ok (Pressure (fst x)) \<and> prs_last_flow_rate (fst x) = prs_last_flow_rate d) (normal_pressure r d)"
  unfolding normal_pressure_def brownian_motion_def gaussian_noise_def Let_def
  by (intro outcome) (auto simp: sensor_ok_def PRESSURE_RANGE_def abs_le_iff)

lemma generate_reading_ok:
  assumes "rng_ok r" and "sensor_ok s"
  shows "pred_state (\<lambda>x. sensor_ok (fst x) \<and> sensor_type (fst x) = sensor_type s \<and> payload_ok s False (snd x)) (generate_reading r s)"
proof (cases s)
  case (Temperature t)
  then show ?thesis
    unfolding generate_reading_def temperature_reading_def normal_temperature_def normal_humidity_def gaussian_noise_def
    by (auto intro!: outcome temperature_payload_ok simp: sensor_ok_def sensor_type_def)
next
  case (Pressure p)
  have "pred_state (\<lambda>x. sensor_ok (Pressure (fst x)) \<and> payload_ok s False (snd x)) (pressure_reading r p)"
    unfolding pressure_reading_def Pressure
    by (intro outcome outcome_mono[OF normal_pressure_band] outcome_mono[OF flow_rate_range])
      (auto simp: sensor_ok_def intro!: pressure_payload_ok)
  then show ?thesis
    unfolding generate_reading_def Pressure sensor.case
    by (intro outcome, elim outcome_mono) (auto intro!: outcome simp: sensor_type_def)
next
  case Vibration
  have "pred_state (payload_ok Vibration False) (vibration_reading r)"
    unfolding vibration_reading_def
    by (intro outcome outcome_mono[OF normal_rms_nonneg] outcome_mono[OF normal_frequency_nonneg])
      (rule vibration_payload_ok)
  then show ?thesis
    unfolding generate_reading_def Vibration sensor.case
    by (intro outcome, elim outcome_mono) (auto intro!: outcome simp: sensor_type_def sensor_ok_def)
qed


lemma generate_anomaly_ok:
  assumes "rng_ok r" and "sensor_ok s"
  shows "pred_state (\<lambda>x. sensor_ok (fst x) \<and> sensor_type (fst x) = sensor_type s \<and> payload_ok s True (snd x)) (generate_anomaly r s)"
proof (cases s)
  case (Temperature t)
  have "pred_state (\<lambda>x. payload_ok s True (snd x)) (temperature_anomaly r t)"
    unfolding temperature_anomaly_def Temperature by (auto intro!: pred_stateI temperature_payload_ok split: prod.splits)
  then show ?thesis
    unfolding generate_anomaly_def Temperature sensor.case
    by (intro outcome, elim outcome_mono) (auto intro!: outcome simp: sensor_type_def sensor_ok_def)
next
  case (Pressure p)
  have "pred_state (\<lambda>x. sensor_ok (Pressure (fst x))) (pressure_fault r k p)" for k
    unfolding pressure_fault_def noise_burst_def
    by (intro outcome outcome_mono[OF normal_pressure_band]) (auto intro!: outcome assms)
  then have fault: "pred_state (\<lambda>x. sensor_ok (Pressure (fst x)) \<and> payload_ok s True (snd x)) (do {
      dp \<leftarrow> pressure_fault r k p; flow_rate \<leftarrow> normal_flow_rate r;
      give (fst dp, pressure_payload (snd dp) flow_rate @ [(''anomaly'', JBool True), (''anomaly_type'', JStr k)]) })" for k
    unfolding Pressure
    by (rule outcome_bind[OF outcome_mono])
      (auto intro!: outcome outcome_mono[OF flow_rate_range] pressure_payload_ok)
  have "pred_state (\<lambda>x. sensor_ok (Pressure (fst x)) \<and> payload_ok s True (snd x)) (pressure_anomaly r p)"
    unfolding pressure_anomaly_def by (rule outcome_bind[OF outcome_choice[OF assms(1)]]) (simp, rule fault)
  then show ?thesis
    unfolding generate_anomaly_def Pressure sensor.case
    by (intro outcome, elim outcome_mono) (auto intro!: outcome simp: sensor_type_def)
next
  case Vibration
  have "pred_state (payload_ok Vibration True) (vibration_anomaly r)"
    unfolding vibration_anomaly_def by (auto intro!: pred_stateI vibration_payload_ok split: prod.splits)
  then show ?thesis
    unfolding generate_anomaly_def Vibration sensor.case
    by (intro outcome, elim outcome_mono) (auto intro!: outcome simp: sensor_type_def sensor_ok_def)
qed

text \<open>What one message holds; the device keeps its identity.\<close>

definition message_ok :: "base_device \<Rightarrow> string \<Rightarrow> bool \<Rightarrow> base_device \<times> json_object \<Rightarrow> bool" where
  "message_ok d now anomaly x \<longleftrightarrow> device_ok (fst x) \<and> bd_device_id (fst x) = bd_device_id d \<and>
     bd_device_type (fst x) = bd_device_type d \<and>
     (\<exists>p sig. payload_ok (bd_sensor d) anomaly p \<and> snd x = [(''device_id'', JStr (bd_device_id d)),
        (''device_type'', JStr (bd_device_type d)), (''timestamp'', JStr now), (''payload'', JObj p),
        (''metadata'', JObj [(''firmware_version'', JStr ''1.0.0''), (''signal_strength'', JInt sig)])])"

lemma get_telemetry_ok:
  assumes "rng_ok r" and "device_ok d"
  shows "pred_state (message_ok d now anomaly) (get_telemetry r now anomaly d)"
proof -
  have "pred_state (\<lambda>x. sensor_ok (fst x) \<and> sensor_type (fst x) = sensor_type (bd_sensor d) \<and>
      payload_ok (bd_sensor d) anomaly (snd x))
    (if anomaly then generate_anomaly r (bd_sensor d) else generate_reading r (bd_sensor d))"
    using generate_anomaly_ok[OF assms(1), of "bd_sensor d"] generate_reading_ok[OF assms(1), of "bd_sensor d"] assms(2)
    by (simp add: device_ok_def)
  then show ?thesis
    unfolding get_telemetry_def
    by (rule outcome_bind[OF outcome_mono])
      (use assms in \<open>auto intro!: outcome simp: message_ok_def device_ok_def\<close>)
qed

lemma new_device_ok:
  assumes "rng_ok r"
  shows "pred_state (\<lambda>dev. case dev of None \<Rightarrow> device_type \<notin> {''temperature_sensor'', ''pressure_sensor'', ''vibration_sensor''}
      | Some d \<Rightarrow> device_ok d \<and> bd_device_id d = i \<and> bd_device_type d = device_type \<and> bd_sampling_interval d = v)
    (new_device r device_type i v)"
  unfolding new_device_def pressure_new_def Let_def
  by (intro outcome assms) (auto simp: device_ok_def sensor_ok_def sensor_type_def PRESSURE_RANGE_def)

subsection \<open>Names\<close>

lemma digits_val_zeros: "digits_val 0 (replicate k (CHR ''0'') @ s) = digits_val 0 s"
  by (induction k) (simp_all add: digit_val_def Let_def)

lemma padded_inj: "padded w m = padded w n \<Longrightarrow> m = n"
  by (metis padded_def digits_val_zeros digits_val_nat_str option.inject)

lemma human_name_inj:
  assumes "t \<in> {''temperature_sensor'', ''pressure_sensor'', ''vibration_sensor''}"
    and "u \<in> {''temperature_sensor'', ''pressure_sensor'', ''vibration_sensor''}"
    and "human_name t m = human_name u n"
  shows "t = u \<and> m = n"
  using assms by (auto simp: human_name_def dest: padded_inj)

end
