(* ===== verification/Jobs.thy ===== *)
theory Jobs imports Telemetry begin

section \<open>Background jobs\<close>

text \<open>
  What the two services that run jobs in a background thread share: the status strings of
  \<open>batch_analytics/routers/jobs.py\<close> and \<open>ml_training/routers/training_jobs.py\<close>, and listings sorted by
  creation time, newest first.
\<close>

datatype job_status = Pending | Running | Completed | Failed | Cancelled

definition job_status_value :: "job_status \<Rightarrow> string" where
  "job_status_value s = (case s of Pending \<Rightarrow> ''pending'' | Running \<Rightarrow> ''running'' | Completed \<Rightarrow> ''completed''
     | Failed \<Rightarrow> ''failed'' | Cancelled \<Rightarrow> ''cancelled'')"

text \<open>\<open>sorted(xs, key=f, reverse=True)\<close>: equal elements keep their order.\<close>

definition newest_first :: "('a \<Rightarrow> time) \<Rightarrow> 'a list \<Rightarrow> 'a list" where
  "newest_first f xs = sort_key (\<lambda>x. - f x) xs"

lemma set_newest_first [simp]: "set (newest_first f xs) = set xs"
  by (simp add: newest_first_def)

lemma length_newest_first [simp]: "length (newest_first f xs) = length xs"
  by (simp add: newest_first_def)

lemma newest_first_sorted: "sorted_wrt (\<lambda>x y. f y \<le> f x) (newest_first f xs)"
proof -
  have "sorted (map (\<lambda>x. - f x) (newest_first f xs))" by (simp add: newest_first_def)
  then show ?thesis by (simp add: sorted_map)
qed

lemma hd_newest_first:
  assumes "x \<in> set xs"
  shows "hd (newest_first f xs) \<in> set xs \<and> f x \<le> f (hd (newest_first f xs))"
  using hd_sort_key_least[OF assms, of "\<lambda>x. - f x"] hd_sort_key_in[of xs "\<lambda>x. - f x"] assms
  by (force simp: newest_first_def)

end
