(* ===== verification/Networks.thy ===== *)
theory Networks imports Jobs begin

section \<open>Architectures and evaluation\<close>

text \<open>
  \<open>ml_training/architectures\<close> and the numerical parts of \<open>training_scripts/train_edge_autoencoder.py\<close>,
  \<open>train_anomaly.py\<close> and \<open>evaluate.py\<close>. A fully connected layer is its weight matrix and bias and raises on
  an input of another width; the recurrent layer of torch is an argument. One sample is a list of
  numbers; a batch is processed sample by sample.
\<close>

type_synonym vec = "rat list"

datatype layer = Linear (in_features: nat) (weight: "vec list") (bias: vec) | ReLU

definition dot :: "vec \<Rightarrow> vec \<Rightarrow> rat" where
  "dot w x = sum_list (map2 (*) w x)"

fun layer_forward :: "layer \<Rightarrow> vec \<Rightarrow> vec option" where
  "layer_forward (Linear n w b) x = (if length x = n then Some (map2 (\<lambda>r c. dot r x + c) w b) else None)"
| "layer_forward ReLU x = Some (map (max 0) x)"

fun sequential :: "layer list \<Rightarrow> vec \<Rightarrow> vec option" where
  "sequential [] x = Some x"
| "sequential (l # ls) x = Option.bind (layer_forward l x) (sequential ls)"

subsection \<open>Autoencoder\<close>

record autoencoder =
  ae_input_dim :: nat
  ae_encoding_dim :: nat
  ae_encoder :: "layer list"
  ae_decoder :: "layer list"

text \<open>\<open>init i n m\<close> is what torch puts into the i-th layer, from n inputs to m outputs.\<close>

type_synonym initialiser = "nat \<Rightarrow> nat \<Rightarrow> nat \<Rightarrow> vec list \<times> vec"

definition init_ok :: "initialiser \<Rightarrow> bool" where
  "init_ok init \<longleftrightarrow> (\<forall>i n m. length (fst (init i n m)) = m \<and> length (snd (init i n m)) = m)"

definition linear :: "initialiser \<Rightarrow> nat \<Rightarrow> nat \<Rightarrow> nat \<Rightarrow> layer" where
  "linear init i n m = Linear n (fst (init i n m)) (snd (init i n m))"

definition autoencoder_new :: "initialiser \<Rightarrow> nat \<Rightarrow> nat \<Rightarrow> autoencoder" where
  "autoencoder_new init input_dim encoding_dim =
     \<lparr>ae_input_dim = input_dim, ae_encoding_dim = encoding_dim,
      ae_encoder = [linear init 0 input_dim 16, ReLU, linear init 1 16 encoding_dim, ReLU],
      ae_decoder = [linear init 2 encoding_dim 16, ReLU, linear init 3 16 input_dim]\<rparr>"

definition ae_encode :: "autoencoder \<Rightarrow> vec \<Rightarrow> vec option" where
  "ae_encode m x = sequential (ae_encoder m) x"

definition ae_forward :: "autoencoder \<Rightarrow> vec \<Rightarrow> vec option" where
  "ae_forward m x = Option.bind (ae_encode m x) (sequential (ae_decoder m))"

definition mse :: "vec \<Rightarrow> vec \<Rightarrow> rat" where
  "mse x y = sum_list (map2 (\<lambda>a b. (a - b) ^ 2) x y) / of_nat (length x)"

definition reconstruction_error :: "autoencoder \<Rightarrow> vec \<Rightarrow> rat option" where
  "reconstruction_error m x = map_option (mse x) (ae_forward m x)"

text \<open>\<open>ReconstructionErrorModel\<close>: the reconstruction is clamped to the range of the training data.\<close>

definition clamp :: "vec \<Rightarrow> vec \<Rightarrow> vec \<Rightarrow> vec" where
  "clamp y lower upper = map (\<lambda>((v, lo), hi). min (max v lo) hi) (zip (zip y lower) upper)"

definition clamped_error :: "autoencoder \<Rightarrow> vec \<Rightarrow> vec \<Rightarrow> vec \<Rightarrow> rat option" where
  "clamped_error m lower upper x = map_option (\<lambda>y. mse x (clamp y lower upper)) (ae_forward m x)"

subsection \<open>LSTM predictor\<close>

record lstm_predictor =
  lp_input_dim :: nat
  lp_output_dim :: nat
  lp_lstm :: "vec list \<Rightarrow> vec list"
  lp_fc :: layer

definition lstm_forward :: "lstm_predictor \<Rightarrow> vec list \<Rightarrow> vec option" where
  "lstm_forward m x = (case lp_lstm m x of [] \<Rightarrow> None | hs \<Rightarrow> layer_forward (lp_fc m) (last hs))"

text \<open>Each prediction is appended to the window, which drops its oldest step.\<close>

fun predict_steps :: "lstm_predictor \<Rightarrow> nat \<Rightarrow> vec list \<Rightarrow> vec list option" where
  "predict_steps m 0 window = Some []"
| "predict_steps m (Suc n) window =
     Option.bind (lstm_forward m window) (\<lambda>pred.
       if length pred \<noteq> lp_input_dim m then None
       else map_option (Cons pred) (predict_steps m n (tl window @ [pred])))"

definition predict_sequence :: "lstm_predictor \<Rightarrow> vec list \<Rightarrow> nat \<Rightarrow> vec list option" where
  "predict_sequence m x n_steps = (if n_steps = 0 then None else predict_steps m n_steps x)"

subsection \<open>Metrics\<close>

text \<open>\<open>compute_metrics\<close> of \<open>evaluate.py\<close>, over the labels 0 and 1.\<close>

record confusion =
  cf_tp :: nat
  cf_fp :: nat
  cf_fn :: nat
  cf_tn :: nat

definition confusion_of :: "int list \<Rightarrow> int list \<Rightarrow> confusion" where
  "confusion_of y_true y_pred = (let ps = zip y_true y_pred; count = (\<lambda>t p. length [x \<leftarrow> ps. x = (t, p)]) in
     \<lparr>cf_tp = count 1 1, cf_fp = count 0 1, cf_fn = count 1 0, cf_tn = count 0 0\<rparr>)"

definition ratio :: "nat \<Rightarrow> nat \<Rightarrow> rat" where
  "ratio a b = (if b > 0 then of_nat a / of_nat b else 0)"

definition f1_of :: "rat \<Rightarrow> rat \<Rightarrow> rat" where
  "f1_of precision recall = (if precision + recall > 0 then 2 * precision * recall / (precision + recall) else 0)"

record metrics =
  mt_precision :: rat
  mt_recall :: rat
  mt_f1 :: rat
  mt_accuracy :: rat
  mt_confusion :: confusion

definition compute_metrics :: "int list \<Rightarrow> int list \<Rightarrow> metrics" where
  "compute_metrics y_true y_pred =
     (let c = confusion_of y_true y_pred; precision = ratio (cf_tp c) (cf_tp c + cf_fp c);
          recall = ratio (cf_tp c) (cf_tp c + cf_fn c)
      in \<lparr>mt_precision = py_round precision 4, mt_recall = py_round recall 4, mt_f1 = py_round (f1_of precision recall) 4,
          mt_accuracy = py_round (ratio (cf_tp c + cf_tn c) (cf_tp c + cf_fp c + cf_fn c + cf_tn c)) 4, mt_confusion = c\<rparr>)"

text \<open>\<open>precision_recall\<close> of \<open>train_edge_autoencoder.py\<close>, over booleans.\<close>

record pr_metrics =
  pr_precision :: rat
  pr_recall :: rat
  pr_f1 :: rat
  pr_tp :: nat
  pr_fp :: nat
  pr_fn :: nat

definition precision_recall :: "bool list \<Rightarrow> bool list \<Rightarrow> pr_metrics" where
  "precision_recall pred truth =
     (let ps = zip pred truth; tp = length [(p, t) \<leftarrow> ps. p \<and> t]; fp = length [(p, t) \<leftarrow> ps. p \<and> \<not> t];
          fn = length [(p, t) \<leftarrow> ps. \<not> p \<and> t]; precision = ratio tp (tp + fp); recall = ratio tp (tp + fn)
      in \<lparr>pr_precision = py_round precision 4, pr_recall = py_round recall 4,
          pr_f1 = py_round (f1_of precision recall) 4, pr_tp = tp, pr_fp = fp, pr_fn = fn\<rparr>)"

text \<open>\<open>max(candidates, key=f)\<close>: the first of the best; the quantiles are numpy's.\<close>

fun first_max :: "('a \<Rightarrow> rat) \<Rightarrow> 'a \<Rightarrow> 'a list \<Rightarrow> 'a" where
  "first_max f x [] = x"
| "first_max f x (y # ys) = first_max f (if f y > f x then y else x) ys"

definition calibrate_threshold :: "(rat list \<Rightarrow> rat list) \<Rightarrow> rat list \<Rightarrow> bool list \<Rightarrow> rat option" where
  "calibrate_threshold quantiles errors truth = (case quantiles errors of [] \<Rightarrow> None
     | t # ts \<Rightarrow> Some (first_max (\<lambda>t. pr_f1 (precision_recall (map (\<lambda>e. e > t) errors) truth)) t ts))"

text \<open>The metrics \<open>train_anomaly.py\<close> reports; without an epoch the last loss does not exist.\<close>

definition best_val_loss :: "rat list \<Rightarrow> rat option" where
  "best_val_loss vs = fold (\<lambda>v b. case b of None \<Rightarrow> Some v | Some x \<Rightarrow> if v < x then Some v else Some x) vs None"

definition training_metrics :: "(rat \<times> rat) list \<Rightarrow> (rat \<times> rat \<times> rat option \<times> nat) option" where
  "training_metrics history = (if history = [] then None
     else Some (fst (last history), snd (last history), best_val_loss (map snd history), length history))"

subsection \<open>Splitting by device\<close>

text \<open>\<open>shuffled\<close> is the sorted list of the device ids after \<open>random.shuffle\<close>.\<close>

datatype split = Train_split | Calibration_split | Test_split

definition split_of :: "string list \<Rightarrow> rat \<Rightarrow> rat \<Rightarrow> string \<Rightarrow> split" where
  "split_of shuffled f0 f1 d =
     (let n_train = nat \<lfloor>of_nat (length shuffled) * f0\<rfloor>; n_cal = nat \<lfloor>of_nat (length shuffled) * f1\<rfloor>
      in if d \<in> set (take n_cal (drop n_train shuffled)) then Calibration_split
         else if d \<in> set (take n_train shuffled) then Train_split else Test_split)"

definition split_by_device :: "string list \<Rightarrow> rat \<Rightarrow> rat \<Rightarrow> string list \<Rightarrow> bool list \<times> bool list \<times> bool list" where
  "split_by_device shuffled f0 f1 reading_ids =
     (let split = map (split_of shuffled f0 f1) reading_ids
      in (map (\<lambda>s. s = Train_split) split, map (\<lambda>s. s = Calibration_split) split, map (\<lambda>s. s = Test_split) split))"

subsection \<open>Lemmas\<close>

lemma linear_forward:
  assumes "init_ok init"
  shows "layer_forward (linear init i n m) x = (if length x = n
      then Some (map2 (\<lambda>r c. dot r x + c) (fst (init i n m)) (snd (init i n m))) else None)"
    and "length x = n \<Longrightarrow> \<exists>y. layer_forward (linear init i n m) x = Some y \<and> length y = m"
  using assms by (auto simp: linear_def init_ok_def)


lemma encode_shape:
  assumes "init_ok init" and "length x = n"
  shows "\<exists>z. ae_encode (autoencoder_new init n k) x = Some z \<and> length z = k \<and> (\<forall>v \<in> set z. 0 \<le> v)"
proof -
  obtain a where a: "layer_forward (linear init 0 n 16) x = Some a" "length a = 16"
    using linear_forward(2)[OF assms(1,2)] by blast
  obtain b where b: "layer_forward (linear init 1 16 k) (map (max 0) a) = Some b" "length b = k"
    using linear_forward(2)[OF assms(1), of "map (max 0) a" 16] a by auto
  show ?thesis using a b by (auto simp: ae_encode_def autoencoder_new_def)
qed

lemma decode_shape:
  assumes "init_ok init" and "length z = k"
  shows "\<exists>y. sequential (ae_decoder (autoencoder_new init n k)) z = Some y \<and> length y = n"
proof -
  obtain a where a: "layer_forward (linear init 2 k 16) z = Some a" "length a = 16"
    using linear_forward(2)[OF assms] by blast
  obtain b where b: "layer_forward (linear init 3 16 n) (map (max 0) a) = Some b" "length b = n"
    using linear_forward(2)[OF assms(1), of "map (max 0) a" 16] a by auto
  show ?thesis using a b by (simp add: autoencoder_new_def)
qed

lemma forward_shape:
  assumes "init_ok init" and "length x = n"
  shows "\<exists>y. ae_forward (autoencoder_new init n k) x = Some y \<and> length y = n"
  using encode_shape[OF assms, of k] decode_shape[OF assms(1), of _ k n] by (auto simp: ae_forward_def)

lemma encode_wrong_width: "init_ok init \<Longrightarrow> length x \<noteq> n \<Longrightarrow> ae_encode (autoencoder_new init n k) x = None"
  by (simp add: ae_encode_def autoencoder_new_def linear_forward)

lemma le_sum_list: "v \<in> set xs \<Longrightarrow> \<forall>x \<in> set xs. 0 \<le> x \<Longrightarrow> v \<le> sum_list xs" for v :: rat
proof (induction xs)
  case (Cons x xs)
  have x: "0 \<le> x" and xs: "\<forall>x \<in> set xs. 0 \<le> x" using Cons.prems(2) by simp_all
  have s: "0 \<le> sum_list xs" by (rule sum_list_nonneg) (rule bspec[OF xs])
  consider "v = x" | "v \<in> set xs" using Cons.prems(1) by (meson set_ConsD)
  then show ?case
  proof cases
    case 1
    then show ?thesis using s by simp
  next
    case 2
    have "sum_list xs \<le> sum_list (x # xs)" using x by simp
    then show ?thesis using Cons.IH[OF 2 xs] by (rule order_trans[rotated])
  qed
qed simp

lemma sum_list_squares_ge:
  fixes xs :: "rat list"
  assumes "i < length xs" and "length ys = length xs"
  shows "(xs ! i - ys ! i) ^ 2 \<le> sum_list (map2 (\<lambda>a b. (a - b) ^ 2) xs ys)"
proof -
  have "(xs ! i - ys ! i) ^ 2 \<in> set (map2 (\<lambda>a b. (a - b) ^ 2) xs ys)"
    using assms by (force simp: in_set_zip)
  moreover have "\<forall>v \<in> set (map2 (\<lambda>a b. (a - b) ^ 2) xs ys). 0 \<le> v" by auto
  ultimately show ?thesis by (rule le_sum_list)
qed

lemma mse_nonneg: "0 \<le> mse x y"
  unfolding mse_def by (intro divide_nonneg_nonneg sum_list_nonneg) auto

lemma clamp_nth:
  assumes "i < length y" and "length lower = length y" and "length upper = length y"
  shows "clamp y lower upper ! i = min (max (y ! i) (lower ! i)) (upper ! i)" "length (clamp y lower upper) = length y"
  using assms by (simp_all add: clamp_def)

lemma first_max_best: "first_max f x ys \<in> set (x # ys) \<and> (\<forall>y \<in> set (x # ys). f y \<le> f (first_max f x ys))"
proof (induction ys arbitrary: x)
  case (Cons y ys)
  show ?case
  proof (cases "f x < f y")
    case True
    then have "f x \<le> f (first_max f y ys)" using Cons.IH[of y] by (auto intro: order_trans less_imp_le)
    then show ?thesis using True Cons.IH[of y] by auto
  next
    case False
    then have "f y \<le> f (first_max f x ys)" using Cons.IH[of x] by (meson list.set_intros(1) not_less order_trans)
    then show ?thesis using False Cons.IH[of x] by auto
  qed
qed simp

lemma ratio_unit: "a \<le> b \<Longrightarrow> 0 \<le> ratio a b \<and> ratio a b \<le> 1"
  by (simp add: ratio_def)

lemma harmonic:
  fixes t p n :: rat assumes pos: "0 < t" "0 \<le> p" "0 \<le> n" shows "2 * (t / (t + p)) * (t / (t + n)) / (t / (t + p) + t / (t + n)) = 2 * t / (2 * t + p + n)"
proof -
  have ab: "t + p > 0" "t + n > 0" using pos by linarith+
  have s: "t / (t + p) + t / (t + n) = t * (2 * t + p + n) / ((t + p) * (t + n))"
    using ab by (simp add: add_frac_eq algebra_simps)
  have q: "2 * (t / a) * (t / b) / (t * d / (a * b)) = 2 * t / d" if "a > 0" "b > 0" for a b d :: rat
    using that pos by simp
  show ?thesis unfolding s by (rule q[OF ab])
qed

text \<open>The harmonic mean in terms of the counts.\<close>

lemma f1_counts: "f1_of (ratio tp (tp + fp)) (ratio tp (tp + fn)) = ratio (2 * tp) (2 * tp + fp + fn)"
proof (cases "tp = 0")
  case True
  then show ?thesis by (simp add: f1_of_def ratio_def)
next
  case False
  define t p n :: rat where "t = of_nat tp" and "p = of_nat fp" and "n = of_nat fn"
  have pos: "0 < t" "0 \<le> p" "0 \<le> n" using False by (simp_all add: t_def p_def n_def)
  have r: "ratio tp (tp + fp) = t / (t + p)" "ratio tp (tp + fn) = t / (t + n)"
    "ratio (2 * tp) (2 * tp + fp + fn) = 2 * t / (2 * t + p + n)"
    using False by (simp_all add: ratio_def t_def p_def n_def)
  have "0 < t / (t + p) + t / (t + n)" using pos by (simp add: add_pos_nonneg)
  then show ?thesis unfolding r f1_of_def using harmonic[OF pos] by simp
qed

text \<open>Each prediction is the forecast of a window that slides over the input and the predictions before it.\<close>

lemma predict_steps_windows:
  assumes "predict_steps m n w = Some ps" and "w \<noteq> []"
  shows "length ps = n \<and> (\<forall>i < n. lstm_forward m (drop i (w @ take i ps)) = Some (ps ! i) \<and> length (ps ! i) = lp_input_dim m)"
  using assms
proof (induction n arbitrary: w ps)
  case (Suc n)
  obtain p qs where p: "lstm_forward m w = Some p" "length p = lp_input_dim m"
    and qs: "predict_steps m n (tl w @ [p]) = Some qs" and ps: "ps = p # qs"
    using Suc.prems(1) by (auto simp: bind_eq_Some_conv split: if_splits)
  from Suc.IH[OF qs] have ih: "length qs = n" "\<forall>i < n. lstm_forward m (drop i ((tl w @ [p]) @ take i qs)) = Some (qs ! i) \<and>
      length (qs ! i) = lp_input_dim m" by auto
  have "lstm_forward m (drop i (w @ take i ps)) = Some (ps ! i) \<and> length (ps ! i) = lp_input_dim m" if "i < Suc n" for i
  proof (cases i)
    case 0
    then show ?thesis using p ps by simp
  next
    case (Suc k)
    have "drop (Suc k) (w @ take (Suc k) (p # qs)) = drop k ((tl w @ [p]) @ take k qs)"
      using Suc.prems(2) \<open>w \<noteq> []\<close> by (cases w) simp_all
    then show ?thesis using ih(2) that Suc ps by simp
  qed
  then show ?case using ih(1) ps by simp
qed simp

lemma predict_steps_total:
  assumes "\<And>x. x \<noteq> [] \<Longrightarrow> \<exists>p. lstm_forward m x = Some p \<and> length p = lp_input_dim m" and "w \<noteq> []"
  shows "\<exists>ps. predict_steps m n w = Some ps"
  using assms(2)
proof (induction n arbitrary: w)
  case (Suc n)
  obtain p where p: "lstm_forward m w = Some p" "length p = lp_input_dim m" using assms(1)[OF Suc.prems] by blast
  obtain ps where "predict_steps m n (tl w @ [p]) = Some ps" using Suc.IH[of "tl w @ [p]"] by auto
  then show ?case using p by simp
qed simp

lemma metrics_total:
  assumes "length y_pred = length y_true" and "set y_true \<subseteq> {0, 1}" and "set y_pred \<subseteq> {0, 1}"
  shows "cf_tp (confusion_of y_true y_pred) + cf_fp (confusion_of y_true y_pred) +
    cf_fn (confusion_of y_true y_pred) + cf_tn (confusion_of y_true y_pred) = length y_true"
  using assms
proof (induction y_pred y_true rule: list_induct2)
  case (Cons p ps t ts)
  then show ?case by (auto simp: confusion_of_def Let_def)
qed (simp add: confusion_of_def)

lemma confusion_of_bools:
  assumes "length pred = length truth"
  shows "cf_tp (confusion_of (map of_bool truth) (map of_bool pred)) = pr_tp (precision_recall pred truth)"
    "cf_fp (confusion_of (map of_bool truth) (map of_bool pred)) = pr_fp (precision_recall pred truth)"
    "cf_fn (confusion_of (map of_bool truth) (map of_bool pred)) = pr_fn (precision_recall pred truth)"
  using assms by (induction pred truth rule: list_induct2) (auto simp: confusion_of_def precision_recall_def Let_def)

end
