(* ===== verification/Features.thy ===== *)
theory Features imports Telemetry begin

section \<open>Feature extractor\<close>

text \<open>
  \<open>ml_inference/services/feature_extractor.py\<close>: the feature row of a reading, computed from its two
  sensor values, the statistics of its device type and the recent values of the device.
\<close>

definition SENSOR_FIELDS :: "(string, string \<times> string) dict" where
  "SENSOR_FIELDS = [(''temperature_sensor'', ''temperature_celsius'', ''humidity_percent''),
     (''pressure_sensor'', ''pressure_hpa'', ''flow_rate_lpm''),
     (''vibration_sensor'', ''rms_velocity_mm_s'', ''peak_frequency_hz'')]"

definition DEVICE_TYPES :: "string list" where "DEVICE_TYPES = dkeys SENSOR_FIELDS"
definition N_FEATURES :: nat where "N_FEATURES = 4 + length DEVICE_TYPES"
definition MIN_HISTORY :: nat where "MIN_HISTORY = 5"
definition FEATURE_CLIP :: flt where "FEATURE_CLIP = 1000"
definition SKIP_KEYS :: "string list" where "SKIP_KEYS = [''anomaly'', ''anomaly_type'', ''unit'']"

text \<open>The statistics are the JSON value of the sidecar; the extractor reads them entry by entry.\<close>

record feature_extractor =
  fx_window_size :: nat
  fx_stats :: json
  fx_windows :: "(string, (flt \<times> flt) list) dict"

definition fx_new :: "nat \<Rightarrow> json option \<Rightarrow> feature_extractor" where
  "fx_new window_size stats = \<lparr>fx_window_size = window_size,
     fx_stats = (case stats of Some s \<Rightarrow> if falsy stats then JObj [] else s | None \<Rightarrow> JObj []), fx_windows = []\<rparr>"

definition set_stats :: "json \<Rightarrow> feature_extractor \<Rightarrow> feature_extractor" where
  "set_stats stats x = x\<lparr>fx_stats := stats\<rparr>"

text \<open>\<open>float(v)\<close>; None where it raises.\<close>

definition to_float :: "codec \<Rightarrow> json \<Rightarrow> flt option" where
  "to_float c j = (case j of JInt i \<Rightarrow> Some (of_int i) | JFloat x \<Rightarrow> Some x
     | JBool b \<Rightarrow> Some (if b then 1 else 0) | JStr s \<Rightarrow> cd_float c s | _ \<Rightarrow> None)"

text \<open>The comprehension over the numeric fields; a bool does not count as a number.\<close>

fun numeric_fields :: "json_object \<Rightarrow> flt list" where
  "numeric_fields [] = []"
| "numeric_fields ((k, v) # d) =
     (if k \<in> set SKIP_KEYS then numeric_fields d
      else case v of JInt i \<Rightarrow> of_int i # numeric_fields d | JFloat x \<Rightarrow> x # numeric_fields d
      | _ \<Rightarrow> numeric_fields d)"

definition fx_values :: "codec \<Rightarrow> telemetry_reading \<Rightarrow> (flt \<times> flt) option" where
  "fx_values c reading =
     (let payload = tr_payload reading;
          numeric = numeric_fields payload;
          numeric = numeric @ replicate (2 - length numeric) 0;
          fallback = Some (numeric ! 0, numeric ! 1)
      in case dget SENSOR_FIELDS (tr_device_type reading) of
           Some (f0, f1) \<Rightarrow>
             (case (dget payload f0, dget payload f1) of
                (Some v0, Some v1) \<Rightarrow>
                  Option.bind (to_float c v0) (\<lambda>a. Option.bind (to_float c v1) (\<lambda>b. Some (a, b)))
              | _ \<Rightarrow> fallback)
         | None \<Rightarrow> fallback)"

text \<open>
  The mean and deviation of a field. Statistics of another shape than an object of objects of pairs of
  numbers raise where they are read. An unknown type and a type without statistics have the identity
  scale.
\<close>

definition json_num :: "json \<Rightarrow> flt option" where
  "json_num j = (case j of JInt i \<Rightarrow> Some (of_int i) | JFloat x \<Rightarrow> Some x
     | JBool b \<Rightarrow> Some (if b then 1 else 0) | _ \<Rightarrow> None)"

definition scale_pair :: "json option \<Rightarrow> (flt \<times> flt) option" where
  "scale_pair v = (case v of
     Some (JArr [m, s]) \<Rightarrow>
       Option.bind (json_num m) (\<lambda>m. Option.bind (json_num s) (\<lambda>s. Some (m, max s (1 / 1000000))))
   | _ \<Rightarrow> None)"

definition fx_scale :: "feature_extractor \<Rightarrow> string \<Rightarrow> nat \<Rightarrow> (flt \<times> flt) option" where
  "fx_scale x device_type index =
     Option.bind (json_dict (fx_stats x)) (\<lambda>stats.
       case dget SENSOR_FIELDS device_type of
         None \<Rightarrow> Some (0, 1)
       | Some (f0, f1) \<Rightarrow>
           if falsy (dget stats device_type) then Some (0, 1)
           else Option.bind (Option.bind (dget stats device_type) json_dict) (\<lambda>type_stats.
             scale_pair (dget type_stats (if index = 0 then f0 else f1))))"

text \<open>\<open>statistics.median\<close> of a non-empty sequence.\<close>

definition median :: "flt list \<Rightarrow> flt" where
  "median xs = (let ys = sort xs; n = length ys; i = n div 2
     in if odd n then ys ! i else (ys ! (i - 1) + ys ! i) / 2)"

definition clip :: "flt \<Rightarrow> flt" where
  "clip x = max (- FEATURE_CLIP) (min FEATURE_CLIP x)"

text \<open>The row of a reading; the window is written after every call that may raise.\<close>

definition extract_row :: "codec \<Rightarrow> telemetry_reading \<Rightarrow> feature_extractor \<Rightarrow> feature_extractor \<times> flt list option" where
  "extract_row c reading x =
     (let device_key = tr_device_id reading; ty = tr_device_type reading in
      case (fx_values c reading, fx_scale x ty 0, fx_scale x ty 1) of
        (Some (a, b), Some (mean_a, std_a), Some (mean_b, std_b)) \<Rightarrow>
          (let window = dget_or (fx_windows x) device_key [];
               full = (length window \<ge> MIN_HISTORY);
               dev_a = (if full then (a - median (map fst window)) / std_a else 0);
               dev_b = (if full then (b - median (map snd window)) / std_b else 0);
               x = x\<lparr>fx_windows := dset device_key (deque_append (fx_window_size x) (a, b) window) (fx_windows x)\<rparr>;
               z_a = (if dhas SENSOR_FIELDS ty then (a - mean_a) / std_a else 0);
               z_b = (if dhas SENSOR_FIELDS ty then (b - mean_b) / std_b else 0);
               one_hot = map (\<lambda>t. if ty = t then 1 else 0) DEVICE_TYPES
           in (x, Some (map clip ([z_a, z_b, dev_a, dev_b] @ one_hot))))
      | _ \<Rightarrow> (x, None))"

definition clear_window :: "string \<Rightarrow> feature_extractor \<Rightarrow> feature_extractor" where
  "clear_window device_id x = x\<lparr>fx_windows := ddel device_id (fx_windows x)\<rparr>"

definition clear_all :: "feature_extractor \<Rightarrow> feature_extractor" where
  "clear_all x = x\<lparr>fx_windows := []\<rparr>"

definition tracked_devices :: "feature_extractor \<Rightarrow> nat" where
  "tracked_devices x = length (fx_windows x)"

subsection \<open>The row\<close>

definition windows_ok :: "feature_extractor \<Rightarrow> bool" where
  "windows_ok x \<longleftrightarrow> distinct (dkeys (fx_windows x)) \<and>
     dall (\<lambda>k w. length w \<le> fx_window_size x) (fx_windows x)"

lemma clip_range: "- FEATURE_CLIP \<le> clip x \<and> clip x \<le> FEATURE_CLIP"
  by (simp add: clip_def FEATURE_CLIP_def)

lemma clip_id: "\<bar>x\<bar> \<le> FEATURE_CLIP \<Longrightarrow> clip x = x"
  by (auto simp: clip_def)

lemma extract_row_cases:
  obtains (raises) "extract_row c r x = (x, None)"
    | (row) a b ma sa mb sb where "fx_values c r = Some (a, b)" "fx_scale x (tr_device_type r) 0 = Some (ma, sa)"
        "fx_scale x (tr_device_type r) 1 = Some (mb, sb)"
        "snd (extract_row c r x) \<noteq> None"
        "fst (extract_row c r x) = x\<lparr>fx_windows := dset (tr_device_id r)
           (deque_append (fx_window_size x) (a, b) (dget_or (fx_windows x) (tr_device_id r) [])) (fx_windows x)\<rparr>"
proof -
  consider "fx_values c r = None \<or> fx_scale x (tr_device_type r) 0 = None \<or> fx_scale x (tr_device_type r) 1 = None"
    | a b ma sa mb sb where "fx_values c r = Some (a, b)" "fx_scale x (tr_device_type r) 0 = Some (ma, sa)"
        "fx_scale x (tr_device_type r) 1 = Some (mb, sb)"
    by (metis option.exhaust surj_pair)
  then show ?thesis
  proof cases
    case 1
    then have "extract_row c r x = (x, None)"
      by (auto simp: extract_row_def Let_def split: option.split)
    then show ?thesis by (rule raises)
  next
    case (2 a b ma sa mb sb)
    then show ?thesis by (intro row[of a b ma sa mb sb]) (simp_all add: extract_row_def Let_def)
  qed
qed

definition row_ok :: "flt list \<Rightarrow> bool" where
  "row_ok row \<longleftrightarrow> length row = N_FEATURES \<and> (\<forall>v \<in> set row. - FEATURE_CLIP \<le> v \<and> v \<le> FEATURE_CLIP)"

lemma extract_row_shape:
  assumes "extract_row c r x = (x', Some row)"
  shows "row_ok row"
  using assms clip_range
  by (auto simp: row_ok_def extract_row_def Let_def N_FEATURES_def split: option.splits)

lemma extract_row_raises: "extract_row c r x = (x', None) \<Longrightarrow> x' = x"
  by (rule extract_row_cases[of c r x]) auto

lemma windows_ok_row: "windows_ok x \<Longrightarrow> windows_ok (fst (extract_row c r x))"
  by (rule extract_row_cases[of c r x])
    (auto simp: windows_ok_def deque_append_length intro!: dall_dset)

lemma row_config [simp]:
  "fx_window_size (fst (extract_row c r x)) = fx_window_size x"
  "fx_stats (fst (extract_row c r x)) = fx_stats x"
  by (rule extract_row_cases[of c r x]; simp)+

lemma scale_pair_positive: "scale_pair v = Some (m, s) \<Longrightarrow> 0 < s"
  unfolding scale_pair_def
  by (auto simp: less_max_iff_disj bind_eq_Some_conv split: option.split_asm json.split_asm list.split_asm)

lemma scale_positive: "fx_scale x t i = Some (m, s) \<Longrightarrow> 0 < s"
  unfolding fx_scale_def bind_eq_Some_conv
  by (cases "dget SENSOR_FIELDS t"; cases "i = 0")
    (auto simp: bind_eq_Some_conv split_beta dest: scale_pair_positive split: if_split_asm)

text \<open>With less than \<open>MIN_HISTORY\<close> readings in the window the two deviations are zero.\<close>

lemma short_history:
  assumes "extract_row c r x = (x', Some row)"
    and "length (dget_or (fx_windows x) (tr_device_id r) []) < MIN_HISTORY"
  shows "row ! 2 = 0 \<and> row ! 3 = 0"
proof -
  have "clip 0 = 0" by (rule clip_id) (simp add: FEATURE_CLIP_def)
  then show ?thesis using assms
    by (auto simp: extract_row_def Let_def split: option.splits prod.splits)
qed

lemma window_short:
  assumes "windows_ok x" "fx_window_size x < MIN_HISTORY"
  shows "length (dget_or (fx_windows x) d []) < MIN_HISTORY"
proof (cases "dget (fx_windows x) d")
  case None
  then show ?thesis using assms(2) by (simp add: dget_or_def MIN_HISTORY_def)
next
  case (Some w)
  then have "length w \<le> fx_window_size x" using assms(1) dall_get by (fastforce simp: windows_ok_def)
  then show ?thesis using Some assms(2) by (simp add: dget_or_def)
qed

subsection \<open>The median\<close>

lemma sorted_below:
  assumes "sorted ys" "i < length ys" "ys ! i < (l :: flt)"
  shows "Suc i \<le> length [y \<leftarrow> ys. y < l]"
proof -
  have "\<forall>y \<in> set (take (Suc i) ys). y < l"
    using assms by (auto simp: in_set_conv_nth less_Suc_eq_le) (meson le_less_trans sorted_nth_mono)
  then have "[y \<leftarrow> take (Suc i) ys. y < l] = take (Suc i) ys" by simp
  moreover have "length [y \<leftarrow> take (Suc i) ys. y < l] \<le> length [y \<leftarrow> ys. y < l]"
    by (metis append_take_drop_id filter_append le_add1 length_append)
  ultimately show ?thesis using assms(2) by simp
qed

lemma sorted_above:
  assumes "sorted ys" "i < length ys" "ys ! i > (u :: flt)"
  shows "length ys - i \<le> length [y \<leftarrow> ys. y > u]"
proof -
  have "\<forall>y \<in> set (drop i ys). y > u"
  proof
    fix y assume "y \<in> set (drop i ys)"
    then obtain j where j: "j < length ys - i" "y = ys ! (i + j)" by (auto simp: in_set_conv_nth)
    then have "ys ! i \<le> y" using assms(1) by (auto intro!: sorted_nth_mono)
    then show "y > u" using assms(3) by simp
  qed
  then have "[y \<leftarrow> drop i ys. y > u] = drop i ys" by simp
  moreover have "length [y \<leftarrow> drop i ys. y > u] \<le> length [y \<leftarrow> ys. y > u]"
    by (metis append_take_drop_id filter_append le_add2 length_append)
  ultimately show ?thesis by simp
qed

lemma length_filter_sort: "length [y \<leftarrow> sort xs. P y] = length [y \<leftarrow> xs. P y]"
  by (metis filter_sort length_sort)

text \<open>As long as fewer than half of the values are outliers, the median is between the bounds of the others.\<close>

lemma median_robust:
  assumes "2 * length [x \<leftarrow> xs. \<not> (l \<le> x \<and> x \<le> u)] < length xs"
  shows "l \<le> median xs \<and> median xs \<le> u"
proof -
  define ys where "ys = sort xs"
  define n where "n = length ys"
  have s: "sorted ys" "n = length xs" by (simp_all add: ys_def n_def)
  have out: "length [y \<leftarrow> ys. P y] \<le> length [x \<leftarrow> xs. \<not> (l \<le> x \<and> x \<le> u)]"
    if "\<And>y. P y \<Longrightarrow> \<not> (l \<le> y \<and> y \<le> u)" for P
  proof -
    have "length [y \<leftarrow> ys. P y] = length [x \<leftarrow> xs. P x]" by (simp add: ys_def length_filter_sort)
    also have "\<dots> \<le> length [x \<leftarrow> xs. \<not> (l \<le> x \<and> x \<le> u)]"
      using that by (induction xs) auto
    finally show ?thesis .
  qed
  have b: "l \<le> ys ! i" if "i < n" "n \<le> 2 * Suc i" for i
  proof (rule ccontr)
    assume "\<not> l \<le> ys ! i"
    then have "Suc i \<le> length [y \<leftarrow> ys. y < l]" using that sorted_below[OF s(1)] by (simp add: n_def not_le)
    also have "\<dots> \<le> length [x \<leftarrow> xs. \<not> (l \<le> x \<and> x \<le> u)]" by (rule out) auto
    finally show False using assms that s(2) by simp
  qed
  have t: "ys ! i \<le> u" if "i < n" "2 * i \<le> n" for i
  proof (rule ccontr)
    assume "\<not> ys ! i \<le> u"
    then have "n - i \<le> length [y \<leftarrow> ys. y > u]" using that sorted_above[OF s(1)] by (simp add: n_def not_le)
    also have "\<dots> \<le> length [x \<leftarrow> xs. \<not> (l \<le> x \<and> x \<le> u)]" by (rule out) auto
    finally show False using assms that s(2) by linarith
  qed
  have n: "0 < n" using assms s(2) by (cases xs) auto
  show ?thesis
  proof (cases "odd n")
    case True
    then have "n div 2 < n" "n \<le> 2 * Suc (n div 2)" "2 * (n div 2) \<le> n" by presburger+
    then show ?thesis using b t True
      unfolding median_def Let_def ys_def[symmetric] n_def[symmetric] by simp
  next
    case False
    then have i: "n div 2 < n" "n div 2 - 1 < n" "n \<le> 2 * Suc (n div 2 - 1)" "n \<le> 2 * Suc (n div 2)"
      "2 * (n div 2) \<le> n" "2 * (n div 2 - 1) \<le> n" using n by presburger+
    then have "l \<le> ys ! (n div 2 - 1)" "l \<le> ys ! (n div 2)" "ys ! (n div 2 - 1) \<le> u" "ys ! (n div 2) \<le> u"
      using b t by blast+
    then show ?thesis using False
      unfolding median_def Let_def ys_def[symmetric] n_def[symmetric] by simp
  qed
qed

end
