(* ===== verification/Inference.thy ===== *)
theory Inference imports Features begin

section \<open>Inference\<close>

text \<open>
  \<open>ml_inference/services/inference_engine.py\<close>, \<open>model_manager.py\<close>, \<open>anomaly_detector.py\<close> and the
  routers \<open>inference.py\<close> and \<open>models.py\<close>. An ONNX session is a function from the feature rows to the
  reconstruction errors that may raise; files, the model registry and the runtime that opens a session
  are the record \<open>model_env\<close>, an argument. Single precision is not modelled.
\<close>

type_synonym session = "flt list list \<Rightarrow> flt list option"

record 'w model_env =
  me_read_metadata :: "'w \<Rightarrow> string \<Rightarrow> json option"
  me_session :: "'w \<Rightarrow> string \<Rightarrow> session option"
  me_onnx_files :: "'w \<Rightarrow> string \<Rightarrow> string list"
  me_exists :: "'w \<Rightarrow> string \<Rightarrow> bool"
  me_latest :: "('w, unit, json) action"
  me_download :: "string \<Rightarrow> string \<Rightarrow> ('w, unit, unit) action"
  me_str :: "json \<Rightarrow> string"

datatype ml_error = NoModelLoaded | SessionError | LoadError | RegistryError | ValidationError | StoreError

record inference_engine =
  ie_session :: "session option"
  ie_model_name :: json
  ie_model_version :: json
  ie_loaded_at :: "time option"
  ie_metadata :: json_object
  ie_error_threshold :: flt

definition engine_init :: inference_engine where
  "engine_init = \<lparr>ie_session = None, ie_model_name = JStr '''', ie_model_version = JStr '''',
     ie_loaded_at = None, ie_metadata = [], ie_error_threshold = 1\<rparr>"

text \<open>\<open>Path(p).with_suffix(".json")\<close> for a path that ends in \<open>.onnx\<close>, and \<open>s.rsplit(sep, 1)[0]\<close>.\<close>

definition before_last :: "string \<Rightarrow> string \<Rightarrow> string" where
  "before_last sep s =
     (case rev [i \<leftarrow> [0..<length s]. take (length sep) (drop i s) = sep] of
        [] \<Rightarrow> s | i # _ \<Rightarrow> take i s)"

definition sidecar :: "string \<Rightarrow> string" where
  "sidecar model_path = before_last ''.onnx'' model_path @ ''.json''"

definition or_meta :: "string \<Rightarrow> json_object \<Rightarrow> string \<Rightarrow> json" where
  "or_meta given metadata key = (if given \<noteq> '''' then JStr given else dget_or metadata key (JStr ''''))"

text \<open>
  The assignments in the order of the code: the session and the metadata are there when the conversion
  of the threshold raises.
\<close>

definition load_model :: "codec \<Rightarrow> 'w model_env \<Rightarrow> 'w \<Rightarrow> time \<Rightarrow> string \<Rightarrow> string \<Rightarrow> string \<Rightarrow>
    (inference_engine, ml_error, unit) action" where
  "load_model c E w now model_path model_name model_version e =
     (case Option.bind (me_read_metadata E w (sidecar model_path)) json_dict of
        None \<Rightarrow> raise LoadError e
      | Some metadata \<Rightarrow>
          (case me_session E w model_path of
             None \<Rightarrow> raise LoadError e
           | Some session \<Rightarrow>
               let e = e\<lparr>ie_session := Some session, ie_metadata := metadata\<rparr> in
               (case Option.bind (dget metadata ''error_threshold'') (to_float c) of
                  None \<Rightarrow> raise LoadError e
                | Some threshold \<Rightarrow>
                    ret () (e\<lparr>ie_error_threshold := threshold,
                      ie_model_name := or_meta model_name metadata ''model_name'',
                      ie_model_version := or_meta model_version metadata ''model_version'',
                      ie_loaded_at := Some now\<rparr>))))"

definition is_loaded :: "inference_engine \<Rightarrow> bool" where
  "is_loaded e \<longleftrightarrow> ie_session e \<noteq> None"

definition predict :: "inference_engine \<Rightarrow> flt list list \<Rightarrow> ml_error + flt list" where
  "predict e features =
     (case ie_session e of
        None \<Rightarrow> Inl NoModelLoaded
      | Some run \<Rightarrow> (case run features of None \<Rightarrow> Inl SessionError | Some errors \<Rightarrow> Inr errors))"

text \<open>A quotient of numpy: dividing by zero gives an infinity or nan, it does not raise.\<close>

datatype np_float = Num flt | PosInf | NegInf | NaN

definition np_divide :: "flt \<Rightarrow> flt \<Rightarrow> np_float" where
  "np_divide a b = (if b \<noteq> 0 then Num (a / b) else if a = 0 then NaN else if a > 0 then PosInf else NegInf)"

definition np_gt :: "np_float \<Rightarrow> flt \<Rightarrow> bool" where
  "np_gt x t = (case x of Num v \<Rightarrow> v > t | PosInf \<Rightarrow> True | _ \<Rightarrow> False)"

definition np_le :: "np_float \<Rightarrow> flt \<Rightarrow> bool" where
  "np_le x t = (case x of Num v \<Rightarrow> v \<le> t | NegInf \<Rightarrow> True | _ \<Rightarrow> False)"

text \<open>What a pydantic field with bounds 0 and 1 accepts.\<close>

definition unit_score :: "np_float \<Rightarrow> flt option" where
  "unit_score x = (case x of Num v \<Rightarrow> if 0 \<le> v \<and> v \<le> 1 then Some v else None | _ \<Rightarrow> None)"

definition score :: "inference_engine \<Rightarrow> flt list list \<Rightarrow> ml_error + np_float list" where
  "score e features =
     (case predict e features of
        Inl x \<Rightarrow> Inl x
      | Inr errors \<Rightarrow> Inr (map (\<lambda>err. np_divide err (err + ie_error_threshold e)) errors))"

subsection \<open>Model management\<close>

text \<open>\<open>load_initial_model\<close>: the newest file first; \<open>me_onnx_files\<close> lists them in that order.\<close>

definition load_initial_model :: "codec \<Rightarrow> 'w model_env \<Rightarrow> 'w \<Rightarrow> time \<Rightarrow> string \<Rightarrow>
    (inference_engine, ml_error, unit) action" where
  "load_initial_model c E w now model_dir e =
     (case me_onnx_files E w model_dir of
        [] \<Rightarrow> ret () e
      | model_path # _ \<Rightarrow> load_model c E w now model_path '''' '''' e)"

text \<open>\<open>hot_swap\<close> opens a first session only to validate the file.\<close>

definition hot_swap :: "codec \<Rightarrow> 'w model_env \<Rightarrow> 'w \<Rightarrow> time \<Rightarrow> string \<Rightarrow>
    (inference_engine, ml_error, unit) action" where
  "hot_swap c E w now new_model_path e =
     (case me_session E w new_model_path of
        None \<Rightarrow> raise LoadError e
      | Some _ \<Rightarrow> load_model c E w now new_model_path '''' '''' e)"

definition check_for_updates :: "'w model_env \<Rightarrow> 'w \<Rightarrow> 'w \<times> json option" where
  "check_for_updates E w = (case me_latest E w of (w, Inl _) \<Rightarrow> (w, None) | (w, Inr j) \<Rightarrow> (w, Some j))"

text \<open>\<open>os.path.join\<close> of two components.\<close>

definition path_join :: "string \<Rightarrow> string \<Rightarrow> string" where
  "path_join a b =
     (if b \<noteq> [] \<and> hd b = CHR ''/'' then b
      else if a = [] \<or> last a = CHR ''/'' then a @ b else a @ ''/'' @ b)"

text \<open>
  Null means that nothing is known of a newer model. A response that is not an object, or a URL that is
  not a string, raises.
\<close>

definition check_and_download :: "'w model_env \<Rightarrow> string \<Rightarrow> ('w, ml_error, string option) action" where
  "check_and_download E model_dir w =
     (case check_for_updates E w of
        (w, None) \<Rightarrow> ret None w
      | (w, Some JNull) \<Rightarrow> ret None w
      | (w, Some (JObj latest)) \<Rightarrow>
          let version = dget_or latest ''version'' (JStr ''unknown'');
              name = dget_or latest ''name'' (JStr ''model'');
              target_path = path_join model_dir (me_str E name @ ''_v'' @ me_str E version @ ''.onnx'')
          in if falsy (dget latest ''download_url'') then ret None w
             else if me_exists E w target_path then ret None w
             else (case Option.bind (dget latest ''download_url'') json_str of
                None \<Rightarrow> raise RegistryError w
              | Some download_url \<Rightarrow>
                  (case (if falsy (dget latest ''metadata_url'')
                         then Some (before_last ''.onnx'' download_url @ ''.json'')
                         else Option.bind (dget latest ''metadata_url'') json_str) of
                     None \<Rightarrow> raise RegistryError w
                   | Some metadata_url \<Rightarrow>
                       (case me_download E metadata_url (before_last ''.onnx'' target_path @ ''.json'') w of
                          (w, Inl _) \<Rightarrow> raise RegistryError w
                        | (w, Inr _) \<Rightarrow>
                            (case me_download E download_url target_path w of
                               (w, Inl _) \<Rightarrow> raise RegistryError w
                             | (w, Inr _) \<Rightarrow> ret (Some target_path) w))))
      | (w, Some _) \<Rightarrow> raise RegistryError w)"

datatype reload_status = Unchanged | Reloaded

record model_info =
  mi_model_name :: json
  mi_model_version :: json
  mi_loaded_at :: "time option"
  mi_is_loaded :: bool

definition get_current_model :: "inference_engine \<Rightarrow> model_info" where
  "get_current_model e = \<lparr>mi_model_name = ie_model_name e, mi_model_version = ie_model_version e,
     mi_loaded_at = ie_loaded_at e, mi_is_loaded = is_loaded e\<rparr>"

record 'w ml_app =
  ma_world :: 'w
  ma_engine :: inference_engine
  ma_extractor :: feature_extractor

text \<open>The endpoint; every exception becomes a 500, and what was done before it stays.\<close>

definition reload_model :: "codec \<Rightarrow> 'w model_env \<Rightarrow> time \<Rightarrow> string \<Rightarrow>
    ('w ml_app, http_error, reload_status \<times> model_info) action" where
  "reload_model c E now model_dir a =
     (case check_and_download E model_dir (ma_world a) of
        (w, Inl _) \<Rightarrow> raise (HTTPError 500) (a\<lparr>ma_world := w\<rparr>)
      | (w, Inr None) \<Rightarrow> ret (Unchanged, get_current_model (ma_engine a)) (a\<lparr>ma_world := w\<rparr>)
      | (w, Inr (Some new_model_path)) \<Rightarrow>
          (case hot_swap c E w now new_model_path (ma_engine a) of
             (e, Inl _) \<Rightarrow> raise (HTTPError 500) (a\<lparr>ma_world := w, ma_engine := e\<rparr>)
           | (e, Inr _) \<Rightarrow>
               let a = a\<lparr>ma_world := w, ma_engine := e\<rparr> in
               (case dget (ie_metadata e) ''feature_stats'' of
                  None \<Rightarrow> raise (HTTPError 500) a
                | Some stats \<Rightarrow>
                    ret (Reloaded, get_current_model e)
                      (a\<lparr>ma_extractor := set_stats stats (ma_extractor a)\<rparr>))))"

subsection \<open>Lemmas\<close>

text \<open>The score of a reconstruction error, for a calibrated threshold.\<close>

definition anomaly_score :: "flt \<Rightarrow> flt \<Rightarrow> flt" where
  "anomaly_score threshold err = err / (err + threshold)"

lemma np_divide_score:
  "0 \<le> err \<Longrightarrow> 0 < t \<Longrightarrow> np_divide err (err + t) = Num (anomaly_score t err)"
  by (simp add: np_divide_def anomaly_score_def)

lemma anomaly_score_unit: "0 \<le> err \<Longrightarrow> 0 < t \<Longrightarrow> 0 \<le> anomaly_score t err \<and> anomaly_score t err < 1"
  by (simp add: anomaly_score_def)

lemma anomaly_score_mono:
  "0 \<le> a \<Longrightarrow> a < b \<Longrightarrow> 0 < t \<Longrightarrow> anomaly_score t a < anomaly_score t b"
  by (simp add: anomaly_score_def divide_less_eq less_divide_eq algebra_simps)

lemma anomaly_score_half: "0 \<le> err \<Longrightarrow> 0 < t \<Longrightarrow> 1 / 2 < anomaly_score t err \<longleftrightarrow> t < err"
  by (simp add: anomaly_score_def less_divide_eq)

lemma score_eq:
  "predict e rows = Inr errors \<Longrightarrow> 0 < ie_error_threshold e \<Longrightarrow> list_all (\<lambda>x. 0 \<le> x) errors \<Longrightarrow>
   score e rows = Inr (map (\<lambda>err. Num (anomaly_score (ie_error_threshold e) err)) errors)"
  by (simp add: score_def list_all_iff np_divide_score)

lemma load_model_cases:
  assumes "load_model c E w now p nm v e = (e', r)"
  obtains (refused) "e' = e" "r = Inl LoadError"
    | (partly) s m where "me_session E w p = Some s" "me_read_metadata E w (sidecar p) = Some (JObj m)"
        "Option.bind (dget m ''error_threshold'') (to_float c) = None"
        "e' = e\<lparr>ie_session := Some s, ie_metadata := m\<rparr>" "r = Inl LoadError"
    | (loaded) s m t where "me_session E w p = Some s" "me_read_metadata E w (sidecar p) = Some (JObj m)"
        "Option.bind (dget m ''error_threshold'') (to_float c) = Some t"
        "ie_session e' = Some s" "ie_metadata e' = m" "ie_error_threshold e' = t" "r = Inr ()"
  using assms
  by (auto simp: load_model_def Let_def bind_eq_Some_conv json_dict_Some split: option.splits)

end
