(* ===== verification/Detector.thy ===== *)
theory Detector imports Inference begin

section \<open>Anomaly detector\<close>

text \<open>
  \<open>ml_inference/services/anomaly_detector.py\<close> and \<open>ml_inference/routers/inference.py\<close>. A batch is
  scored by one call; the alerts and the acknowledgement go to the server in one pipeline at the end.
\<close>

datatype pipe_command = PXadd string fields "int option" | PXack string string "string list"

text \<open>
  \<open>pipeline(transaction=False).execute()\<close>: every command is sent, in order, and the first error is
  raised afterwards.
\<close>

fun pipe_run :: "'s stream_server \<Rightarrow> pipe_command list \<Rightarrow> 's \<Rightarrow> 's \<times> redis_error list" where
  "pipe_run S [] s = (s, [])"
| "pipe_run S (PXadd st f ml # cs) s =
     (case sv_xadd S st f ml True s of (s, r) \<Rightarrow>
        (case pipe_run S cs s of (s, es) \<Rightarrow> (s, case r of Inl e \<Rightarrow> e # es | Inr _ \<Rightarrow> es)))"
| "pipe_run S (PXack st g ids # cs) s =
     (case sv_xack S st g ids s of (s, r) \<Rightarrow>
        (case pipe_run S cs s of (s, es) \<Rightarrow> (s, case r of Inl e \<Rightarrow> e # es | Inr _ \<Rightarrow> es)))"

definition pipe_execute :: "'s stream_server \<Rightarrow> pipe_command list \<Rightarrow> ('s, redis_error, unit) action" where
  "pipe_execute S cs s = (case pipe_run S cs s of (s, []) \<Rightarrow> ret () s | (s, e # _) \<Rightarrow> raise e s)"

record detector_settings =
  ds_anomaly_threshold :: flt
  ds_alerts_stream_max_len :: int
  ds_batch_size :: nat
  ds_consumer_name :: string

record 's detector =
  dt_srv :: 's
  dt_engine :: inference_engine
  dt_extractor :: feature_extractor
  dt_running :: bool
  dt_uuids :: nat
  dt_anomalies :: "(string \<times> string, nat) dict"
  dt_consumed :: nat

text \<open>The first loop: malformed entries are skipped. It returns the readings and the rows.\<close>

fun extract_batch :: "codec \<Rightarrow> stream_entry list \<Rightarrow> feature_extractor \<Rightarrow>
    feature_extractor \<times> (telemetry_reading \<times> flt list) list" where
  "extract_batch c [] x = (x, [])"
| "extract_batch c ((entry_id, data) # es) x =
     (case from_stream_dict c data of
        None \<Rightarrow> extract_batch c es x
      | Some reading \<Rightarrow>
          (case extract_row c reading x of
             (x, None) \<Rightarrow> extract_batch c es x
           | (x, Some row) \<Rightarrow>
               (case extract_batch c es x of (x, rs) \<Rightarrow> (x, (reading, row) # rs))))"

definition alert_severity_of :: "np_float \<Rightarrow> alert_severity" where
  "alert_severity_of sc = (if np_gt sc (9/10) then CRITICAL else WARNING)"

definition alert_of :: "codec \<Rightarrow> uuid \<Rightarrow> time \<Rightarrow> json \<Rightarrow> telemetry_reading \<Rightarrow> np_float \<Rightarrow> alert option" where
  "alert_of c alert_id now model_version reading sc =
     Option.bind (unit_score sc) (\<lambda>v. Option.bind (json_str model_version) (\<lambda>version.
       make_alert alert_id now (tr_device_id reading) v version (alert_severity_of sc)
         [(''reading'', JObj (tr_payload reading))]))"

text \<open>The second loop: it appends to the pipeline and raises when an alert does not validate.\<close>

fun alert_loop :: "codec \<Rightarrow> (nat \<Rightarrow> uuid) \<Rightarrow> time \<Rightarrow> detector_settings \<Rightarrow> (telemetry_reading \<times> np_float) list \<Rightarrow>
    pipe_command list \<Rightarrow> ('s detector, ml_error, pipe_command list) action" where
  "alert_loop c uuid4 now cfg [] pipe d = ret pipe d"
| "alert_loop c uuid4 now cfg ((reading, sc) # rs) pipe d =
     (if np_le sc (ds_anomaly_threshold cfg) then alert_loop c uuid4 now cfg rs pipe d
      else let u = uuid4 (dt_uuids d); d = d\<lparr>dt_uuids := dt_uuids d + 1\<rparr> in
        case alert_of c u now (ie_model_version (dt_engine d)) reading sc of
          None \<Rightarrow> raise ValidationError d
        | Some alert \<Rightarrow>
            alert_loop c uuid4 now cfg rs
              (pipe @ [PXadd ALERTS (alert_to_stream_dict c alert) (Some (ds_alerts_stream_max_len cfg))])
              (d\<lparr>dt_anomalies := dset (tr_device_type reading, severity_value (al_severity alert))
                   (dget_or (dt_anomalies d) (tr_device_type reading, severity_value (al_severity alert)) 0 + 1)
                   (dt_anomalies d)\<rparr>))"

definition process_batch :: "codec \<Rightarrow> (nat \<Rightarrow> uuid) \<Rightarrow> 's stream_server \<Rightarrow> detector_settings \<Rightarrow> time \<Rightarrow>
    stream_entry list \<Rightarrow> ('s detector, ml_error, unit) action" where
  "process_batch c uuid4 S cfg now es d =
     (let entry_ids = map fst es;
          (x, rs) = extract_batch c es (dt_extractor d);
          d = d\<lparr>dt_extractor := x\<rparr>;
          alerts = (if rs = [] then ret [] d
            else case score (dt_engine d) (map snd rs) of
              Inl e \<Rightarrow> raise e d
            | Inr scores \<Rightarrow> alert_loop c uuid4 now cfg (zip (map fst rs) scores) [] d)
      in case alerts of
           (d, Inl e) \<Rightarrow> raise e d
         | (d, Inr pipe) \<Rightarrow>
             (case pipe_execute S (pipe @ [PXack RAW_TELEMETRY ML_INFERENCE entry_ids]) (dt_srv d) of
                (s, Inl e) \<Rightarrow> raise StoreError (d\<lparr>dt_srv := s\<rparr>)
              | (s, Inr _) \<Rightarrow> ret () (d\<lparr>dt_srv := s, dt_consumed := dt_consumed d + length entry_ids\<rparr>)))"

text \<open>One iteration of \<open>run\<close>: every error is logged.\<close>

definition detector_cycle :: "codec \<Rightarrow> (nat \<Rightarrow> uuid) \<Rightarrow> 's stream_server \<Rightarrow> detector_settings \<Rightarrow> time \<Rightarrow>
    's detector \<Rightarrow> 's detector" where
  "detector_cycle c uuid4 S cfg now d =
     (case stream_read_group S RAW_TELEMETRY ML_INFERENCE (ds_consumer_name cfg) (ds_batch_size cfg) (dt_srv d) of
        (s, Inl e) \<Rightarrow> d\<lparr>dt_srv := s\<rparr>
      | (s, Inr []) \<Rightarrow> d\<lparr>dt_srv := s\<rparr>
      | (s, Inr es) \<Rightarrow> fst (process_batch c uuid4 S cfg now es (d\<lparr>dt_srv := s\<rparr>)))"

fun detector_run :: "codec \<Rightarrow> (nat \<Rightarrow> uuid) \<Rightarrow> 's stream_server \<Rightarrow> detector_settings \<Rightarrow> time list \<Rightarrow>
    's detector \<Rightarrow> 's detector" where
  "detector_run c uuid4 S cfg [] d = d"
| "detector_run c uuid4 S cfg (now # ts) d =
     (if \<not> dt_running d then d else detector_run c uuid4 S cfg ts (detector_cycle c uuid4 S cfg now d))"

definition detector_stop :: "'s detector \<Rightarrow> 's detector" where
  "detector_stop d = d\<lparr>dt_running := False\<rparr>"

subsection \<open>Synchronous inference\<close>

record inference_app =
  ia_engine :: inference_engine
  ia_extractor :: feature_extractor
  ia_threshold :: flt
  ia_count :: nat
  ia_total_latency_ms :: flt
  ia_anomaly_count :: nat

record prediction =
  pr_device_id :: uuid
  pr_anomaly_score :: flt
  pr_is_anomaly :: bool
  pr_latency_ms :: flt

definition count_prediction :: "flt \<Rightarrow> bool \<Rightarrow> inference_app \<Rightarrow> inference_app" where
  "count_prediction elapsed_ms is_anomaly a =
     (let a = a\<lparr>ia_count := ia_count a + 1, ia_total_latency_ms := ia_total_latency_ms a + elapsed_ms\<rparr>
      in if is_anomaly then a\<lparr>ia_anomaly_count := ia_anomaly_count a + 1\<rparr> else a)"

definition make_prediction :: "telemetry_reading \<Rightarrow> np_float \<Rightarrow> bool \<Rightarrow> flt \<Rightarrow> prediction option" where
  "make_prediction reading s is_anomaly latency =
     map_option (\<lambda>v. \<lparr>pr_device_id = tr_device_id reading, pr_anomaly_score = v,
       pr_is_anomaly = is_anomaly, pr_latency_ms = latency\<rparr>) (unit_score s)"

text \<open>An uncaught exception is answered with 500. The elapsed time is an argument.\<close>

definition predict_endpoint :: "codec \<Rightarrow> flt \<Rightarrow> telemetry_reading \<Rightarrow>
    (inference_app, http_error, prediction) action" where
  "predict_endpoint c elapsed_ms reading a =
     (if \<not> is_loaded (ia_engine a) then raise (HTTPError 503) a
      else case extract_row c reading (ia_extractor a) of
        (x, None) \<Rightarrow> raise (HTTPError 500) (a\<lparr>ia_extractor := x\<rparr>)
      | (x, Some row) \<Rightarrow>
          let a = a\<lparr>ia_extractor := x\<rparr> in
          (case score (ia_engine a) [row] of
             Inr (s # _) \<Rightarrow>
               let is_anomaly = np_gt s (ia_threshold a);
                   a = count_prediction elapsed_ms is_anomaly a
               in (case make_prediction reading s is_anomaly (py_round elapsed_ms 3) of
                     None \<Rightarrow> raise (HTTPError 500) a
                   | Some p \<Rightarrow> ret p a)
           | _ \<Rightarrow> raise (HTTPError 500) a))"

fun extract_all :: "codec \<Rightarrow> telemetry_reading list \<Rightarrow> feature_extractor \<Rightarrow> feature_extractor \<times> flt list list option" where
  "extract_all c [] x = (x, Some [])"
| "extract_all c (r # rs) x =
     (case extract_row c r x of
        (x, None) \<Rightarrow> (x, None)
      | (x, Some row) \<Rightarrow> (case extract_all c rs x of (x, q) \<Rightarrow> (x, map_option ((#) row) q)))"

fun prediction_loop :: "flt \<Rightarrow> (telemetry_reading \<times> np_float) list \<Rightarrow> prediction list \<Rightarrow>
    (inference_app, http_error, prediction list) action" where
  "prediction_loop per_item_ms [] ps a = ret ps a"
| "prediction_loop per_item_ms ((reading, s) # rs) ps a =
     (let is_anomaly = np_gt s (ia_threshold a);
          a = count_prediction per_item_ms is_anomaly a
      in case make_prediction reading s is_anomaly (py_round per_item_ms 3) of
           None \<Rightarrow> raise (HTTPError 500) a
         | Some p \<Rightarrow> prediction_loop per_item_ms rs (ps @ [p]) a)"

definition predict_batch_endpoint :: "codec \<Rightarrow> flt \<Rightarrow> telemetry_reading list \<Rightarrow>
    (inference_app, http_error, prediction list) action" where
  "predict_batch_endpoint c total_elapsed_ms readings a =
     (if \<not> is_loaded (ia_engine a) then raise (HTTPError 503) a
      else if readings = [] then raise (HTTPError 400) a
      else case extract_all c readings (ia_extractor a) of
        (x, None) \<Rightarrow> raise (HTTPError 500) (a\<lparr>ia_extractor := x\<rparr>)
      | (x, Some rows) \<Rightarrow>
          let a = a\<lparr>ia_extractor := x\<rparr> in
          (case score (ia_engine a) rows of
             Inl _ \<Rightarrow> raise (HTTPError 500) a
           | Inr scores \<Rightarrow>
               prediction_loop (total_elapsed_ms / of_nat (length readings)) (zip readings scores) [] a))"

definition inference_stats :: "inference_app \<Rightarrow> nat \<times> flt \<times> nat" where
  "inference_stats a =
     (let count = ia_count a;
          avg_latency = (if count > 0 then ia_total_latency_ms a / of_nat count else 0)
      in (count, py_round avg_latency 3, ia_anomaly_count a))"

subsection \<open>Alerts\<close>

text \<open>The commands a scored batch is to send: one alert per score above the threshold, in order.\<close>

fun expected_alerts :: "codec \<Rightarrow> (nat \<Rightarrow> uuid) \<Rightarrow> time \<Rightarrow> detector_settings \<Rightarrow> string \<Rightarrow> nat \<Rightarrow>
    (telemetry_reading \<times> flt) list \<Rightarrow> pipe_command list" where
  "expected_alerts c uuid4 now cfg version n [] = []"
| "expected_alerts c uuid4 now cfg version n ((reading, v) # rs) =
     (if v > ds_anomaly_threshold cfg then
        PXadd ALERTS (alert_to_stream_dict c
          \<lparr>al_alert_id = uuid4 n, al_device_id = tr_device_id reading, al_alert_type = ''anomaly_detected'',
           al_severity = (if v > 9/10 then CRITICAL else WARNING), al_timestamp = now, al_anomaly_score = v,
           al_model_version = version, al_details = [(''reading'', JObj (tr_payload reading))]\<rparr>)
          (Some (ds_alerts_stream_max_len cfg)) # expected_alerts c uuid4 now cfg version (Suc n) rs
      else expected_alerts c uuid4 now cfg version n rs)"

lemma alert_loop_keeps:
  "alert_loop c u now cfg rs pipe d = (d', r) \<Longrightarrow>
   dt_srv d' = dt_srv d \<and> dt_extractor d' = dt_extractor d \<and> dt_engine d' = dt_engine d \<and>
   dt_consumed d' = dt_consumed d \<and> dt_running d' = dt_running d"
proof (induction c u now cfg rs pipe d rule: alert_loop.induct)
  case (2 c u now cfg reading s rs pipe d)
  show ?case
  proof (cases "np_le s (ds_anomaly_threshold cfg)")
    case True
    then show ?thesis using 2 by simp
  next
    case False
    then show ?thesis using 2(2)[OF False refl refl] 2(3)
      by (cases "alert_of c (u (dt_uuids d)) now (ie_model_version (dt_engine d)) reading s")
        (auto simp: Let_def)
  qed
qed simp

lemma alert_of_num:
  "0 \<le> v \<Longrightarrow> v \<le> 1 \<Longrightarrow> alert_of c i now (JStr version) reading (Num v) = Some
     \<lparr>al_alert_id = i, al_device_id = tr_device_id reading, al_alert_type = ''anomaly_detected'',
      al_severity = (if v > 9/10 then CRITICAL else WARNING), al_timestamp = now, al_anomaly_score = v,
      al_model_version = version, al_details = [(''reading'', JObj (tr_payload reading))]\<rparr>"
  by (simp add: alert_of_def unit_score_def json_str_def make_alert_def alert_severity_of_def np_gt_def)

lemma alert_loop_expected:
  assumes "\<forall>v \<in> snd ` set rs. 0 \<le> v \<and> v \<le> 1" "ie_model_version (dt_engine d) = JStr version"
  shows "snd (alert_loop c u now cfg (map (\<lambda>(r, v). (r, Num v)) rs) pipe d) =
    Inr (pipe @ expected_alerts c u now cfg version (dt_uuids d) rs)"
  using assms
proof (induction rs arbitrary: pipe d)
  case (Cons rv rs)
  obtain r v where rv: "rv = (r, v)" by (cases rv)
  have v: "0 \<le> v" "v \<le> 1" using Cons.prems(1) rv by auto
  show ?case
  proof (cases "v \<le> ds_anomaly_threshold cfg")
    case True
    then show ?thesis using Cons rv by (simp add: np_le_def)
  next
    case False
    then show ?thesis using Cons rv by (simp add: np_le_def Let_def alert_of_num v)
  qed
qed simp

text \<open>A batch that raises before the pipeline is executed leaves the server as it was.\<close>

lemma process_batch_error:
  "process_batch c u S cfg now es d = (d', Inl e) \<Longrightarrow> e \<noteq> StoreError \<Longrightarrow> dt_srv d' = dt_srv d"
  by (auto simp: process_batch_def Let_def split: prod.splits sum.splits if_splits
      dest!: alert_loop_keeps)

lemma score_not_store: "score e rows \<noteq> Inl StoreError"
  by (auto simp: score_def predict_def split: option.splits)

text \<open>A batch whose scores are in the unit interval sends the expected alerts and acknowledges every entry.\<close>

lemma process_batch_sends:
  assumes "extract_batch c es (dt_extractor d) = (x, rs)"
    and "rs \<noteq> [] \<Longrightarrow> score (dt_engine d) (map snd rs) = Inr (map Num vs)"
    and "length vs = length rs" "\<forall>v \<in> set vs. 0 \<le> v \<and> v \<le> 1"
    and "ie_model_version (dt_engine d) = JStr version"
  shows "dt_srv (fst (process_batch c u S cfg now es d)) =
    fst (pipe_run S (expected_alerts c u now cfg version (dt_uuids d) (zip (map fst rs) vs) @
      [PXack RAW_TELEMETRY ML_INFERENCE (map fst es)]) (dt_srv d))"
proof -
  let ?d = "d\<lparr>dt_extractor := x\<rparr>"
  define al where "al = (if rs = [] then ret [] ?d
            else case score (dt_engine ?d) (map snd rs) of
              Inl e \<Rightarrow> raise e ?d
            | Inr scores \<Rightarrow> alert_loop c u now cfg (zip (map fst rs) scores) [] ?d)"
  have z: "zip (map fst rs) (map Num vs) = map (\<lambda>(r, v). (r, Num v)) (zip (map fst rs) vs)"
    by (simp add: zip_map2)
  have vs: "\<forall>v \<in> snd ` set (zip (map fst rs) vs). 0 \<le> v \<and> v \<le> 1"
    using assms(4) by (auto dest: set_zip_rightD)
  have "snd al = Inr (expected_alerts c u now cfg version (dt_uuids d) (zip (map fst rs) vs)) \<and> dt_srv (fst al) = dt_srv d"
  proof (cases "rs = []")
    case True
    then show ?thesis by (simp add: al_def)
  next
    case False
    have al: "al = alert_loop c u now cfg (map (\<lambda>(r, v). (r, Num v)) (zip (map fst rs) vs)) [] ?d"
      using assms(2)[OF False] False unfolding al_def z[symmetric] by simp
    obtain d' r where r: "al = (d', r)" by fastforce
    from alert_loop_keeps[OF r[unfolded al]] alert_loop_expected[OF vs, of ?d version c u now cfg "[]"] assms(5)
    show ?thesis unfolding al[symmetric] by (simp add: r)
  qed
  then obtain d' where al: "al = (d', Inr (expected_alerts c u now cfg version (dt_uuids d) (zip (map fst rs) vs)))"
    "dt_srv d' = dt_srv d" by (cases al) auto
  have "process_batch c u S cfg now es d = (case al of
           (d, Inl e) \<Rightarrow> raise e d
         | (d, Inr pipe) \<Rightarrow>
             (case pipe_execute S (pipe @ [PXack RAW_TELEMETRY ML_INFERENCE (map fst es)]) (dt_srv d) of
                (s, Inl e) \<Rightarrow> raise StoreError (d\<lparr>dt_srv := s\<rparr>)
              | (s, Inr _) \<Rightarrow> ret () (d\<lparr>dt_srv := s, dt_consumed := dt_consumed d + length (map fst es)\<rparr>)))"
    unfolding process_batch_def Let_def assms(1) al_def by (simp only: prod.case)
  then show ?thesis using al by (auto simp: pipe_execute_def split: prod.split list.split)
qed

subsection \<open>Batches\<close>

lemma extract_batch_shape:
  "extract_batch c es x = (x', rs) \<Longrightarrow> windows_ok x \<Longrightarrow>
   windows_ok x' \<and> length rs \<le> length es \<and>
   (\<forall>(r, row) \<in> set rs. row_ok row)"
proof (induction es arbitrary: x x' rs)
  case (Cons e es)
  obtain i data where e: "e = (i, data)" by (cases e)
  show ?case
  proof (cases "from_stream_dict c data")
    case None
    then show ?thesis using Cons.prems Cons.IH[of x x' rs] e by auto
  next
    case (Some r)
    obtain y q where q: "extract_row c r x = (y, q)" by fastforce
    have ok: "windows_ok y" using windows_ok_row[OF Cons.prems(2), of c r] q by simp
    obtain z rs' where z: "extract_batch c es y = (z, rs')" by fastforce
    show ?thesis using Cons.prems Cons.IH[OF z ok] Some q z e extract_row_shape[of c r x y]
      by (cases q) auto
  qed
qed simp

text \<open>The extractor counts as the batch call does, one reading at a time.\<close>

lemma prediction_loop_count:
  "prediction_loop ms rs ps a = (a', Inr qs) \<Longrightarrow>
   ia_count a' = ia_count a + length rs \<and> length qs = length ps + length rs \<and>
   ia_anomaly_count a' = ia_anomaly_count a + length [(r, s) \<leftarrow> rs. np_gt s (ia_threshold a)] \<and>
   ia_threshold a' = ia_threshold a"
proof (induction ms rs ps a rule: prediction_loop.induct)
  case (2 ms r s rs ps a)
  let ?a = "count_prediction ms (np_gt s (ia_threshold a)) a"
  have t: "ia_threshold ?a = ia_threshold a" "ia_count ?a = ia_count a + 1"
    "ia_anomaly_count ?a = ia_anomaly_count a + (if np_gt s (ia_threshold a) then 1 else 0)"
    by (simp_all add: count_prediction_def Let_def)
  show ?case using 2(1)[OF refl refl] 2(2) t
    by (cases "make_prediction r s (np_gt s (ia_threshold a)) (py_round ms 3)") (auto simp: Let_def)
qed simp

end
