(* ===== verification/EdgeTraining.thy ===== *)
theory EdgeTraining imports Simulator Networks Detector begin

section \<open>Training the edge model\<close>

text \<open>
  \<open>training_scripts/train_edge_autoencoder.py\<close>: telemetry of simulated devices, the statistics and features,
  the training loop, the calibration and the two files the inference service loads; and the start of
  that service, \<open>ml_inference/main.py\<close>. The gradient step of torch, its random permutations and initial weights, the
  quantiles and the deviation of numpy, and the conversion of a network into an ONNX session are the
  record \<open>torch_env\<close>, an argument.
\<close>

record 'o torch_env =
  te_init :: initialiser
  te_optimizer :: 'o
  te_step :: "'o \<Rightarrow> autoencoder \<Rightarrow> vec list \<Rightarrow> 'o \<times> autoencoder"
  te_randperm :: "nat \<Rightarrow> nat list"
  te_shuffle :: "string list \<Rightarrow> string list"
  te_quantiles :: "rat list \<Rightarrow> rat list"
  te_std :: "rat list \<Rightarrow> rat"
  te_nan :: rat
  te_session :: "(vec \<Rightarrow> rat option) \<Rightarrow> session"
  te_version :: string

subsection \<open>Telemetry\<close>

definition DEVICE_CLASSES :: "string list" where
  "DEVICE_CLASSES = [''temperature_sensor'', ''pressure_sensor'', ''vibration_sensor'']"

text \<open>The comprehension over the classes; the ids are random UUIDs.\<close>

definition training_devices :: "rng \<Rightarrow> (nat \<Rightarrow> uuid) \<Rightarrow> nat \<Rightarrow> base_device list random" where
  "training_devices r uuid4 devices_per_type = do {
     ds \<leftarrow> State_Monad.traverse_list (\<lambda>(k, cls). new_device r cls (uuid4 k) 5)
       (List.enumerate 0 (concat (map (replicate devices_per_type) DEVICE_CLASSES)));
     give (map the ds) }"

type_synonym labelled = "telemetry_reading \<times> bool"

text \<open>One pass over the devices. A message that does not validate raises, which is None; \<open>clock\<close> is the text of the time.\<close>

fun device_pass :: "codec \<Rightarrow> rng \<Rightarrow> time \<Rightarrow> (nat \<Rightarrow> string) \<Rightarrow> rat \<Rightarrow> base_device list \<Rightarrow>
    (base_device list \<times> labelled list option) random" where
  "device_pass c r received clock anomaly_rate [] = give ([], Some [])"
| "device_pass c r received clock anomaly_rate (d # ds) = do {
     n \<leftarrow> State_Monad.get;
     x \<leftarrow> make_telemetry r (clock n) anomaly_rate d;
     rest \<leftarrow> device_pass c r received clock anomaly_rate ds;
     give (fst x # fst rest, case make_reading c received (fst (snd x)) of
       None \<Rightarrow> None | Some reading \<Rightarrow> map_option ((#) (reading, snd (snd x))) (snd rest)) }"

fun device_passes :: "codec \<Rightarrow> rng \<Rightarrow> time \<Rightarrow> (nat \<Rightarrow> string) \<Rightarrow> rat \<Rightarrow> nat \<Rightarrow> base_device list \<Rightarrow> labelled list option random" where
  "device_passes c r received clock anomaly_rate 0 ds = give (Some [])"
| "device_passes c r received clock anomaly_rate (Suc steps) ds = do {
     x \<leftarrow> device_pass c r received clock anomaly_rate ds;
     rest \<leftarrow> device_passes c r received clock anomaly_rate steps (fst x);
     give (case snd x of None \<Rightarrow> None | Some readings \<Rightarrow> map_option ((@) readings) rest) }"

definition generate_telemetry :: "codec \<Rightarrow> rng \<Rightarrow> time \<Rightarrow> (nat \<Rightarrow> string) \<Rightarrow> (nat \<Rightarrow> uuid) \<Rightarrow> nat \<Rightarrow> nat \<Rightarrow> rat \<Rightarrow>
    labelled list option random" where
  "generate_telemetry c r received clock uuid4 devices_per_type steps anomaly_rate = do {
     devices \<leftarrow> training_devices r uuid4 devices_per_type;
     device_passes c r received clock anomaly_rate steps devices }"

subsection \<open>Statistics and features\<close>

text \<open>A field that is missing or not a number raises. Without a reading the mean is \<open>te_nan\<close>.\<close>

definition field_values :: "labelled list \<Rightarrow> string \<Rightarrow> string \<Rightarrow> rat list option" where
  "field_values readings device_type field =
     those [Option.bind (dget (tr_payload r) field) json_num. (r, is_anomaly) \<leftarrow> readings,
       tr_device_type r = device_type \<and> \<not> is_anomaly]"

definition np_mean :: "'o torch_env \<Rightarrow> rat list \<Rightarrow> rat" where
  "np_mean T xs = (if xs = [] then te_nan T else sum_list xs / of_nat (length xs))"

definition field_stats :: "'o torch_env \<Rightarrow> labelled list \<Rightarrow> string \<Rightarrow> string \<Rightarrow> json option" where
  "field_stats T readings device_type field = map_option (\<lambda>values.
     JArr [JFloat (np_mean T values), JFloat (if values = [] then te_nan T else te_std T values)])
     (field_values readings device_type field)"

definition type_stats :: "'o torch_env \<Rightarrow> labelled list \<Rightarrow> string \<times> string \<times> string \<Rightarrow> (string \<times> json) option" where
  "type_stats T readings ff = (case ff of (device_type, f0, f1) \<Rightarrow>
     Option.bind (field_stats T readings device_type f0) (\<lambda>s0.
     Option.bind (field_stats T readings device_type f1) (\<lambda>s1. Some (device_type, JObj [(f0, s0), (f1, s1)]))))"

definition compute_feature_stats :: "'o torch_env \<Rightarrow> labelled list \<Rightarrow> json_object option" where
  "compute_feature_stats T readings = those (map (type_stats T readings) SENSOR_FIELDS)"

definition extract_training :: "codec \<Rightarrow> labelled list \<Rightarrow> json_object \<Rightarrow> nat \<Rightarrow>
    (flt list list \<times> bool list \<times> string list) option" where
  "extract_training c readings feature_stats window_size =
     map_option (\<lambda>x. (x, map snd readings, map (\<lambda>(r, _). tr_device_type r) readings))
       (snd (extract_all c (map fst readings) (fx_new window_size (Some (JObj feature_stats)))))"

subsection \<open>Training loop\<close>

text \<open>\<open>nn.MSELoss\<close> of a batch and its reconstruction: the mean over all entries.\<close>

definition mse_loss :: "'o torch_env \<Rightarrow> autoencoder \<Rightarrow> vec list \<Rightarrow> rat option" where
  "mse_loss T model batch = map_option (\<lambda>out. if batch = [] then te_nan T else mse (concat out) (concat batch))
     (those (map (ae_forward model) batch))"

text \<open>The loss is taken before the step; the total counts every row once.\<close>

fun train_batches :: "'o torch_env \<Rightarrow> vec list list \<Rightarrow> 'o \<times> autoencoder \<Rightarrow> rat \<Rightarrow> (('o \<times> autoencoder) \<times> rat) option" where
  "train_batches T [] (opt, model) summed = Some ((opt, model), summed)"
| "train_batches T (batch # bs) (opt, model) summed =
     Option.bind (mse_loss T model batch) (\<lambda>loss.
       train_batches T bs (te_step T opt model batch) (summed + loss * of_nat (length batch)))"

definition epoch_batches :: "nat list \<Rightarrow> vec list \<Rightarrow> vec list list" where
  "epoch_batches perm rows = map (\<lambda>k. map (\<lambda>i. rows ! i) (slice (256 * k) 256 perm)) [0..<(length rows + 255) div 256]"

record epoch_entry =
  ep_epoch :: nat
  ep_train_loss :: rat
  ep_val_loss :: rat

text \<open>Without training rows the mean loss divides by zero.\<close>

definition train_epoch :: "'o torch_env \<Rightarrow> vec list \<Rightarrow> vec list \<Rightarrow> nat \<Rightarrow> 'o \<times> autoencoder \<Rightarrow>
    (('o \<times> autoencoder) \<times> epoch_entry) option" where
  "train_epoch T x_train x_val epoch s =
     Option.bind (train_batches T (epoch_batches (te_randperm T epoch) x_train) s 0) (\<lambda>(s, summed).
     Option.bind (mse_loss T (snd s) x_val) (\<lambda>val_loss.
       if x_train = [] then None
       else Some (s, \<lparr>ep_epoch = epoch, ep_train_loss = summed / of_nat (length x_train), ep_val_loss = val_loss\<rparr>)))"

fun train_epochs :: "'o torch_env \<Rightarrow> vec list \<Rightarrow> vec list \<Rightarrow> nat list \<Rightarrow> 'o \<times> autoencoder \<Rightarrow>
    (autoencoder \<times> epoch_entry list) option" where
  "train_epochs T x_train x_val [] s = Some (snd s, [])"
| "train_epochs T x_train x_val (epoch # es) s =
     Option.bind (train_epoch T x_train x_val epoch s) (\<lambda>(s, entry).
       map_option (\<lambda>(model, history). (model, entry # history)) (train_epochs T x_train x_val es s))"

definition train_edge :: "'o torch_env \<Rightarrow> autoencoder \<Rightarrow> vec list \<Rightarrow> vec list \<Rightarrow> nat \<Rightarrow> (autoencoder \<times> epoch_entry list) option" where
  "train_edge T model x_train x_val epochs =
     train_epochs T x_train x_val [1..<Suc epochs] (te_optimizer T, model)"

subsection \<open>Calibration and export\<close>

text \<open>Indexing with a boolean mask, and the minimum and maximum per column, which raise without a row.\<close>

definition select :: "bool list \<Rightarrow> 'a list \<Rightarrow> 'a list" where
  "select bs xs = [x. (b, x) \<leftarrow> zip bs xs, b]"

definition columns :: "(rat \<Rightarrow> rat \<Rightarrow> rat) \<Rightarrow> vec list \<Rightarrow> vec option" where
  "columns f rows = (case rows of [] \<Rightarrow> None | r # rs \<Rightarrow> Some (fold (\<lambda>x acc. map2 f acc x) rs r))"

record edge_args =
  ea_output_dir :: string
  ea_version :: string
  ea_devices_per_type :: nat
  ea_steps :: nat
  ea_anomaly_rate :: rat
  ea_window_size :: nat
  ea_epochs :: nat
  ea_seed :: int

record edge_model =
  em_feature_stats :: json_object
  em_rows :: "flt list list"
  em_samples :: nat
  em_history :: "epoch_entry list"
  em_scorer :: "vec \<Rightarrow> rat option"
  em_cal_errors :: "rat list"
  em_y_cal :: "bool list"
  em_x_test :: "vec list"
  em_test_errors :: "rat list"
  em_threshold :: rat
  em_metrics :: "(string \<times> pr_metrics) list"

definition test_metrics :: "bool list \<Rightarrow> bool list \<Rightarrow> string list \<Rightarrow> (string \<times> pr_metrics) list" where
  "test_metrics pred truth types = (''overall'', precision_recall pred truth) #
     map (\<lambda>t. let of_type = map (\<lambda>u. u = t) types in (t, precision_recall (select of_type pred) (select of_type truth)))
       (dkeys SENSOR_FIELDS)"

text \<open>
  From the readings to the calibrated model. \<open>te_shuffle\<close> is the sorted list of the ids after the shuffle; the
  network learns from the normal rows of the training devices.
\<close>

definition trained_model :: "'o torch_env \<Rightarrow> codec \<Rightarrow> edge_args \<Rightarrow> labelled list \<Rightarrow> edge_model option" where
  "trained_model T c args readings =
     Option.bind (compute_feature_stats T readings) (\<lambda>stats.
     Option.bind (extract_training c readings stats (ea_window_size args)) (\<lambda>(x, y, types).
     let ids = map (\<lambda>(r, _). tr_device_id r) readings;
         (train_mask, cal_mask, test_mask) = split_by_device (te_shuffle T (remdups ids)) (6 / 10) (2 / 10) ids;
         x_train = select (map2 (\<lambda>m a. m \<and> \<not> a) train_mask y) x;
         x_cal = select cal_mask x; y_cal = select cal_mask y;
         x_test = select test_mask x; y_test = select test_mask y; types_test = select test_mask types
     in Option.bind (train_edge T (autoencoder_new (te_init T) N_FEATURES 4) x_train
          (select (map Not y_cal) x_cal) (ea_epochs args)) (\<lambda>(autoencoder, history).
        Option.bind (columns min x_train) (\<lambda>lower. Option.bind (columns max x_train) (\<lambda>upper.
        let scorer = clamped_error autoencoder lower upper in
        Option.bind (those (map scorer x_cal)) (\<lambda>cal_errors. Option.bind (those (map scorer x_test)) (\<lambda>test_errors.
        Option.bind (calibrate_threshold (te_quantiles T) cal_errors y_cal) (\<lambda>threshold.
          Some \<lparr>em_feature_stats = stats, em_rows = x, em_samples = length x_train, em_history = history,
            em_scorer = scorer, em_cal_errors = cal_errors, em_y_cal = y_cal, em_x_test = x_test,
            em_test_errors = test_errors, em_threshold = threshold,
            em_metrics = test_metrics (map (\<lambda>e. e > threshold) test_errors) y_test types_test\<rparr>))))))))"

text \<open>The directory of models: what is under the \<open>.onnx\<close> and the \<open>.json\<close> paths.\<close>

record model_files =
  mf_models :: "(string, session) dict"
  mf_sidecars :: "(string, json) dict"

definition MODEL_NAME :: string where "MODEL_NAME = ''anomaly-autoencoder''"

definition onnx_path :: "edge_args \<Rightarrow> string" where
  "onnx_path args = path_join (ea_output_dir args) (MODEL_NAME @ ''-v'' @ ea_version args @ ''.onnx'')"

definition pr_json :: "pr_metrics \<Rightarrow> json" where
  "pr_json m = JObj [(''precision'', JFloat (pr_precision m)), (''recall'', JFloat (pr_recall m)), (''f1'', JFloat (pr_f1 m)),
     (''true_positives'', JInt (int (pr_tp m))), (''false_positives'', JInt (int (pr_fp m))),
     (''false_negatives'', JInt (int (pr_fn m)))]"

definition FEATURE_NAMES :: "string list" where
  "FEATURE_NAMES = [''z_a'', ''z_b'', ''dev_a'', ''dev_b''] @ map (\<lambda>t. ''is_'' @ takeWhile (\<lambda>x. x \<noteq> CHR ''_'') t) DEVICE_TYPES"

text \<open>\<open>history[-1]\<close> raises without an epoch.\<close>

definition model_metadata :: "'o torch_env \<Rightarrow> edge_args \<Rightarrow> string \<Rightarrow> edge_model \<Rightarrow> json_object option" where
  "model_metadata T args now m = (if em_history m = [] then None else Some
     [(''model_name'', JStr MODEL_NAME), (''model_version'', JStr (ea_version args)), (''framework'', JStr ''pytorch''),
      (''architecture'', JStr ''autoencoder''), (''exported_with'', JStr (''torch '' @ te_version T)),
      (''trained_at'', JStr now), (''input_name'', JStr ''features''), (''feature_names'', JArr (map JStr FEATURE_NAMES)),
      (''feature_stats'', JObj (em_feature_stats m)), (''window_size'', JInt (int (ea_window_size args))),
      (''error_threshold'', JFloat (em_threshold m)),
      (''test_metrics'', JObj (map (\<lambda>(k, v). (k, pr_json v)) (em_metrics m))),
      (''training'', JObj [(''samples'', JInt (int (em_samples m))), (''epochs'', JInt (int (ea_epochs args))),
        (''final_val_loss'', JFloat (ep_val_loss (last (em_history m)))), (''anomaly_rate'', JFloat (ea_anomaly_rate args)),
        (''seed'', JInt (ea_seed args))])])"

definition relative_diffs :: "rat list \<Rightarrow> rat list \<Rightarrow> rat list" where
  "relative_diffs ort_errors test_errors = map2 (\<lambda>o' t. \<bar>o' - t\<bar> / max \<bar>t\<bar> (1 / 1000)) ort_errors test_errors"

datatype train_error = TrainingFailed | ExportDiverges

text \<open>The graph is written to its final path before it is compared; the sidecar follows only after the comparison.\<close>

definition export_model :: "'o torch_env \<Rightarrow> edge_args \<Rightarrow> string \<Rightarrow> edge_model \<Rightarrow> (model_files, train_error, unit) action" where
  "export_model T args now m fs =
     (let path = onnx_path args; session = te_session T (em_scorer m);
          fs = fs\<lparr>mf_models := dset path session (mf_models fs)\<rparr>
      in case session (em_x_test m) of
           None \<Rightarrow> raise TrainingFailed fs
         | Some ort_errors \<Rightarrow>
             if relative_diffs ort_errors (em_test_errors m) = [] then raise TrainingFailed fs
             else if Max (set (relative_diffs ort_errors (em_test_errors m))) > 1 / 1000 then raise ExportDiverges fs
             else (case model_metadata T args now m of
                 None \<Rightarrow> raise TrainingFailed fs
               | Some metadata \<Rightarrow> ret () (fs\<lparr>mf_sidecars := dset (sidecar path) (JObj metadata) (mf_sidecars fs)\<rparr>)))"

definition train_pipeline :: "'o torch_env \<Rightarrow> codec \<Rightarrow> edge_args \<Rightarrow> string \<Rightarrow> labelled list \<Rightarrow>
    (model_files, train_error, unit) action" where
  "train_pipeline T c args now readings fs = (case trained_model T c args readings of
     None \<Rightarrow> raise TrainingFailed fs | Some m \<Rightarrow> export_model T args now m fs)"

definition train_edge_main :: "'o torch_env \<Rightarrow> codec \<Rightarrow> rng \<Rightarrow> time \<Rightarrow> (nat \<Rightarrow> string) \<Rightarrow> (nat \<Rightarrow> uuid) \<Rightarrow> edge_args \<Rightarrow>
    string \<Rightarrow> model_files \<Rightarrow> (model_files \<times> (train_error + unit)) random" where
  "train_edge_main T c r received clock uuid4 args now fs = do {
     readings \<leftarrow> generate_telemetry c r received clock uuid4 (ea_devices_per_type args) (ea_steps args) (ea_anomaly_rate args);
     give (case readings of None \<Rightarrow> raise TrainingFailed fs | Some rs \<Rightarrow> train_pipeline T c args now rs fs) }"

subsection \<open>Start of the inference service\<close>

text \<open>The part of \<open>lifespan\<close> before the stream: a model that does not load stops the start.\<close>

definition ml_startup :: "codec \<Rightarrow> 'w model_env \<Rightarrow> 'w \<Rightarrow> time \<Rightarrow> string \<Rightarrow> nat \<Rightarrow> ml_error + inference_engine \<times> feature_extractor" where
  "ml_startup c E w now model_dir feature_window_size =
     (case load_initial_model c E w now model_dir engine_init of
        (e, Inl err) \<Rightarrow> Inl err
      | (e, Inr _) \<Rightarrow> Inr (e, fx_new feature_window_size (dget (ie_metadata e) ''feature_stats'')))"

end
