(* ===== verification/EdgeServices.thy ===== *)
theory EdgeServices imports Ingestion Persistence EdgeTraining begin

section \<open>The edge services together\<close>

text \<open>
  The processes of \<open>data_ingestion/main.py\<close>, \<open>data_persistence/main.py\<close> and \<open>ml_inference/main.py\<close> on one Redis
  server and one database: how each starts, and a step relation in which their turns interleave and
  they stop, crash and start again. A turn is one message, one request, one round of the monitor or one iteration
  of a worker; within a turn a service works on the shared server alone.
\<close>

subsection \<open>Start\<close>

definition ingestion_start :: "'s stream_server \<Rightarrow> ('s, redis_error, unit) action" where
  "ingestion_start S =
     ebind (ensure_consumer_group S RAW_TELEMETRY ML_INFERENCE ''0'') (\<lambda>_.
     ebind (ensure_consumer_group S RAW_TELEMETRY DATA_PERSISTENCE ''0'') (\<lambda>_.
       ensure_consumer_group S RAW_TELEMETRY ALERT_HANDLER ''0''))"

definition ingestion_new :: "'s \<Rightarrow> 's mqtt_subscriber" where
  "ingestion_new s = mqtt_new \<lparr>ig_srv = s, ig_monitor = sm_new, ig_received = [], ig_published = 0\<rparr>"

definition persistence_start :: "'s stream_server \<Rightarrow> ('s, redis_error, unit) action" where
  "persistence_start S = ensure_consumer_group S RAW_TELEMETRY DATA_PERSISTENCE ''0''"

text \<open>The model is loaded before the group is ensured; \<open>lifespan\<close> raises when either fails.\<close>

definition inference_start :: "codec \<Rightarrow> 'w model_env \<Rightarrow> 'w \<Rightarrow> time \<Rightarrow> string \<Rightarrow> nat \<Rightarrow> 's stream_server \<Rightarrow> 's \<Rightarrow> 's \<times> 's detector option" where
  "inference_start c E w now model_dir window_size S s =
     (case ml_startup c E w now model_dir window_size of
        Inl _ \<Rightarrow> (s, None)
      | Inr (engine, extractor) \<Rightarrow>
          (case ensure_consumer_group S RAW_TELEMETRY ML_INFERENCE ''0'' s of
             (s, Inl _) \<Rightarrow> (s, None)
           | (s, Inr _) \<Rightarrow> (s, Some \<lparr>dt_srv = s, dt_engine = engine, dt_extractor = extractor, dt_running = True,
               dt_uuids = 0, dt_anomalies = [], dt_consumed = 0\<rparr>)))"

subsection \<open>The system\<close>

text \<open>
  The server, the database, the services that are up and the logs of the persistence processes that
  have ended. A service sees the shared server and database at the start of its turn.
\<close>

record ('s, 'd) edge =
  ed_srv :: 's
  ed_db :: 'd
  ed_ingestion :: "'s mqtt_subscriber option"
  ed_worker :: "('s, 'd) worker option"
  ed_detector :: "'s detector option"
  ed_logs :: "worker_event list list"

definition edge_new :: "'s \<Rightarrow> 'd \<Rightarrow> ('s, 'd) edge" where
  "edge_new s d = \<lparr>ed_srv = s, ed_db = d, ed_ingestion = None, ed_worker = None, ed_detector = None, ed_logs = []\<rparr>"

definition ingest_view :: "('s, 'd) edge \<Rightarrow> 's mqtt_subscriber \<Rightarrow> 's ingest" where
  "ingest_view e m = (ms_ingest m)\<lparr>ig_srv := ed_srv e\<rparr>"

definition ingested :: "'s mqtt_subscriber \<Rightarrow> 's ingest \<Rightarrow> ('s, 'd) edge \<Rightarrow> ('s, 'd) edge" where
  "ingested m g e = e\<lparr>ed_srv := ig_srv g, ed_ingestion := Some (m\<lparr>ms_ingest := g\<rparr>)\<rparr>"

definition worker_view :: "('s, 'd) edge \<Rightarrow> ('s, 'd) worker \<Rightarrow> ('s, 'd) worker" where
  "worker_view e w = w\<lparr>wk_srv := ed_srv e, wk_db := ed_db e\<rparr>"

definition worked :: "('s, 'd) worker \<Rightarrow> ('s, 'd) edge \<Rightarrow> ('s, 'd) edge" where
  "worked w e = e\<lparr>ed_srv := wk_srv w, ed_db := wk_db w, ed_worker := Some w\<rparr>"

text \<open>The end of a persistence process: its session is gone, its log stays.\<close>

definition worker_ended :: "'d database \<Rightarrow> ('s, 'd) worker \<Rightarrow> ('s, 'd) edge \<Rightarrow> ('s, 'd) edge" where
  "worker_ended D w e = e\<lparr>ed_srv := wk_srv w, ed_db := db_close D (wk_db w), ed_worker := None,
     ed_logs := ed_logs e @ [wk_log w]\<rparr>"

inductive edge_step :: "codec \<Rightarrow> 's stream_server \<Rightarrow> 'd database \<Rightarrow> ('s, 'd) edge \<Rightarrow> ('s, 'd) edge \<Rightarrow> bool" for c S D where
  ingestion_up: "ed_ingestion e = None \<Longrightarrow> ingestion_start S (ed_srv e) = (s, Inr ()) \<Longrightarrow>
    edge_step c S D e (e\<lparr>ed_srv := s, ed_ingestion := Some (ingestion_new s)\<rparr>)"
| ingestion_fails: "ed_ingestion e = None \<Longrightarrow> ingestion_start S (ed_srv e) = (s, Inl err) \<Longrightarrow>
    edge_step c S D e (e\<lparr>ed_srv := s\<rparr>)"
| http: "ed_ingestion e = Some m \<Longrightarrow> ingest_telemetry c S maxlen now body (ingest_view e m) = (g, r) \<Longrightarrow>
    edge_step c S D e (ingested m g e)"
| coap: "ed_ingestion e = Some m \<Longrightarrow> render_post cbor c S maxlen now fmt payload (ingest_view e m) = (g, code) \<Longrightarrow>
    edge_step c S D e (ingested m g e)"
| mqtt: "ed_ingestion e = Some m \<Longrightarrow> ms_running m \<Longrightarrow> handle_message c S maxlen now msg (ingest_view e m) = g \<Longrightarrow>
    edge_step c S D e (ingested m g e)"
| monitor: "ed_ingestion e = Some m \<Longrightarrow> monitor_round S now (ed_srv e, ig_monitor (ms_ingest m)) = (s, mon) \<Longrightarrow>
    edge_step c S D e (ingested m ((ms_ingest m)\<lparr>ig_srv := s, ig_monitor := mon\<rparr>) e)"
| ingestion_down: "edge_step c S D e (e\<lparr>ed_ingestion := None\<rparr>)"
| worker_up: "ed_worker e = None \<Longrightarrow> persistence_start S (ed_srv e) = (s, Inr ()) \<Longrightarrow>
    edge_step c S D e (e\<lparr>ed_srv := s, ed_worker := Some (worker_new s (ed_db e) now)\<rparr>)"
| worker_fails: "ed_worker e = None \<Longrightarrow> persistence_start S (ed_srv e) = (s, Inl err) \<Longrightarrow>
    edge_step c S D e (e\<lparr>ed_srv := s\<rparr>)"
| work: "ed_worker e = Some w \<Longrightarrow> worker_cycle c uuid4 S D cfg env (worker_view e w) = w' \<Longrightarrow>
    edge_step c S D e (worked w' e)"
| worker_stops: "ed_worker e = Some w \<Longrightarrow> shutdown_flush S D (worker_view e w) = w' \<Longrightarrow>
    edge_step c S D e (worker_ended D w' e)"
| worker_crashes: "ed_worker e = Some w \<Longrightarrow> edge_step c S D e (worker_ended D (worker_view e w) e)"
| detector_up: "ed_detector e = None \<Longrightarrow> inference_start c (E :: model_files model_env) files now model_dir window_size S (ed_srv e) = (s, d) \<Longrightarrow>
    edge_step c S D e (e\<lparr>ed_srv := s, ed_detector := d\<rparr>)"
| detect: "ed_detector e = Some d \<Longrightarrow> detector_cycle c uuid4 S dcfg now (d\<lparr>dt_srv := ed_srv e\<rparr>) = d' \<Longrightarrow>
    edge_step c S D e (e\<lparr>ed_srv := dt_srv d', ed_detector := Some d'\<rparr>)"
| detector_down: "edge_step c S D e (e\<lparr>ed_detector := None\<rparr>)"

inductive edge_reachable :: "codec \<Rightarrow> 's stream_server \<Rightarrow> 'd database \<Rightarrow> ('s, 'd) edge \<Rightarrow> ('s, 'd) edge \<Rightarrow> bool" for c S D where
  no_step: "edge_reachable c S D e e"
| one_more: "edge_reachable c S D e e' \<Longrightarrow> edge_step c S D e' e'' \<Longrightarrow> edge_reachable c S D e e''"

text \<open>What all persistence processes so far did, in order.\<close>

definition all_logs :: "('s, 'd) edge \<Rightarrow> worker_event list" where
  "all_logs e = concat (ed_logs e) @ (case ed_worker e of Some w \<Rightarrow> wk_log w | None \<Rightarrow> [])"


subsection \<open>What the other services leave to the persistence group\<close>

context stream_groups begin

definition quiet :: "'s \<Rightarrow> 's \<Rightarrow> bool" where
  "quiet s s' \<longleftrightarrow> good s' \<and> delivered s' RAW_TELEMETRY DATA_PERSISTENCE = delivered s RAW_TELEMETRY DATA_PERSISTENCE"

lemma quiet_refl: "good s \<Longrightarrow> quiet s s"
  by (simp add: quiet_def)

lemma quiet_trans: "quiet s s' \<Longrightarrow> quiet s' s'' \<Longrightarrow> quiet s s''"
  by (simp add: quiet_def)

lemma quiet_good: "quiet s s' \<Longrightarrow> good s'"
  by (simp add: quiet_def)

lemma quiet_ensure: "good s \<Longrightarrow> ensure_consumer_group S st g i s = (s', r) \<Longrightarrow> quiet s s'"
  by (auto simp: ensure_consumer_group_def quiet_def dest: create_keeps split: prod.splits sum.splits redis_error.splits if_splits)

lemma quiet_ebind:
  assumes "good s" and "ebind m k s = (s', r)"
    and "\<And>s' r. m s = (s', r) \<Longrightarrow> quiet s s'" and "\<And>u t s' r. good t \<Longrightarrow> k u t = (s', r) \<Longrightarrow> quiet t s'"
  shows "quiet s s'"
proof -
  obtain t q where m: "m s = (t, q)" by fastforce
  note quiet = assms(3)[OF m]
  show ?thesis
  proof (cases q)
    case (Inl e)
    then show ?thesis using assms(2) m quiet by (simp add: ebind_def)
  next
    case (Inr u)
    then have "k u t = (s', r)" using assms(2) m by (simp add: ebind_def)
    then show ?thesis using assms(4)[OF quiet_good[OF quiet]] quiet quiet_trans by blast
  qed
qed

lemma quiet_ingestion_start:
  assumes "good s" and "ingestion_start S s = (s', r)"
  shows "quiet s s'"
proof (rule quiet_ebind[OF assms(1) assms(2)[unfolded ingestion_start_def]])
  fix u t s' r
  assume "good t" and "ebind (ensure_consumer_group S RAW_TELEMETRY DATA_PERSISTENCE ''0'')
    (\<lambda>_. ensure_consumer_group S RAW_TELEMETRY ALERT_HANDLER ''0'') t = (s', r)"
  then show "quiet t s'" by (rule quiet_ebind) (auto intro: quiet_ensure \<open>good t\<close>)
qed (rule quiet_ensure[OF assms(1)])

lemma quiet_process:
  assumes "good (ig_srv g)" and "process c S now reading protocol maxlen g = (g', r)"
  shows "quiet (ig_srv g) (ig_srv g')"
  using assms by (auto simp: process_def Let_def quiet_def dest: add_keeps split: prod.splits sum.splits)

lemma quiet_http:
  assumes "good (ig_srv g)" and "ingest_telemetry c S maxlen now body g = (g', r)"
  shows "quiet (ig_srv g) (ig_srv g')"
  using assms by (auto simp: ingest_telemetry_def quiet_refl dest: quiet_process split: option.splits prod.splits sum.splits)

lemma quiet_coap:
  assumes "good (ig_srv g)" and "render_post cbor c S maxlen now fmt payload g = (g', r)"
  shows "quiet (ig_srv g) (ig_srv g')"
  using assms by (auto simp: render_post_def quiet_refl dest: quiet_process split: option.splits prod.splits sum.splits if_splits)

lemma quiet_mqtt: "good (ig_srv g) \<Longrightarrow> quiet (ig_srv g) (ig_srv (handle_message c S maxlen now msg g))"
  by (auto simp: handle_message_def quiet_refl split: option.split intro: quiet_process[OF _ surjective_pairing])

lemma quiet_gauges: "stream_gauges S sts (s, m) = ((s', m'), r) \<Longrightarrow> good s \<Longrightarrow> quiet s s'"
proof (induction sts arbitrary: s m)
  case (Cons stream streams)
  obtain s1 b where b: "sv_exists S stream s = (s1, b)" by fastforce
  have q1: "quiet s s1" using exists_keeps[OF Cons.prems(2) b] by (simp add: quiet_def)
  note rest = quiet_trans[OF _ Cons.IH]
  consider (raised) e where "b = Inl e" | (absent) "b = Inr False" | (present) "b = Inr True"
    by (cases b) auto
  then show ?case
  proof cases
    case raised
    then show ?thesis using Cons.prems(1) b q1 by simp
  next
    case absent
    then show ?thesis using Cons.prems(1) b rest[OF q1 _ quiet_good[OF q1]] by simp
  next
    case present
    obtain s2 n where n: "stream_len S stream s1 = (s2, n)" by fastforce
    have q2: "quiet s s2" using len_keeps[OF quiet_good[OF q1] n] q1 by (simp add: quiet_def)
    show ?thesis
    proof (cases n)
      case (Inl e)
      then show ?thesis using Cons.prems(1) b present n q2 by simp
    next
      case (Inr k)
      obtain s3 gs where gs: "sv_xinfo_groups S stream s2 = (s3, gs)" by fastforce
      have q3: "quiet s s3" using info_keeps[OF quiet_good[OF q2] gs] q2 by (simp add: quiet_def)
      then show ?thesis
        using Cons.prems(1) b present n Inr gs rest[OF q3 _ quiet_good[OF q3]] by (cases gs) (auto simp: Let_def)
    qed
  qed
qed (simp add: quiet_refl)

lemma quiet_monitor: "good s \<Longrightarrow> monitor_round S now (s, m) = (s', m') \<Longrightarrow> quiet s s'"
  using quiet_gauges[of "[RAW_TELEMETRY, ALERTS]" s "update_active_devices now m" s' m'
      "snd (update_stream_gauges S (s, update_active_devices now m))"]
  by (simp add: monitor_round_def update_stream_gauges_def prod_eq_iff del: stream_gauges.simps)

lemma quiet_pipe: "pipe_run S cs s = (s', es) \<Longrightarrow> good s \<Longrightarrow> quiet s s'"
proof (induction cs arbitrary: s es)
  case (Cons x cs)
  obtain s1 where "quiet s s1" and "\<exists>es'. pipe_run S cs s1 = (s', es')"
  proof (cases x)
    case (PXadd st f ml)
    then obtain s1 r where r: "stream_add S st f ml True s = (s1, r)" by fastforce
    show ?thesis
      by (rule that[of s1]) (use Cons.prems PXadd r add_keeps[OF Cons.prems(2) r]
          in \<open>auto simp: stream_add_def quiet_def split: prod.splits\<close>)
  next
    case (PXack st g ids)
    then obtain s1 r where r: "stream_ack S st g ids s = (s1, r)" by fastforce
    show ?thesis
      by (rule that[of s1]) (use Cons.prems PXack r ack_keeps[OF Cons.prems(2) r]
          in \<open>auto simp: stream_ack_def quiet_def split: prod.splits\<close>)
  qed
  then show ?case using Cons.IH quiet_good quiet_trans by blast
qed (simp add: quiet_refl)

lemma quiet_batch: "good (dt_srv d) \<Longrightarrow> process_batch c u S cfg now es d = (d', r) \<Longrightarrow> quiet (dt_srv d) (dt_srv d')"
  by (auto simp: process_batch_def pipe_execute_def Let_def quiet_refl simp del: pipe_run.simps
      split: prod.splits sum.splits if_splits list.splits dest!: alert_loop_keeps quiet_pipe)

lemma groups_differ: "DATA_PERSISTENCE \<noteq> ML_INFERENCE"
  by (simp add: DATA_PERSISTENCE_def ML_INFERENCE_def)

lemma quiet_detector:
  assumes "good (dt_srv d)"
  shows "quiet (dt_srv d) (dt_srv (detector_cycle c u S cfg now d))"
proof -
  obtain s r where r: "stream_read_group S RAW_TELEMETRY ML_INFERENCE (ds_consumer_name cfg) (ds_batch_size cfg) (dt_srv d) = (s, r)"
    by fastforce
  have q: "quiet (dt_srv d) s"
    using read_keeps[OF assms r] read_other[OF assms r] groups_differ by (simp add: quiet_def)
  consider (other) "dt_srv (detector_cycle c u S cfg now d) = s"
    | (batch) es where "detector_cycle c u S cfg now d = fst (process_batch c u S cfg now es (d\<lparr>dt_srv := s\<rparr>))"
  proof (cases r)
    case (Inr es)
    then show ?thesis using that by (cases es) (simp_all add: detector_cycle_def r)
  qed (simp add: detector_cycle_def r)
  then show ?thesis
  proof cases
    case other
    then show ?thesis using q by simp
  next
    case batch
    show ?thesis
      using quiet_batch[of "d\<lparr>dt_srv := s\<rparr>" c u cfg now es, OF _ surjective_pairing] quiet_good[OF q] quiet_trans[OF q]
      by (simp add: batch)
  qed
qed

lemma quiet_inference_start:
  "good s \<Longrightarrow> inference_start c E w now model_dir window_size S s = (s', d) \<Longrightarrow> quiet s s'"
  by (auto simp: inference_start_def quiet_refl dest: quiet_ensure split: sum.splits prod.splits)

end


subsection \<open>Logs over several processes\<close>

lemma log_join:
  "buffered (es @ fs) = buffered es @ buffered fs" "acked (es @ fs) = acked es @ acked fs"
  "handled (es @ fs) = handled es @ handled fs"
  by (simp_all add: buffered_def acked_def handled_def)

lemma buffered_handled: "distinct (handled es) \<Longrightarrow> distinct (map fst (buffered es))"
  using handled_distinct by blast

text \<open>A worker only ever adds to its log, and never looks at it.\<close>

definition earlier :: "worker_event list \<Rightarrow> ('s, 'd) worker \<Rightarrow> ('s, 'd) worker" where
  "earlier l w = w\<lparr>wk_log := l @ wk_log w\<rparr>"

lemma earlier_simps [simp]:
  "wk_srv (earlier l w) = wk_srv w" "wk_db (earlier l w) = wk_db w" "wk_buffer (earlier l w) = wk_buffer w"
  "wk_pending_ids (earlier l w) = wk_pending_ids w" "wk_log (earlier l w) = l @ wk_log w"
  "wk_uuids (earlier l w) = wk_uuids w" "wk_consumed (earlier l w) = wk_consumed w" "wk_last_flush (earlier l w) = wk_last_flush w"
  "wk_emit x (earlier l w) = earlier l (wk_emit x w)" "(earlier l w)\<lparr>wk_srv := s\<rparr> = earlier l (w\<lparr>wk_srv := s\<rparr>)"
  "(earlier l w)\<lparr>wk_db := d\<rparr> = earlier l (w\<lparr>wk_db := d\<rparr>)"
  "(earlier l w)\<lparr>wk_last_flush := t\<rparr> = earlier l (w\<lparr>wk_last_flush := t\<rparr>)"
  "(earlier l w)\<lparr>wk_buffer := b\<rparr> = earlier l (w\<lparr>wk_buffer := b\<rparr>)"
  "(earlier l w)\<lparr>wk_pending_ids := p\<rparr> = earlier l (w\<lparr>wk_pending_ids := p\<rparr>)"
  "(earlier l w)\<lparr>wk_uuids := n\<rparr> = earlier l (w\<lparr>wk_uuids := n\<rparr>)"
  "(earlier l w)\<lparr>wk_consumed := n\<rparr> = earlier l (w\<lparr>wk_consumed := n\<rparr>)"
  by (simp_all add: earlier_def wk_emit_def)

lemma entries_earlier: "process_entries c u S es (earlier l w) = apfst (earlier l) (process_entries c u S es w)"
proof (induction es arbitrary: w)
  case (Cons x es)
  obtain i data where x: "x = (i, data)" by fastforce
  show ?case by (simp add: x Let_def Cons.IH split: option.split prod.split sum.split)
qed simp

lemma ack_earlier: "ack_pending S (earlier l w) = apfst (earlier l) (ack_pending S w)"
proof -
  have eq: "(earlier l w)\<lparr>wk_srv := s, wk_pending_ids := p\<rparr> = earlier l (w\<lparr>wk_srv := s, wk_pending_ids := p\<rparr>)" for s p
    by (simp add: earlier_def)
  show ?thesis by (simp add: ack_pending_def eq split: prod.split sum.split)
qed

lemma flushed_earlier: "(earlier l w)\<lparr>wk_db := d, wk_buffer := b\<rparr> = earlier l (w\<lparr>wk_db := d, wk_buffer := b\<rparr>)"
  by (simp add: earlier_def)

lemma flush_earlier: "flush_and_ack S D t (earlier l w) = earlier l (flush_and_ack S D t w)"
  by (simp add: flush_and_ack_def flushed_earlier ack_earlier split: prod.split sum.split)

lemma shutdown_earlier: "shutdown_flush S D (earlier l w) = earlier l (shutdown_flush S D w)"
  by (simp add: shutdown_flush_def flushed_earlier ack_earlier split: prod.split sum.split)

lemma cycle_earlier: "worker_cycle c u S D cfg env (earlier l w) = earlier l (worker_cycle c u S D cfg env w)"
proof -
  obtain s q where q: "stream_read_group S RAW_TELEMETRY DATA_PERSISTENCE (ws_consumer_name cfg) (ws_batch_size cfg) (wk_srv w) = (s, q)"
    by fastforce
  show ?thesis
  proof (cases q)
    case (Inr es)
    obtain w' r where r: "process_entries c u S es (w\<lparr>wk_srv := s\<rparr>) = (w', r)" by fastforce
    have due: "should_flush cfg t (earlier l w') = should_flush cfg t w'" for t by (simp add: should_flush_def)
    show ?thesis by (cases r) (simp_all add: worker_cycle_def q Inr entries_earlier r due flush_earlier)
  qed (simp add: worker_cycle_def q)
qed


subsection \<open>The invariant of the store\<close>

lemma set_acked_ids:
  assumes "map fst written = acked es @ unacked" and "buffered es = written @ rest"
  shows "set (acked es) \<subseteq> set (map fst written)" and "set written \<subseteq> set (buffered es)"
  using assms by (metis Un_upper1 set_append)+

locale edge_store = stream_groups S good entries delivered + transactions D rows open_rows idle
  for S :: "'s stream_server" and good entries delivered
    and D :: "'d database" and rows open_rows idle
begin

text \<open>
  \<open>past\<close> are the entries that the processes that have ended wrote to the table; a running process keeps its own
  account on top of them.
\<close>

definition kept :: "telemetry_record list \<Rightarrow> ('s, 'd) edge \<Rightarrow> (string \<times> telemetry_record) list \<Rightarrow> bool" where
  "kept base e past \<longleftrightarrow> set past \<subseteq> set (buffered (concat (ed_logs e))) \<and> distinct (map fst past) \<and>
     set (acked (concat (ed_logs e))) \<subseteq> set (map fst past) \<and>
     (case ed_worker e of None \<Rightarrow> rows (ed_db e) = base @ map snd past
      | Some w \<Rightarrow> ok (base @ map snd past) (w\<lparr>wk_db := ed_db e\<rparr>))"

definition edge_inv :: "telemetry_record list \<Rightarrow> ('s, 'd) edge \<Rightarrow> bool" where
  "edge_inv base e \<longleftrightarrow> good (ed_srv e) \<and> idle (ed_db e) \<and> distinct (handled (all_logs e)) \<and>
     set (handled (all_logs e)) \<subseteq> set (delivered (ed_srv e) RAW_TELEMETRY DATA_PERSISTENCE) \<and> (\<exists>past. kept base e past)"

lemma ok_srv [simp]: "ok base (w\<lparr>wk_srv := s\<rparr>) = ok base w"
  by (simp add: ok_def)

lemma kept_cong:
  assumes "ed_logs e' = ed_logs e" and "ed_worker e' = ed_worker e" and "ed_db e' = ed_db e"
  shows "kept base e' = kept base e"
  by (rule ext) (simp add: kept_def assms split: option.split)

lemma inv_cong:
  assumes "edge_inv base e" and "quiet (ed_srv e) (ed_srv e')"
    and "ed_logs e' = ed_logs e" and "ed_worker e' = ed_worker e" and "ed_db e' = ed_db e"
  shows "edge_inv base e'"
  using assms(1,2) unfolding edge_inv_def kept_cong[OF assms(3-5)] by (simp add: quiet_def all_logs_def assms(3-5))

lemma inv_good: "edge_inv base e \<Longrightarrow> good (ed_srv e)"
  by (simp add: edge_inv_def)

lemma inv_quiet:
  assumes "edge_inv base e" and "quiet (ed_srv e) s"
  shows "edge_inv base (e\<lparr>ed_srv := s\<rparr>)" "edge_inv base (e\<lparr>ed_srv := s, ed_ingestion := i\<rparr>)"
    "edge_inv base (e\<lparr>ed_srv := s, ed_detector := dt\<rparr>)"
  by (rule inv_cong[OF assms(1)]; simp add: assms(2))+

lemma inv_view:
  assumes "edge_inv base e" and "ed_worker e = Some w"
  obtains past where "kept base e past" "ok (base @ map snd past) (worker_view e w)"
    "fresh (earlier (concat (ed_logs e)) (worker_view e w))"
  using assms unfolding edge_inv_def
  by (auto simp: kept_def worker_view_def fresh_def all_logs_def ok_def worker_inv_def)

lemma inv_worked:
  assumes "kept base e past" and "ok (base @ map snd past) w'" and "fresh (earlier (concat (ed_logs e)) w')" and "ed_worker e = Some w"
  shows "edge_inv base (worked w' e)"
proof -
  have "idle (wk_db w')" using assms(2) by (simp add: ok_def)
  moreover have "kept base (worked w' e) past" using assms(1,2,4) by (auto simp: kept_def worked_def)
  ultimately show ?thesis using assms(3) unfolding edge_inv_def by (auto simp: fresh_def worked_def all_logs_def)
qed

lemma inv_ended:
  assumes "kept base e past" and "ok (base @ map snd past) w'" and "fresh (earlier (concat (ed_logs e)) w')" and "ed_worker e = Some w"
  shows "edge_inv base (worker_ended D w' e)"
proof -
  obtain written rest unacked where written: "rows (wk_db w') = (base @ map snd past) @ map snd written"
      "buffered (wk_log w') = written @ rest" "map fst written = acked (wk_log w') @ unacked"
    using ok_acked[OF assms(2)] by blast
  note ids = set_acked_ids[OF written(3,2)]
  have dist: "distinct (map fst (buffered (concat (ed_logs e)) @ buffered (wk_log w')))"
    using buffered_handled[of "concat (ed_logs e) @ wk_log w'"] assms(3) by (simp add: fresh_def log_join)
  then have "distinct (map fst written)" "set (map fst written) \<inter> set (map fst (buffered (concat (ed_logs e)))) = {}"
    using written(2) by auto
  moreover have "set (map fst past) \<subseteq> set (map fst (buffered (concat (ed_logs e))))"
    using assms(1) by (auto simp: kept_def)
  ultimately have "distinct (map fst (past @ written))" using assms(1) by (auto simp: kept_def)
  then have "kept base (worker_ended D w' e) (past @ written)"
    using assms(1) ids written(1) close by (auto simp: kept_def worker_ended_def log_join)
  then show ?thesis using assms(3) close unfolding edge_inv_def by (auto simp: fresh_def worker_ended_def all_logs_def)
qed

lemma inv_worker_up:
  assumes "edge_inv base e" and "ed_worker e = None" and "persistence_start S (ed_srv e) = (s, r)"
  shows "edge_inv base (e\<lparr>ed_srv := s, ed_worker := Some (worker_new s (ed_db e) now)\<rparr>)"
proof -
  have q: "quiet (ed_srv e) s" using quiet_ensure[OF inv_good[OF assms(1)]] assms(3) by (simp add: persistence_start_def)
  obtain past where past: "kept base e past" using assms(1) by (auto simp: edge_inv_def)
  then have "kept base (e\<lparr>ed_srv := s, ed_worker := Some (worker_new s (ed_db e) now)\<rparr>) past"
    using assms(1,2) by (simp add: kept_def ok_def worker_inv_def worker_new_def edge_inv_def)
  then show ?thesis using assms(1,2) q unfolding edge_inv_def by (auto simp: all_logs_def worker_new_def quiet_def)
qed

lemma inv_step: "edge_step c S D e e' \<Longrightarrow> edge_inv base e \<Longrightarrow> edge_inv base e'"
proof (induction rule: edge_step.induct)
  case (worker_up e s now)
  then show ?case by (intro inv_worker_up)
next
  case (worker_fails e s err)
  then show ?case using quiet_ensure[OF inv_good[OF worker_fails.prems]] by (intro inv_quiet(1)) (auto simp: persistence_start_def)
next
  case (work e w uuid4 cfg env w')
  obtain past where past: "kept base e past" "ok (base @ map snd past) (worker_view e w)"
    "fresh (earlier (concat (ed_logs e)) (worker_view e w))" using work.prems work.hyps(1) by (rule inv_view)
  have "fresh (earlier (concat (ed_logs e)) w')"
    using fresh_cycle[OF past(3)] work.hyps(2) by (metis cycle_earlier)
  then show ?case using inv_worked[OF past(1)] ok_cycle[OF past(2)] work.hyps by blast
next
  case (worker_stops e w w')
  obtain past where past: "kept base e past" "ok (base @ map snd past) (worker_view e w)"
    "fresh (earlier (concat (ed_logs e)) (worker_view e w))" using worker_stops.prems worker_stops.hyps(1) by (rule inv_view)
  have "fresh (earlier (concat (ed_logs e)) w')"
    using fresh_shutdown[OF past(3)] worker_stops.hyps(2) by (metis shutdown_earlier)
  then show ?case using inv_ended[OF past(1)] ok_shutdown[OF past(2)] worker_stops.hyps by blast
next
  case (worker_crashes e w)
  from worker_crashes.prems worker_crashes.hyps(1) show ?case by (rule inv_view) (rule inv_ended[OF _ _ _ worker_crashes.hyps])
next
  case (ingestion_up e s)
  then show ?case using quiet_ingestion_start[OF inv_good[OF ingestion_up.prems]] by (intro inv_quiet(2))
next
  case (ingestion_fails e s err)
  then show ?case using quiet_ingestion_start[OF inv_good[OF ingestion_fails.prems]] by (intro inv_quiet(1))
next
  case (http e m maxlen now body g r)
  then have "quiet (ed_srv e) (ig_srv g)"
    using quiet_http[of "ingest_view e m"] inv_good[OF http.prems] by (simp add: ingest_view_def)
  then show ?case unfolding ingested_def by (rule inv_quiet(2)[OF http.prems])
next
  case (coap e m cbor maxlen now fmt payload g code)
  then have "quiet (ed_srv e) (ig_srv g)"
    using quiet_coap[of "ingest_view e m"] inv_good[OF coap.prems] by (simp add: ingest_view_def)
  then show ?case unfolding ingested_def by (rule inv_quiet(2)[OF coap.prems])
next
  case (mqtt e m maxlen now msg g)
  then have "quiet (ed_srv e) (ig_srv g)"
    using quiet_mqtt[of "ingest_view e m"] inv_good[OF mqtt.prems] by (auto simp: ingest_view_def)
  then show ?case unfolding ingested_def by (rule inv_quiet(2)[OF mqtt.prems])
next
  case (monitor e m now s mon)
  have "quiet (ed_srv e) s" by (rule quiet_monitor[OF inv_good[OF monitor.prems] monitor.hyps(2)])
  then show ?case using inv_quiet(2)[OF monitor.prems] by (simp add: ingested_def)
next
  case (detector_up e E files now model_dir window_size s d)
  then show ?case using quiet_inference_start[OF inv_good[OF detector_up.prems]] by (intro inv_quiet(3))
next
  case (detect e d uuid4 dcfg now d')
  then have "quiet (ed_srv e) (dt_srv d')"
    using quiet_detector[of "d\<lparr>dt_srv := ed_srv e\<rparr>"] inv_good[OF detect.prems] by auto
  then show ?case by (rule inv_quiet(3)[OF detect.prems])
next
  case (ingestion_down e)
  show ?case by (rule inv_cong[OF ingestion_down]) (simp_all add: quiet_refl[OF inv_good[OF ingestion_down]])
next
  case (detector_down e)
  show ?case by (rule inv_cong[OF detector_down]) (simp_all add: quiet_refl[OF inv_good[OF detector_down]])
qed

lemma inv_run: "edge_reachable c S D e e' \<Longrightarrow> edge_inv base e \<Longrightarrow> edge_inv base e'"
  by (induction rule: edge_reachable.induct) (auto intro: inv_step)

lemma inv_new: "good s \<Longrightarrow> idle d \<Longrightarrow> edge_inv (rows d) (edge_new s d)"
  by (simp add: edge_inv_def edge_new_def all_logs_def kept_def)

lemma inv_rows:
  assumes "edge_inv base e"
  shows "\<exists>written. rows (ed_db e) = base @ map snd written \<and> distinct (map fst written) \<and>
    set written \<subseteq> set (buffered (all_logs e)) \<and> set (acked (all_logs e)) \<subseteq> set (map fst written) \<and>
    set (map fst written) \<subseteq> set (delivered (ed_srv e) RAW_TELEMETRY DATA_PERSISTENCE)"
proof -
  have idle_case: "\<exists>written. rows (ed_db e) = base @ map snd written \<and> distinct (map fst written) \<and>
      set written \<subseteq> set (buffered (all_logs e)) \<and> set (acked (all_logs e)) \<subseteq> set (map fst written) \<and>
      set (map fst written) \<subseteq> set (delivered (ed_srv e) RAW_TELEMETRY DATA_PERSISTENCE)"
    if inv: "edge_inv base e" and none: "ed_worker e = None" for e :: "('s, 'd) edge"
  proof -
    obtain past where past: "kept base e past" using inv by (auto simp: edge_inv_def)
    have logs: "all_logs e = concat (ed_logs e)" by (simp add: all_logs_def none)
    have "set (map fst past) \<subseteq> set (handled (all_logs e))"
      using past handled_split[of "all_logs e"] by (force simp: kept_def logs)
    then have "set (map fst past) \<subseteq> set (delivered (ed_srv e) RAW_TELEMETRY DATA_PERSISTENCE)"
      using inv by (auto simp: edge_inv_def)
    then show ?thesis using past by (intro exI[of _ past]) (simp add: kept_def none logs)
  qed
  show ?thesis
  proof (cases "ed_worker e")
    case None
    then show ?thesis using idle_case assms by blast
  next
    case (Some w)
    let ?e = "worker_ended D (worker_view e w) e"
    have "all_logs ?e = all_logs e" "rows (ed_db ?e) = rows (ed_db e)" "ed_srv ?e = ed_srv e" "ed_worker ?e = None"
      using close by (simp_all add: all_logs_def worker_ended_def worker_view_def Some)
    then show ?thesis using idle_case[OF inv_step[OF edge_step.worker_crashes[OF Some] assms]] by simp
  qed
qed

end

interpretation edge_ref: edge_store ref_streams rs_good rs_view rs_delivered "ref_db schema_accepts" rd_rows rd_open "\<lambda>d. rd_open d = []"
  by unfold_locales

end
