(* ===== verification/VersionVectors.thy ===== *)
theory VersionVectors imports Prelude begin

section \<open>Version vectors\<close>

text \<open>
  \<open>coordination/state/version_vector.py\<close>: the vector clock of a node, its increment, merge and
  causal comparison. Two vectors are read through \<open>vv_val\<close>, where a missing node counts as 0, as
  in every comparison of the source. The locale \<open>causal_join\<close> states what a replicated state needs
  to converge under merges in any order; it is interpreted on the vectors at the end.
\<close>

subsection \<open>The class\<close>

record version_vector =
  vv_clock :: "(string, int) dict"

definition vv_new :: version_vector where
  "vv_new = \<lparr>vv_clock = []\<rparr>"

definition vv_val :: "version_vector \<Rightarrow> string \<Rightarrow> int" where
  "vv_val v n = dget_or (vv_clock v) n 0"

definition increment :: "version_vector \<Rightarrow> string \<Rightarrow> version_vector \<times> int" where
  "increment v n =
     (let v' = v\<lparr>vv_clock := dset n (dget_or (vv_clock v) n 0 + 1) (vv_clock v)\<rparr>
      in (v', dget_or (vv_clock v') n 0))"

fun merge_items :: "(string, int) dict \<Rightarrow> (string \<times> int) list \<Rightarrow> (string, int) dict" where
  "merge_items c [] = c"
| "merge_items c ((n, x) # items) = merge_items (dset n (max (dget_or c n 0) x) c) items"

definition merge :: "version_vector \<Rightarrow> version_vector \<Rightarrow> version_vector" where
  "merge v w = v\<lparr>vv_clock := merge_items (vv_clock v) (vv_clock w)\<rparr>"

text \<open>
  The source walks a set of node ids, whose order is not specified; the model takes one order and
  \<open>dominates_iff\<close> shows that the result does not depend on it.
\<close>

definition all_nodes :: "version_vector \<Rightarrow> version_vector \<Rightarrow> string list" where
  "all_nodes v w = remdups (dkeys (vv_clock v) @ dkeys (vv_clock w))"

fun dominates_loop :: "version_vector \<Rightarrow> version_vector \<Rightarrow> bool \<Rightarrow> string list \<Rightarrow> bool" where
  "dominates_loop v w at_least_one_greater [] = at_least_one_greater"
| "dominates_loop v w at_least_one_greater (n # ns) =
     (if vv_val v n < vv_val w n then False
      else dominates_loop v w (if vv_val v n > vv_val w n then True else at_least_one_greater) ns)"

definition dominates :: "version_vector \<Rightarrow> version_vector \<Rightarrow> bool" where
  "dominates v w = dominates_loop v w False (all_nodes v w)"

definition vv_eq :: "version_vector \<Rightarrow> version_vector \<Rightarrow> bool" where
  "vv_eq v w = list_all (\<lambda>n. vv_val v n = vv_val w n) (all_nodes v w)"

definition concurrent_with :: "version_vector \<Rightarrow> version_vector \<Rightarrow> bool" where
  "concurrent_with v w \<longleftrightarrow> \<not> dominates v w \<and> \<not> dominates w v \<and> \<not> vv_eq v w"

definition to_dict :: "version_vector \<Rightarrow> (string, int) dict" where
  "to_dict v = vv_clock v"

definition from_dict :: "(string, int) dict \<Rightarrow> version_vector" where
  "from_dict d = vv_new\<lparr>vv_clock := d\<rparr>"

definition vv_copy :: "version_vector \<Rightarrow> version_vector" where
  "vv_copy v = vv_new\<lparr>vv_clock := vv_clock v\<rparr>"

text \<open>Counters start at 0 and only grow.\<close>

definition vv_ok :: "version_vector \<Rightarrow> bool" where
  "vv_ok v \<longleftrightarrow> distinct (dkeys (vv_clock v)) \<and> dall (\<lambda>_ x. 0 \<le> x) (vv_clock v)"

subsection \<open>What the operations compute\<close>

lemma vv_val_nonneg: "vv_ok v \<Longrightarrow> 0 \<le> vv_val v n"
  by (auto simp: vv_val_def vv_ok_def dget_or_def split: option.splits dest: dall_get)

lemma vv_val_outside: "n \<notin> set (all_nodes v w) \<Longrightarrow> vv_val v n = 0 \<and> vv_val w n = 0"
  by (auto simp: all_nodes_def vv_val_def dget_or_def map_of_eq_None_iff split: option.splits
      dest!: map_of_SomeD) (force simp: image_iff)+

lemma vv_val_new [simp]: "vv_val vv_new n = 0"
  by (simp add: vv_val_def vv_new_def)

lemma vv_val_increment: "vv_val (fst (increment v n)) m = vv_val v m + (if m = n then 1 else 0)"
  by (simp add: increment_def vv_val_def)

lemma merge_items_get:
  "distinct (map fst items) \<Longrightarrow>
   dget_or (merge_items c items) n 0 =
     (case map_of items n of None \<Rightarrow> dget_or c n 0 | Some x \<Rightarrow> max (dget_or c n 0) x)"
proof (induction c items rule: merge_items.induct)
  case (2 c m x items)
  then have "map_of items m = None" by (simp add: map_of_eq_None_iff)
  with 2 show ?case by (auto split: option.splits)
qed simp

lemma vv_val_merge:
  assumes "vv_ok v" and "vv_ok w"
  shows "vv_val (merge v w) n = max (vv_val v n) (vv_val w n)"
proof -
  have "0 \<le> vv_val v n" using assms(1) by (rule vv_val_nonneg)
  then show ?thesis using assms(2)
    by (auto simp: merge_def vv_val_def vv_ok_def merge_items_get dget_or_None
        dget_or_def[of "vv_clock w"] split: option.splits)
qed

lemma merge_items_ok:
  "distinct (dkeys c) \<Longrightarrow> dall (\<lambda>_ x. 0 \<le> x) c \<Longrightarrow>
   distinct (dkeys (merge_items c items)) \<and> dall (\<lambda>_ x. 0 \<le> x) (merge_items c items)"
proof (induction c items rule: merge_items.induct)
  case (2 c n x items)
  have "0 \<le> dget_or c n 0"
    using 2(3) by (auto simp: dget_or_def split: option.splits dest: dall_get)
  then have "dall (\<lambda>_ x. 0 \<le> x) (dset n (max (dget_or c n 0) x) c)"
    using 2(3) by (auto intro!: dall_dset)
  then show ?case using 2 by simp
qed simp

lemma vv_ok_new: "vv_ok vv_new"
  by (simp add: vv_ok_def vv_new_def)

lemma vv_ok_increment: "vv_ok v \<Longrightarrow> vv_ok (fst (increment v n))"
  using vv_val_nonneg[of v n]
  by (auto simp: vv_ok_def increment_def vv_val_def intro!: dall_dset)

lemma vv_ok_merge: "vv_ok v \<Longrightarrow> vv_ok (merge v w)"
  using merge_items_ok[of "vv_clock v" "vv_clock w"] by (simp add: vv_ok_def merge_def)

subsection \<open>Causal order\<close>

definition vv_le :: "version_vector \<Rightarrow> version_vector \<Rightarrow> bool" where
  "vv_le v w \<longleftrightarrow> (\<forall>n. vv_val v n \<le> vv_val w n)"

lemma dominates_loop_iff:
  "dominates_loop v w g ns \<longleftrightarrow>
     (\<forall>n \<in> set ns. vv_val w n \<le> vv_val v n) \<and> (g \<or> (\<exists>n \<in> set ns. vv_val w n < vv_val v n))"
  by (induction v w g ns rule: dominates_loop.induct) auto

lemma dominates_iff:
  "dominates v w \<longleftrightarrow> vv_le w v \<and> (\<exists>n. vv_val w n < vv_val v n)"
  unfolding dominates_def dominates_loop_iff vv_le_def
  by (metis less_irrefl order_refl vv_val_outside)

lemma vv_eq_iff: "vv_eq v w \<longleftrightarrow> (\<forall>n. vv_val v n = vv_val w n)"
  unfolding vv_eq_def list_all_iff by (metis vv_val_outside)

lemma vv_eq_le: "vv_eq v w \<longleftrightarrow> vv_le v w \<and> vv_le w v"
  by (auto simp: vv_eq_iff vv_le_def intro: antisym)

lemma concurrent_iff: "concurrent_with v w \<longleftrightarrow> \<not> vv_le v w \<and> \<not> vv_le w v"
  by (auto simp: concurrent_with_def dominates_iff vv_eq_iff vv_le_def not_le
      intro: less_imp_le antisym) (metis antisym less_imp_le not_less)+

subsection \<open>Convergence of merged replicas\<close>

text \<open>
  The interface of a replicated state: an order on states (how much history a state includes), a
  merge that is the least upper bound, and an invariant the merge keeps. A replica that starts from
  \<open>s\<close> and merges in a list of states, in any order and with any repetition, includes exactly the
  history of \<open>s\<close> and of those states; two replicas that saw the same states agree.
\<close>

locale causal_join =
  fixes ok :: "'s \<Rightarrow> bool" and leq :: "'s \<Rightarrow> 's \<Rightarrow> bool" and join :: "'s \<Rightarrow> 's \<Rightarrow> 's"
  assumes leq_refl: "leq s s"
    and leq_trans: "leq s t \<Longrightarrow> leq t u \<Longrightarrow> leq s u"
    and ok_join: "ok s \<Longrightarrow> ok t \<Longrightarrow> ok (join s t)"
    and join_ub1: "ok s \<Longrightarrow> ok t \<Longrightarrow> leq s (join s t)"
    and join_ub2: "ok s \<Longrightarrow> ok t \<Longrightarrow> leq t (join s t)"
    and join_least: "ok s \<Longrightarrow> ok t \<Longrightarrow> leq s u \<Longrightarrow> leq t u \<Longrightarrow> leq (join s t) u"
begin

definition absorb :: "'s \<Rightarrow> 's list \<Rightarrow> 's" where
  "absorb s ts = foldl join s ts"

lemma absorb_simps [simp]: "absorb s [] = s" "absorb s (t # ts) = absorb (join s t) ts"
  by (simp_all add: absorb_def)

lemma ok_absorb: "ok s \<Longrightarrow> list_all ok ts \<Longrightarrow> ok (absorb s ts)"
  by (induction ts arbitrary: s) (auto intro: ok_join)

lemma absorb_ub: "ok s \<Longrightarrow> list_all ok ts \<Longrightarrow> t = s \<or> t \<in> set ts \<Longrightarrow> leq t (absorb s ts)"
proof (induction ts arbitrary: s t)
  case (Cons a ts)
  have j: "ok (join s a)" using Cons.prems by (simp add: ok_join)
  have up: "leq (join s a) (absorb (join s a) ts)"
    using Cons.IH[OF j, of "join s a"] Cons.prems by simp
  consider "t = s" | "t = a" | "t \<in> set ts" using Cons.prems by auto
  then show ?case
  proof cases
    case 1
    then show ?thesis using up join_ub1[of s a] Cons.prems by (auto intro: leq_trans)
  next
    case 2
    then show ?thesis using up join_ub2[of s a] Cons.prems by (auto intro: leq_trans)
  next
    case 3
    then show ?thesis using Cons.IH[OF j] Cons.prems by simp
  qed
qed (simp add: leq_refl)

lemma absorb_least:
  "ok s \<Longrightarrow> list_all ok ts \<Longrightarrow> leq s u \<Longrightarrow> (\<And>t. t \<in> set ts \<Longrightarrow> leq t u) \<Longrightarrow> leq (absorb s ts) u"
  by (induction ts arbitrary: s) (auto intro: ok_join join_least)

lemma absorb_mono:
  assumes "ok s" "list_all ok ts" "ok s'" "list_all ok ts'" "set (s # ts) \<subseteq> set (s' # ts')"
  shows "leq (absorb s ts) (absorb s' ts')"
proof (rule absorb_least[OF assms(1,2)])
  show "leq s (absorb s' ts')"
    using assms by (intro absorb_ub) auto
  show "leq t (absorb s' ts')" if "t \<in> set ts" for t
    using assms that by (intro absorb_ub) auto
qed

lemma absorb_converges:
  assumes "ok s" "list_all ok ts" "ok s'" "list_all ok ts'" "set (s # ts) = set (s' # ts')"
  shows "leq (absorb s ts) (absorb s' ts') \<and> leq (absorb s' ts') (absorb s ts)"
  using assms by (auto intro!: absorb_mono)

end

interpretation vv: causal_join vv_ok vv_le merge
  by unfold_locales (auto simp: vv_le_def vv_val_merge vv_ok_merge intro: order_trans)

end
