(* ===== verification/ClusterStates.thy ===== *)
theory ClusterStates imports Prelude begin

section \<open>Cluster state\<close>

text \<open>
  \<open>coordination/state/cluster_state.py\<close>: the in-memory view of the cluster. Every method of the
  source holds the lock for its whole body, so each is one definition on the state. A node object is
  the value stored under its id; a method that assigns a field of a looked-up node is \<open>dmodify\<close>. The
  clock reading of a method is its argument \<open>now\<close>.
\<close>

datatype node_status = JOINING | ALIVE | SUSPECT | DEAD | LEAVING

record cluster_node =
  cn_node_id :: string
  cn_node_address :: string
  cn_status :: node_status
  cn_is_leader :: bool
  cn_last_heartbeat :: time
  cn_capabilities :: "string list"
  cn_metadata :: "(string, string) dict"

text \<open>The dataclass constructor with the defaults the call sites leave in place.\<close>

definition mk_node :: "time \<Rightarrow> string \<Rightarrow> string \<Rightarrow> node_status \<Rightarrow> string list \<Rightarrow> cluster_node" where
  "mk_node now nid addr st caps =
     \<lparr>cn_node_id = nid, cn_node_address = addr, cn_status = st, cn_is_leader = False,
      cn_last_heartbeat = now, cn_capabilities = caps, cn_metadata = []\<rparr>"

record cluster_state =
  cs_local_node_id :: string
  cs_nodes :: "(string, cluster_node) dict"
  cs_cluster_version :: int
  cs_config :: "(string, string) dict"

definition cs_new :: "string \<Rightarrow> cluster_state" where
  "cs_new nid = \<lparr>cs_local_node_id = nid, cs_nodes = [], cs_cluster_version = 0, cs_config = []\<rparr>"

subsection \<open>Node management\<close>

definition bump :: "cluster_state \<Rightarrow> cluster_state" where
  "bump s = s\<lparr>cs_cluster_version := cs_cluster_version s + 1\<rparr>"

definition modify_node :: "string \<Rightarrow> (cluster_node \<Rightarrow> cluster_node) \<Rightarrow> cluster_state \<Rightarrow> cluster_state" where
  "modify_node nid f s = s\<lparr>cs_nodes := dmodify nid f (cs_nodes s)\<rparr>"

definition add_node :: "cluster_node \<Rightarrow> cluster_state \<Rightarrow> cluster_state" where
  "add_node node s = bump (s\<lparr>cs_nodes := dset (cn_node_id node) node (cs_nodes s)\<rparr>)"

definition remove_node :: "string \<Rightarrow> cluster_state \<Rightarrow> cluster_state" where
  "remove_node nid s =
     (if dhas (cs_nodes s) nid then bump (s\<lparr>cs_nodes := ddel nid (cs_nodes s)\<rparr>) else s)"

definition get_node :: "cluster_state \<Rightarrow> string \<Rightarrow> cluster_node option" where
  "get_node s nid = dget (cs_nodes s) nid"

subsection \<open>Heartbeat and status transitions\<close>

definition update_node_heartbeat :: "time \<Rightarrow> string \<Rightarrow> cluster_state \<Rightarrow> cluster_state" where
  "update_node_heartbeat now nid s =
     (case get_node s nid of None \<Rightarrow> s
      | Some node \<Rightarrow> modify_node nid (\<lambda>n.
          (let n = n\<lparr>cn_last_heartbeat := now\<rparr>
           in if cn_status n \<in> {JOINING, SUSPECT} then n\<lparr>cn_status := ALIVE\<rparr> else n)) s)"

definition mark_suspect :: "string \<Rightarrow> cluster_state \<Rightarrow> cluster_state" where
  "mark_suspect nid s =
     (case get_node s nid of None \<Rightarrow> s
      | Some node \<Rightarrow>
          (if cn_status node \<notin> {DEAD, LEAVING}
           then bump (modify_node nid (\<lambda>n. n\<lparr>cn_status := SUSPECT\<rparr>) s) else s))"

definition mark_dead :: "string \<Rightarrow> cluster_state \<Rightarrow> cluster_state" where
  "mark_dead nid s =
     (case get_node s nid of None \<Rightarrow> s
      | Some node \<Rightarrow> bump (modify_node nid (\<lambda>n. n\<lparr>cn_status := DEAD, cn_is_leader := False\<rparr>) s))"

definition mark_alive :: "time \<Rightarrow> string \<Rightarrow> cluster_state \<Rightarrow> cluster_state" where
  "mark_alive now nid s =
     (case get_node s nid of None \<Rightarrow> s
      | Some node \<Rightarrow>
          bump (modify_node nid (\<lambda>n. n\<lparr>cn_status := ALIVE, cn_last_heartbeat := now\<rparr>) s))"

definition mark_leaving :: "string \<Rightarrow> cluster_state \<Rightarrow> cluster_state" where
  "mark_leaving nid s =
     (case get_node s nid of None \<Rightarrow> s
      | Some node \<Rightarrow> bump (modify_node nid (\<lambda>n. n\<lparr>cn_status := LEAVING\<rparr>) s))"

subsection \<open>Queries\<close>

definition get_alive_peers :: "string option \<Rightarrow> cluster_state \<Rightarrow> cluster_node list" where
  "get_alive_peers exclude s =
     [n \<leftarrow> dvalues (cs_nodes s). cn_status n = ALIVE \<and> Some (cn_node_id n) \<noteq> exclude]"

definition get_all_nodes :: "cluster_state \<Rightarrow> cluster_node list" where
  "get_all_nodes s = dvalues (cs_nodes s)"

definition get_leader :: "cluster_state \<Rightarrow> cluster_node option" where
  "get_leader s = List.find cn_is_leader (dvalues (cs_nodes s))"

definition set_leader :: "string \<Rightarrow> cluster_state \<Rightarrow> cluster_state" where
  "set_leader nid s =
     bump (s\<lparr>cs_nodes := dmap_values (\<lambda>n. n\<lparr>cn_is_leader := (cn_node_id n = nid)\<rparr>) (cs_nodes s)\<rparr>)"

subsection \<open>Shared config and version\<close>

definition cs_set_config :: "string \<Rightarrow> string \<Rightarrow> cluster_state \<Rightarrow> cluster_state" where
  "cs_set_config key value s = s\<lparr>cs_config := dset key value (cs_config s)\<rparr>"

definition cs_get_config :: "string \<Rightarrow> cluster_state \<Rightarrow> string option" where
  "cs_get_config key s = dget (cs_config s) key"

definition config_copy :: "cluster_state \<Rightarrow> (string, string) dict" where
  "config_copy s = cs_config s"

definition cluster_version :: "cluster_state \<Rightarrow> int" where
  "cluster_version s = cs_cluster_version s"

subsection \<open>Lookups after each operation\<close>

named_theorems cs_defs "definitions of the cluster state's operations"
lemmas [cs_defs] = bump_def modify_node_def add_node_def remove_node_def update_node_heartbeat_def
  mark_suspect_def mark_dead_def mark_alive_def mark_leaving_def set_leader_def cs_set_config_def

lemma get_node_bump [simp]: "get_node (bump s) = get_node s"
  by (simp add: get_node_def bump_def fun_eq_iff)

lemma get_node_modify [simp]:
  "get_node (modify_node nid f s) m = (if m = nid then map_option f (get_node s nid) else get_node s m)"
  by (simp add: get_node_def modify_node_def)

lemma get_node_config [simp]: "get_node (cs_set_config k v s) = get_node s"
  by (simp add: get_node_def cs_set_config_def fun_eq_iff)

lemma get_node_add [simp]:
  "get_node (add_node n s) m = (if m = cn_node_id n then Some n else get_node s m)"
  by (simp add: add_node_def get_node_def bump_def)

lemma get_node_remove [simp]:
  "get_node (remove_node nid s) m = (if m = nid then None else get_node s m)"
  by (simp add: remove_node_def get_node_def bump_def dhas_def)

lemma get_node_set_leader [simp]:
  "get_node (set_leader nid s) m = map_option (\<lambda>n. n\<lparr>cn_is_leader := (cn_node_id n = nid)\<rparr>) (get_node s m)"
  by (simp add: set_leader_def get_node_def bump_def)

lemma get_node_other:
  assumes "m \<noteq> nid"
  shows "get_node (mark_suspect nid s) m = get_node s m"
    and "get_node (mark_dead nid s) m = get_node s m"
    and "get_node (mark_alive now nid s) m = get_node s m"
    and "get_node (mark_leaving nid s) m = get_node s m"
    and "get_node (update_node_heartbeat now nid s) m = get_node s m"
  using assms
  by (simp_all add: mark_suspect_def mark_dead_def mark_alive_def mark_leaving_def
      update_node_heartbeat_def split: option.split)

text \<open>The status of a node, and what each transition does to it.\<close>

definition status_of :: "cluster_state \<Rightarrow> string \<Rightarrow> node_status option" where
  "status_of s nid = map_option cn_status (get_node s nid)"

lemma status_update_heartbeat:
  "status_of (update_node_heartbeat now nid s) m =
     (if m = nid then map_option (\<lambda>st. if st \<in> {JOINING, SUSPECT} then ALIVE else st) (status_of s nid)
      else status_of s m)"
  by (auto simp: status_of_def update_node_heartbeat_def Let_def split: option.splits)

lemma status_mark_suspect:
  "status_of (mark_suspect nid s) m =
     (if m = nid then map_option (\<lambda>st. if st \<in> {DEAD, LEAVING} then st else SUSPECT) (status_of s nid)
      else status_of s m)"
  by (auto simp: status_of_def mark_suspect_def split: option.splits)

lemma status_mark_dead:
  "status_of (mark_dead nid s) m =
     (if m = nid then map_option (\<lambda>_. DEAD) (status_of s nid) else status_of s m)"
  by (auto simp: status_of_def mark_dead_def split: option.splits)

lemma status_mark_alive:
  "status_of (mark_alive now nid s) m =
     (if m = nid then map_option (\<lambda>_. ALIVE) (status_of s nid) else status_of s m)"
  by (auto simp: status_of_def mark_alive_def split: option.splits)

lemma status_mark_leaving:
  "status_of (mark_leaving nid s) m =
     (if m = nid then map_option (\<lambda>_. LEAVING) (status_of s nid) else status_of s m)"
  by (auto simp: status_of_def mark_leaving_def split: option.splits)

lemma status_add_node:
  "status_of (add_node n s) m = (if m = cn_node_id n then Some (cn_status n) else status_of s m)"
  by (simp add: status_of_def)

lemma status_config [simp]: "status_of (cs_set_config k v s) = status_of s"
  by (simp add: status_of_def fun_eq_iff)

lemmas status_simps = status_update_heartbeat status_mark_suspect status_mark_dead status_mark_alive
  status_mark_leaving status_add_node

subsection \<open>The invariant\<close>

text \<open>
  Ids are unique, each node is stored under its own id, at most one node carries the leader flag,
  and the version is not negative.
\<close>

definition one_leader :: "cluster_state \<Rightarrow> bool" where
  "one_leader s \<longleftrightarrow> (\<forall>a b n m. get_node s a = Some n \<longrightarrow> get_node s b = Some m \<longrightarrow>
     cn_is_leader n \<longrightarrow> cn_is_leader m \<longrightarrow> a = b)"

definition cs_ok :: "cluster_state \<Rightarrow> bool" where
  "cs_ok s \<longleftrightarrow> distinct (dkeys (cs_nodes s)) \<and> dall (\<lambda>k n. cn_node_id n = k) (cs_nodes s) \<and>
     one_leader s \<and> 0 \<le> cs_cluster_version s"

lemma cs_ok_new: "cs_ok (cs_new nid)"
  by (simp add: cs_ok_def cs_new_def one_leader_def get_node_def)

lemma cs_ok_bump [simp]: "cs_ok s \<Longrightarrow> cs_ok (bump s)"
  by (simp add: cs_ok_def one_leader_def) (simp add: bump_def)

lemma cs_ok_id: "cs_ok s \<Longrightarrow> get_node s k = Some n \<Longrightarrow> cn_node_id n = k"
  by (auto simp: cs_ok_def get_node_def dest: dall_get)

lemma cs_ok_modify:
  assumes "cs_ok s" "\<And>n. cn_node_id (f n) = cn_node_id n" "\<And>n. cn_is_leader (f n) \<Longrightarrow> cn_is_leader n"
  shows "cs_ok (modify_node nid f s)"
proof -
  have "one_leader (modify_node nid f s)"
    using assms(1,3) unfolding one_leader_def cs_ok_def by (auto split: if_splits)
  then show ?thesis using assms(1,2)
    by (auto simp: cs_ok_def modify_node_def intro!: dall_dmodify)
qed

lemma cs_ok_add:
  assumes "cs_ok s" "\<not> cn_is_leader n" shows "cs_ok (add_node n s)"
proof -
  have "one_leader (add_node n s)"
    using assms unfolding one_leader_def cs_ok_def by (auto split: if_splits)
  then show ?thesis using assms by (auto simp: cs_ok_def) (auto simp: add_node_def bump_def intro!: dall_dset)
qed

lemma cs_ok_remove: assumes "cs_ok s" shows "cs_ok (remove_node nid s)"
proof -
  have "one_leader (remove_node nid s)"
    using assms unfolding one_leader_def cs_ok_def by (auto split: if_splits)
  then show ?thesis using assms
    by (auto simp: cs_ok_def) (auto simp: remove_node_def bump_def intro!: dall_ddel)
qed

lemma cs_ok_set_leader: assumes "cs_ok s" shows "cs_ok (set_leader nid s)"
proof -
  have "one_leader (set_leader nid s)"
    unfolding one_leader_def by (auto dest!: cs_ok_id[OF assms])
  then show ?thesis using assms
    by (auto simp: cs_ok_def) (auto simp: set_leader_def bump_def intro!: dall_dmap_values)
qed

lemma cs_ok_config [simp]: "cs_ok (cs_set_config k v s) = cs_ok s"
  by (simp add: cs_ok_def one_leader_def) (simp add: cs_set_config_def)

lemma cs_ok_heartbeat: "cs_ok s \<Longrightarrow> cs_ok (update_node_heartbeat now nid s)"
  by (auto simp: update_node_heartbeat_def Let_def split: option.splits if_splits intro!: cs_ok_modify)

lemma cs_ok_suspect: "cs_ok s \<Longrightarrow> cs_ok (mark_suspect nid s)"
  by (auto simp: mark_suspect_def split: option.splits intro!: cs_ok_bump cs_ok_modify)

lemma cs_ok_dead: "cs_ok s \<Longrightarrow> cs_ok (mark_dead nid s)"
  by (auto simp: mark_dead_def split: option.splits intro!: cs_ok_bump cs_ok_modify)

lemma cs_ok_alive: "cs_ok s \<Longrightarrow> cs_ok (mark_alive now nid s)"
  by (auto simp: mark_alive_def split: option.splits intro!: cs_ok_bump cs_ok_modify)

lemma cs_ok_leaving: "cs_ok s \<Longrightarrow> cs_ok (mark_leaving nid s)"
  by (auto simp: mark_leaving_def split: option.splits intro!: cs_ok_bump cs_ok_modify)

lemmas cs_ok_intros = cs_ok_heartbeat cs_ok_suspect cs_ok_dead cs_ok_alive cs_ok_leaving
  cs_ok_add cs_ok_remove cs_ok_set_leader

lemma in_all_nodes:
  assumes "cs_ok s"
  shows "n \<in> set (get_all_nodes s) \<longleftrightarrow> get_node s (cn_node_id n) = Some n"
proof
  assume "n \<in> set (get_all_nodes s)"
  then obtain k where "get_node s k = Some n"
    using assms dvalues_dget[of "cs_nodes s" n] by (auto simp only: get_all_nodes_def cs_ok_def get_node_def)
  then show "get_node s (cn_node_id n) = Some n" using cs_ok_id[OF assms] by blast
next
  assume "get_node s (cn_node_id n) = Some n"
  then show "n \<in> set (get_all_nodes s)"
    by (simp only: get_all_nodes_def get_node_def dget_in_values)
qed

lemma in_alive_peers:
  "cs_ok s \<Longrightarrow> n \<in> set (get_alive_peers ex s) \<longleftrightarrow>
     get_node s (cn_node_id n) = Some n \<and> cn_status n = ALIVE \<and> Some (cn_node_id n) \<noteq> ex"
  using in_all_nodes[of s n] by (auto simp: get_alive_peers_def get_all_nodes_def)

end
