(* ===== verification/Membership.thy ===== *)
theory Membership imports ClusterStates begin

section \<open>Failure detection: heartbeat scan and gossip\<close>

text \<open>
  \<open>coordination/services/heartbeat.py\<close> and \<open>coordination/services/gossip.py\<close>. A scan or a round
  works on the list of node objects read at its start. \<open>random.sample\<close> is the parameter \<open>sample\<close>; the
  Pub/Sub transport is the parameter that says whether a publication succeeds, None while the
  protocol has no Redis client.
\<close>

subsection \<open>HeartbeatService\<close>

record heartbeat_service =
  hs_node_id :: string
  hs_interval :: flt
  hs_timeout :: flt

definition check_node :: "heartbeat_service \<Rightarrow> time \<Rightarrow> cluster_node \<Rightarrow> cluster_state \<Rightarrow> cluster_state" where
  "check_node hs now node s =
     (if cn_node_id node = hs_node_id hs then s
      else if cn_status node \<in> {DEAD, LEAVING} then s
      else let elapsed = now - cn_last_heartbeat node in
        if elapsed > hs_timeout hs * 2 then
          (if cn_status node \<noteq> DEAD then mark_dead (cn_node_id node) s else s)
        else if elapsed > hs_timeout hs then
          (if cn_status node \<noteq> SUSPECT then mark_suspect (cn_node_id node) s else s)
        else s)"

definition check_timeouts :: "heartbeat_service \<Rightarrow> time \<Rightarrow> cluster_state \<Rightarrow> cluster_state" where
  "check_timeouts hs now s = fold (check_node hs now) (get_all_nodes s) s"

text \<open>The loop runs one scan per clock reading until the shutdown event is set.\<close>

fun heartbeat_run :: "heartbeat_service \<Rightarrow> time list \<Rightarrow> cluster_state \<Rightarrow> cluster_state" where
  "heartbeat_run hs [] s = s"
| "heartbeat_run hs (now # ticks) s = heartbeat_run hs ticks (check_timeouts hs now s)"

text \<open>What a scan decides for one node, as a function of the silence and the status.\<close>

definition verdict :: "heartbeat_service \<Rightarrow> time \<Rightarrow> cluster_node \<Rightarrow> node_status" where
  "verdict hs now node =
     (if cn_node_id node = hs_node_id hs \<or> cn_status node \<in> {DEAD, LEAVING} then cn_status node
      else if now - cn_last_heartbeat node > hs_timeout hs * 2 then DEAD
      else if now - cn_last_heartbeat node > hs_timeout hs then SUSPECT
      else cn_status node)"

lemma check_node_status:
  assumes "get_node s (cn_node_id node) = Some node'" "cn_status node' = cn_status node"
  shows "status_of (check_node hs now node s) m =
    (if m = cn_node_id node then Some (verdict hs now node) else status_of s m)"
proof -
  have "status_of s (cn_node_id node) = Some (cn_status node)"
    using assms by (simp add: status_of_def)
  then show ?thesis unfolding check_node_def verdict_def Let_def
    by (auto simp: status_mark_dead status_mark_suspect)
qed

lemma check_node_other:
  "m \<noteq> cn_node_id node \<Longrightarrow> get_node (check_node hs now node s) m = get_node s m"
  unfolding check_node_def Let_def by (auto simp: get_node_other)

lemma check_fold_status:
  "\<lbrakk>distinct (map cn_node_id ns); \<And>n. n \<in> set ns \<Longrightarrow> get_node s (cn_node_id n) = Some n\<rbrakk> \<Longrightarrow>
   status_of (fold (check_node hs now) ns s) m =
     (case List.find (\<lambda>n. cn_node_id n = m) ns of
        Some n \<Rightarrow> Some (verdict hs now n) | None \<Rightarrow> status_of s m)"
proof (induction ns arbitrary: s)
  case (Cons n ns)
  have n: "get_node s (cn_node_id n) = Some n" using Cons.prems by simp
  have keep: "get_node (check_node hs now n s) (cn_node_id k) = Some k" if "k \<in> set ns" for k
    using that Cons.prems by (subst check_node_other) (auto simp: image_iff)
  have IH: "status_of (fold (check_node hs now) ns (check_node hs now n s)) m =
      (case List.find (\<lambda>n. cn_node_id n = m) ns of
         Some n \<Rightarrow> Some (verdict hs now n) | None \<Rightarrow> status_of (check_node hs now n s) m)"
    by (rule Cons.IH) (use Cons.prems keep in auto)
  show ?case
  proof (cases "cn_node_id n = m")
    case True
    have "\<forall>k \<in> set ns. cn_node_id k \<noteq> cn_node_id n"
      using Cons.prems(1) by (auto simp: image_iff)
    with True have "List.find (\<lambda>n. cn_node_id n = m) ns = None"
      by (simp add: find_None_all)
    then show ?thesis using True IH check_node_status[OF n refl] by simp
  next
    case False
    then show ?thesis using IH check_node_status[OF n refl, of hs now m]
      by (simp split: option.split)
  qed
qed simp

lemma ids_of_values: "cs_ok s \<Longrightarrow> map cn_node_id (get_all_nodes s) = dkeys (cs_nodes s)"
  by (auto simp: cs_ok_def get_all_nodes_def dall_def)

lemma check_timeouts_status_of:
  assumes "cs_ok s"
  shows "status_of (check_timeouts hs now s) m = map_option (verdict hs now) (get_node s m)"
proof -
  let ?ns = "get_all_nodes s"
  have d: "distinct (map cn_node_id ?ns)" using assms ids_of_values[OF assms] by (simp add: cs_ok_def)
  have g: "get_node s (cn_node_id n) = Some n" if "n \<in> set ?ns" for n
    using in_all_nodes[OF assms] that by simp
  have st: "status_of (check_timeouts hs now s) m =
     (case List.find (\<lambda>n. cn_node_id n = m) ?ns of
        Some n \<Rightarrow> Some (verdict hs now n) | None \<Rightarrow> status_of s m)"
    unfolding check_timeouts_def by (rule check_fold_status[OF d g])
  show ?thesis
  proof (cases "List.find (\<lambda>n. cn_node_id n = m) ?ns")
    case None
    then have "m \<notin> set (dkeys (cs_nodes s))"
      using ids_of_values[OF assms] by (auto simp: find_None_iff simp flip: ids_of_values[OF assms])
    then have "get_node s m = None" by (simp add: get_node_def map_of_eq_None_iff)
    with st None show ?thesis by (simp add: status_of_def)
  next
    case (Some n)
    then have "get_node s m = Some n" using g find_Some_in[OF Some] by auto
    with st Some show ?thesis by simp
  qed
qed

lemma cs_ok_check_node: "cs_ok s \<Longrightarrow> cs_ok (check_node hs now n s)"
  unfolding check_node_def Let_def by (auto simp: cs_ok_dead cs_ok_suspect)

lemma cs_ok_fold: "(\<And>x s. cs_ok s \<Longrightarrow> cs_ok (f x s)) \<Longrightarrow> cs_ok s \<Longrightarrow> cs_ok (fold f xs s)"
  by (induction xs arbitrary: s) auto

lemma cs_ok_check_timeouts: "cs_ok s \<Longrightarrow> cs_ok (check_timeouts hs now s)"
  unfolding check_timeouts_def by (rule cs_ok_fold) (auto intro: cs_ok_check_node)

subsection \<open>GossipProtocol\<close>

record ping =
  pg_from_node_id :: string
  pg_target_node_id :: string
  pg_sequence :: int
  pg_timestamp :: time

record gossip =
  gp_node_id :: string
  gp_interval :: flt
  gp_fanout :: nat
  gp_redis :: "(ping \<Rightarrow> bool) option"
  gp_sequence :: int

definition gossip_new :: "string \<Rightarrow> flt \<Rightarrow> nat \<Rightarrow> (ping \<Rightarrow> bool) option \<Rightarrow> gossip" where
  "gossip_new nid interval fanout redis =
     \<lparr>gp_node_id = nid, gp_interval = interval, gp_fanout = fanout, gp_redis = redis, gp_sequence = 0\<rparr>"

definition set_redis :: "(ping \<Rightarrow> bool) \<Rightarrow> gossip \<Rightarrow> gossip" where
  "set_redis redis g = g\<lparr>gp_redis := Some redis\<rparr>"

definition ping_peer :: "time \<Rightarrow> cluster_node \<Rightarrow> gossip \<Rightarrow> gossip \<times> bool" where
  "ping_peer now peer g =
     (case gp_redis g of None \<Rightarrow> (g, False)
      | Some publish \<Rightarrow>
          let g = g\<lparr>gp_sequence := gp_sequence g + 1\<rparr>;
              payload = \<lparr>pg_from_node_id = gp_node_id g, pg_target_node_id = cn_node_id peer,
                         pg_sequence = gp_sequence g, pg_timestamp = now\<rparr>
          in (g, publish payload))"

definition probe :: "time \<Rightarrow> cluster_node \<Rightarrow> gossip \<times> cluster_state \<Rightarrow> gossip \<times> cluster_state" where
  "probe now peer gs =
     (let (g, success) = ping_peer now peer (fst gs)
      in (g, if success then snd gs else mark_suspect (cn_node_id peer) (snd gs)))"

definition gossip_round ::
  "(cluster_node list \<Rightarrow> nat \<Rightarrow> cluster_node list) \<Rightarrow> time \<Rightarrow> gossip \<times> cluster_state \<Rightarrow> gossip \<times> cluster_state" where
  "gossip_round sample now gs =
     (let peers = get_alive_peers (Some (gp_node_id (fst gs))) (snd gs)
      in if peers = [] then gs
         else fold (probe now) (sample peers (min (gp_fanout (fst gs)) (length peers))) gs)"

text \<open>\<open>random.sample(peers, k)\<close>: k members at distinct positions.\<close>

definition sample_law :: "('a list \<Rightarrow> nat \<Rightarrow> 'a list) \<Rightarrow> bool" where
  "sample_law sample \<longleftrightarrow> (\<forall>xs k. k \<le> length xs \<longrightarrow> distinct xs \<longrightarrow>
     length (sample xs k) = k \<and> distinct (sample xs k) \<and> set (sample xs k) \<subseteq> set xs)"

definition handle_ping :: "time \<Rightarrow> string \<Rightarrow> cluster_state \<Rightarrow> cluster_state" where
  "handle_ping now from_node_id s = update_node_heartbeat now from_node_id s"

text \<open>
  A Pub/Sub message: text that is not JSON, or an object of strings. A bad message is logged and
  dropped, as is an object without the sender.
\<close>

datatype gossip_message = NotJson | Fields "(string, string) dict"

fun on_gossip_message :: "time \<Rightarrow> gossip \<Rightarrow> gossip_message \<Rightarrow> cluster_state \<Rightarrow> cluster_state" where
  "on_gossip_message now g NotJson s = s"
| "on_gossip_message now g (Fields msg) s =
     (if dget_or msg ''target_node_id'' '''' = gp_node_id g
      then (case dget msg ''from_node_id'' of None \<Rightarrow> s | Some from_id \<Rightarrow> handle_ping now from_id s)
      else s)"

fun listen_for_pings :: "gossip \<Rightarrow> (time \<times> gossip_message) list \<Rightarrow> cluster_state \<Rightarrow> cluster_state" where
  "listen_for_pings g [] s = s"
| "listen_for_pings g ((now, m) # ms) s =
     (if gp_redis g = None then s else listen_for_pings g ms (on_gossip_message now g m s))"

lemma probe_fields [simp]:
  "gp_redis (fst (probe now p gs)) = gp_redis (fst gs)"
  "gp_node_id (fst (probe now p gs)) = gp_node_id (fst gs)"
  "gp_fanout (fst (probe now p gs)) = gp_fanout (fst gs)"
  by (auto simp: probe_def ping_peer_def Let_def split: option.splits prod.splits)

lemma probe_status:
  "status_of (snd (probe now p gs)) m =
     (if snd (ping_peer now p (fst gs)) then status_of (snd gs) m
      else status_of (mark_suspect (cn_node_id p) (snd gs)) m)"
  by (auto simp: probe_def split: prod.splits)

lemma cs_ok_probe: "cs_ok (snd gs) \<Longrightarrow> cs_ok (snd (probe now p gs))"
  by (auto simp: probe_def split: prod.splits intro: cs_ok_suspect)

lemma cs_ok_probes: "cs_ok (snd gs) \<Longrightarrow> cs_ok (snd (fold (probe now) ps gs))"
proof (induction ps arbitrary: gs)
  case (Cons p ps)
  then show ?case using Cons.IH[OF cs_ok_probe] by (simp del: split_paired_All)
qed simp

lemma cs_ok_gossip_round: "cs_ok (snd gs) \<Longrightarrow> cs_ok (snd (gossip_round sample now gs))"
  by (auto simp: gossip_round_def Let_def intro: cs_ok_probes)

text \<open>A probe only ever moves a node to SUSPECT, and never a DEAD or LEAVING one.\<close>

lemma probes_status:
  "status_of (snd (fold (probe now) ps gs)) m = status_of (snd gs) m \<or>
   (m \<in> cn_node_id ` set ps \<and> status_of (snd (fold (probe now) ps gs)) m = Some SUSPECT \<and>
    status_of (snd gs) m \<notin> {None, Some DEAD, Some LEAVING})"
proof (induction ps arbitrary: gs)
  case (Cons p ps)
  have p: "status_of (snd (probe now p gs)) m = status_of (snd gs) m \<or>
      m = cn_node_id p \<and> status_of (snd (probe now p gs)) m = Some SUSPECT \<and>
      status_of (snd gs) m \<notin> {None, Some DEAD, Some LEAVING}"
    by (cases "status_of (snd gs) (cn_node_id p)") (auto simp: probe_status status_mark_suspect)
  show ?case using Cons.IH[of "probe now p gs"] p by auto
qed simp

lemma probes_no_redis:
  "gp_redis (fst gs) = None \<Longrightarrow>
   status_of (snd (fold (probe now) ps gs)) m =
     (if m \<in> cn_node_id ` set ps
      then map_option (\<lambda>st. if st \<in> {DEAD, LEAVING} then st else SUSPECT) (status_of (snd gs) m)
      else status_of (snd gs) m)"
proof (induction ps arbitrary: gs)
  case (Cons p ps)
  have "gp_redis (fst (probe now p gs)) = None" using Cons.prems by simp
  moreover have "\<not> snd (ping_peer now p (fst gs))" using Cons.prems by (simp add: ping_peer_def)
  ultimately show ?case using Cons.IH[of "probe now p gs"]
    by (cases "status_of (snd gs) m") (auto simp: probe_status status_mark_suspect)
qed simp

lemma status_gossip_message:
  "status_of (on_gossip_message now g m s) k = status_of s k \<or>
   status_of s k \<in> {Some JOINING, Some SUSPECT} \<and> status_of (on_gossip_message now g m s) k = Some ALIVE"
  by (cases m; cases "status_of s k")
    (auto simp: handle_ping_def status_update_heartbeat split: option.split)

lemma cs_ok_gossip_message: "cs_ok s \<Longrightarrow> cs_ok (on_gossip_message now g m s)"
  by (cases m) (simp_all add: handle_ping_def cs_ok_heartbeat split: option.split)

end
