(* ===== verification/Redis.thy ===== *)
theory Redis imports Prelude begin

section \<open>The Redis client\<close>

text \<open>
  \<open>shared/database/redis_client.py\<close> wraps \<open>redis.asyncio\<close>. The server is not code of the repository:
  it is the record of commands \<open>redis\<close>, an argument of every definition that talks to it, over an
  arbitrary type of server states. What the code relies on of the documented commands (GET, SET with
  EX and NX, DEL, INCR and the expiry of keys) is the locale \<open>redis_kv\<close>; \<open>ref_redis\<close> is an
  executable store that satisfies it.
\<close>

record 's redis =
  srv_get :: "'s \<Rightarrow> string \<Rightarrow> string option"
  srv_set :: "'s \<Rightarrow> string \<Rightarrow> string \<Rightarrow> int option \<Rightarrow> bool \<Rightarrow> 's \<times> bool"
  srv_del :: "'s \<Rightarrow> string list \<Rightarrow> 's \<times> int"
  srv_incr :: "'s \<Rightarrow> string \<Rightarrow> 's \<times> int"
  srv_ttl :: "'s \<Rightarrow> string \<Rightarrow> time option"
  srv_elapse :: "time \<Rightarrow> 's \<Rightarrow> 's"

subsection \<open>The wrapper's key/value methods\<close>

definition rc_get :: "'s redis \<Rightarrow> 's \<Rightarrow> string \<Rightarrow> string option" where
  "rc_get R s key = srv_get R s key"

definition rc_set :: "'s redis \<Rightarrow> 's \<Rightarrow> string \<Rightarrow> string \<Rightarrow> int option \<Rightarrow> bool \<Rightarrow> 's \<times> bool" where
  "rc_set R s key val ex nx = srv_set R s key val ex nx"

definition rc_delete :: "'s redis \<Rightarrow> 's \<Rightarrow> string list \<Rightarrow> 's \<times> int" where
  "rc_delete R s keys = srv_del R s keys"

text \<open>An expiry the server accepts: absent or positive.\<close>

definition ex_ok :: "int option \<Rightarrow> bool" where
  "ex_ok ex = (case ex of None \<Rightarrow> True | Some e \<Rightarrow> 0 < e)"

subsection \<open>The documented behaviour of the commands\<close>

locale redis_kv =
  fixes R :: "'s redis"
  assumes set_plain: "ex_ok ex \<Longrightarrow> rc_set R s k v ex False = (s', b) \<Longrightarrow>
      b \<and> rc_get R s' = (rc_get R s)(k := Some v)
        \<and> srv_ttl R s' = (srv_ttl R s)(k := map_option of_int ex)"
    and set_nx_free: "ex_ok ex \<Longrightarrow> rc_get R s k = None \<Longrightarrow> rc_set R s k v ex True = (s', b) \<Longrightarrow>
      b \<and> rc_get R s' = (rc_get R s)(k := Some v)
        \<and> srv_ttl R s' = (srv_ttl R s)(k := map_option of_int ex)"
    and set_nx_taken: "rc_get R s k = Some w \<Longrightarrow> rc_set R s k v ex True = (s, False)"
    and del_get: "rc_delete R s ks = (s', n) \<Longrightarrow>
      rc_get R s' k = (if k \<in> set ks then None else rc_get R s k)"
    and incr_free: "rc_get R s k = None \<Longrightarrow> srv_incr R s k = (s', n) \<Longrightarrow>
      n = 1 \<and> rc_get R s' = (rc_get R s)(k := Some (nat_str 1))"
    and incr_num: "rc_get R s k = Some (nat_str m) \<Longrightarrow> srv_incr R s k = (s', n) \<Longrightarrow>
      n = int m + 1 \<and> rc_get R s' = (rc_get R s)(k := Some (nat_str (m + 1)))"
    and elapse_get: "0 \<le> d \<Longrightarrow> rc_get R (srv_elapse R d s) k =
      (case srv_ttl R s k of None \<Rightarrow> rc_get R s k
       | Some t \<Rightarrow> if t \<le> d then None else rc_get R s k)"
    and elapse_ttl: "0 \<le> d \<Longrightarrow> srv_ttl R (srv_elapse R d s) k =
      (case srv_ttl R s k of None \<Rightarrow> None | Some t \<Rightarrow> if t \<le> d then None else Some (t - d))"
begin

lemma set_nx_cases:
  assumes "ex_ok ex" "rc_set R s k v ex True = (s', b)"
  obtains (free) "rc_get R s k = None" "b" "rc_get R s' = (rc_get R s)(k := Some v)"
      "srv_ttl R s' = (srv_ttl R s)(k := map_option of_int ex)"
    | (taken) w where "rc_get R s k = Some w" "\<not> b" "s' = s"
  using assms set_nx_free[of ex s k v s' b] set_nx_taken[of s k _ v ex]
  by (cases "rc_get R s k") auto

lemma elapse_keeps: "0 \<le> d \<Longrightarrow> rc_get R (srv_elapse R d s) k = Some v \<Longrightarrow> rc_get R s k = Some v"
  by (auto simp: elapse_get split: option.splits if_splits)

lemma elapse_within:
  "0 \<le> d \<Longrightarrow> srv_ttl R s k = Some t \<Longrightarrow> d < t \<Longrightarrow>
   rc_get R (srv_elapse R d s) k = rc_get R s k \<and> srv_ttl R (srv_elapse R d s) k = Some (t - d)"
  by (simp add: elapse_get elapse_ttl)

end

subsection \<open>A reference store\<close>

text \<open>Key, value and remaining time to live; an expired entry is removed as time passes.\<close>

type_synonym store = "(string, string \<times> time option) dict"

definition ref_get :: "store \<Rightarrow> string \<Rightarrow> string option" where
  "ref_get s k = map_option fst (dget s k)"

definition ref_set :: "store \<Rightarrow> string \<Rightarrow> string \<Rightarrow> int option \<Rightarrow> bool \<Rightarrow> store \<times> bool" where
  "ref_set s k v ex nx =
     (if nx \<and> dhas s k then (s, False) else (dset k (v, map_option of_int ex) s, True))"

definition ref_del :: "store \<Rightarrow> string list \<Rightarrow> store \<times> int" where
  "ref_del s ks = (fold ddel ks s, int (length [k \<leftarrow> remdups ks. dhas s k]))"

definition ref_incr :: "store \<Rightarrow> string \<Rightarrow> store \<times> int" where
  "ref_incr s k =
     (let m = (case dget s k of None \<Rightarrow> 0 | Some (v, _) \<Rightarrow> (case py_int v of None \<Rightarrow> 0 | Some m \<Rightarrow> m));
          t = (case dget s k of None \<Rightarrow> None | Some (_, t) \<Rightarrow> t)
      in (dset k (nat_str (m + 1), t) s, int m + 1))"

definition ref_ttl :: "store \<Rightarrow> string \<Rightarrow> time option" where
  "ref_ttl s k = (case dget s k of None \<Rightarrow> None | Some (_, t) \<Rightarrow> t)"

function ref_elapse :: "time \<Rightarrow> store \<Rightarrow> store" where
  "ref_elapse d [] = []"
| "ref_elapse d ((k, v, None) # s) = (k, v, None) # ref_elapse d s"
| "ref_elapse d ((k, v, Some t) # s) =
     (if t \<le> d then ref_elapse d (ddel k s) else (k, v, Some (t - d)) # ref_elapse d s)"
  by pat_completeness auto
termination
  by (relation "measure (\<lambda>(d, s). length s)") (auto simp: le_imp_less_Suc length_delete_le)

definition ref_redis :: "store redis" where
  "ref_redis = \<lparr>srv_get = ref_get, srv_set = ref_set, srv_del = ref_del, srv_incr = ref_incr,
     srv_ttl = ref_ttl, srv_elapse = ref_elapse\<rparr>"

lemmas ref_defs = ref_redis_def rc_get_def rc_set_def rc_delete_def ref_get_def ref_set_def
  ref_ttl_def

lemma ref_fold_del: "dget (fold ddel ks s) k = (if k \<in> set ks then None else dget s k)"
  by (induction ks arbitrary: s) auto

lemma ref_elapse_get:
  "dget (ref_elapse d s) k =
     (case dget s k of None \<Rightarrow> None | Some (v, None) \<Rightarrow> Some (v, None)
      | Some (v, Some t) \<Rightarrow> if t \<le> d then None else Some (v, Some (t - d)))"
  by (induction d s rule: ref_elapse.induct) (auto split: option.splits)

interpretation ref: redis_kv ref_redis
proof (unfold_locales, goal_cases)
  case (4 s ks s' n k)
  then show ?case by (auto simp: ref_defs ref_del_def ref_fold_del)
next
  case (5 s k s' n)
  then show ?case by (auto simp: ref_defs ref_incr_def Let_def fun_eq_iff)
next
  case (6 s k m s' n)
  then show ?case by (auto simp: ref_defs ref_incr_def Let_def fun_eq_iff split: prod.splits)
next
  case (7 d s k)
  then show ?case by (auto simp: ref_defs ref_elapse_get split: option.splits)
next
  case (8 d s k)
  then show ?case by (auto simp: ref_defs ref_elapse_get split: option.splits)
qed (auto simp: ref_defs fun_eq_iff dhas_def split: if_splits)

end
