(* ===== verification/Election.thy ===== *)
theory Election imports Redis begin

section \<open>Leader election\<close>

text \<open>
  \<open>coordination/services/leader_election.py\<close>: one Redis key with a time to live. First the methods run
  without interference, and a campaign of many nodes whose method calls are atomic. Then the same
  methods one Redis command at a time (\<open>elect_step\<close>): every \<open>await\<close> of the source is a point where
  other nodes and the clock may move.
\<close>

subsection \<open>The class\<close>

record leader_election =
  le_node_id :: string
  le_ttl :: int
  le_is_leader :: bool

definition le_new :: "string \<Rightarrow> int \<Rightarrow> leader_election" where
  "le_new nid ttl = \<lparr>le_node_id = nid, le_ttl = ttl, le_is_leader = False\<rparr>"

definition LOCK_KEY :: string where
  "LOCK_KEY = ''iot-gateway:leader''"

definition try_acquire ::
  "'s redis \<Rightarrow> 's \<Rightarrow> leader_election \<Rightarrow> 's \<times> leader_election \<times> bool" where
  "try_acquire R s le =
     (let (s1, result) = rc_set R s LOCK_KEY (le_node_id le) (Some (le_ttl le)) True
      in if result then (s1, le\<lparr>le_is_leader := True\<rparr>, True)
         else let current = rc_get R s1 LOCK_KEY
              in if current = Some (le_node_id le)
                 then (let (s2, _) = rc_set R s1 LOCK_KEY (le_node_id le) (Some (le_ttl le)) False
                       in (s2, le\<lparr>le_is_leader := True\<rparr>, True))
                 else (s1, le\<lparr>le_is_leader := False\<rparr>, False))"

definition le_get_leader :: "'s redis \<Rightarrow> 's \<Rightarrow> string option" where
  "le_get_leader R s = rc_get R s LOCK_KEY"

definition release :: "'s redis \<Rightarrow> 's \<Rightarrow> leader_election \<Rightarrow> 's \<times> leader_election" where
  "release R s le =
     (if le_is_leader le
      then (let current = rc_get R s LOCK_KEY;
                s' = (if current = Some (le_node_id le) then fst (rc_delete R s [LOCK_KEY]) else s)
            in (s', le\<lparr>le_is_leader := False\<rparr>))
      else (s, le))"

text \<open>
  One turn of the background loop: an attempt (skipped with a log line when Redis raises), then the
  wait. The loop runs the turns it gets before the shutdown event is set.
\<close>

fun run_election_loop ::
  "'s redis \<Rightarrow> (bool \<times> time) list \<Rightarrow> 's \<times> leader_election \<Rightarrow> 's \<times> leader_election" where
  "run_election_loop R [] (s, le) = (s, le)"
| "run_election_loop R ((raises, wait) # turns) (s, le) =
     (let (s1, le1) = (if raises then (s, le)
                       else (let (s', le', _) = try_acquire R s le in (s', le')))
      in run_election_loop R turns (srv_elapse R wait s1, le1))"

context redis_kv begin

lemma try_acquire_cases:
  assumes "try_acquire R s le = (s', le', b)" "0 < le_ttl le"
  shows "le' = le\<lparr>le_is_leader := b\<rparr> \<and>
    b = (rc_get R s LOCK_KEY = None \<or> rc_get R s LOCK_KEY = Some (le_node_id le)) \<and>
    (if b then rc_get R s' = (rc_get R s)(LOCK_KEY := Some (le_node_id le)) \<and>
               srv_ttl R s' = (srv_ttl R s)(LOCK_KEY := Some (of_int (le_ttl le)))
     else s' = s)"
proof -
  have ex: "ex_ok (Some (le_ttl le))" using assms(2) by (simp add: ex_ok_def)
  obtain s1 r where r: "rc_set R s LOCK_KEY (le_node_id le) (Some (le_ttl le)) True = (s1, r)"
    by fastforce
  obtain s2 r2 where r2: "rc_set R s1 LOCK_KEY (le_node_id le) (Some (le_ttl le)) False = (s2, r2)"
    by fastforce
  show ?thesis
  proof (cases "rc_get R s LOCK_KEY")
    case None
    then show ?thesis using set_nx_free[OF ex None r] assms(1) r
      by (simp add: try_acquire_def)
  next
    case (Some w)
    then have s1: "s1 = s" "\<not> r" using set_nx_taken[OF Some, of "le_node_id le" "Some (le_ttl le)"] r
      by simp_all
    show ?thesis
    proof (cases "w = le_node_id le")
      case True
      then show ?thesis using set_plain[OF ex r2] assms(1) r r2 s1 Some
        by (simp add: try_acquire_def Let_def)
    next
      case False
      then show ?thesis using assms(1) r s1 Some by (simp add: try_acquire_def Let_def)
    qed
  qed
qed

lemma release_cases:
  assumes "release R s le = (s', le')"
  shows "le' = le\<lparr>le_is_leader := False\<rparr> \<and>
    (if le_is_leader le \<and> rc_get R s LOCK_KEY = Some (le_node_id le)
     then rc_get R s' LOCK_KEY = None else s' = s)"
proof -
  obtain s2 n where d: "rc_delete R s [LOCK_KEY] = (s2, n)" by fastforce
  have "rc_get R s2 LOCK_KEY = None" using del_get[OF d, of LOCK_KEY] by simp
  then show ?thesis using assms d unfolding release_def Let_def
    by (cases "le_is_leader le"; cases "rc_get R s LOCK_KEY = Some (le_node_id le)") auto
qed

end

subsection \<open>A campaign of nodes with atomic calls\<close>

text \<open>
  The store, every node's object, and the time left of the lease its last successful attempt took
  (a ghost of the node's own clock).
\<close>

record 's campaign =
  cp_store :: 's
  cp_node :: "string \<Rightarrow> leader_election"
  cp_lease :: "string \<Rightarrow> time"

definition campaign_init :: "'s redis \<Rightarrow> 's campaign \<Rightarrow> bool" where
  "campaign_init R c \<longleftrightarrow> (\<forall>n. le_node_id (cp_node c n) = n \<and> 0 < le_ttl (cp_node c n) \<and>
     \<not> le_is_leader (cp_node c n))"

inductive campaign_step :: "'s redis \<Rightarrow> 's campaign \<Rightarrow> 's campaign \<Rightarrow> bool" for R where
  attempt: "try_acquire R (cp_store c) (cp_node c n) = (s', le', b) \<Longrightarrow>
    campaign_step R c (c\<lparr>cp_store := s', cp_node := (cp_node c)(n := le'),
      cp_lease := (if b then (cp_lease c)(n := of_int (le_ttl le')) else cp_lease c)\<rparr>)"
| resign: "release R (cp_store c) (cp_node c n) = (s', le') \<Longrightarrow>
    campaign_step R c (c\<lparr>cp_store := s', cp_node := (cp_node c)(n := le')\<rparr>)"
| elapse: "0 \<le> d \<Longrightarrow>
    campaign_step R c (c\<lparr>cp_store := srv_elapse R d (cp_store c), cp_lease := (\<lambda>n. cp_lease c n - d)\<rparr>)"

inductive campaign_reachable :: "'s redis \<Rightarrow> 's campaign \<Rightarrow> bool" for R where
  start: "campaign_init R c \<Longrightarrow> campaign_reachable R c"
| step: "campaign_reachable R c \<Longrightarrow> campaign_step R c c' \<Longrightarrow> campaign_reachable R c'"

text \<open>A node whose lease has not run out.\<close>

definition in_office :: "'s campaign \<Rightarrow> string \<Rightarrow> bool" where
  "in_office c n \<longleftrightarrow> le_is_leader (cp_node c n) \<and> 0 < cp_lease c n"

definition campaign_inv :: "'s redis \<Rightarrow> 's campaign \<Rightarrow> bool" where
  "campaign_inv R c \<longleftrightarrow> (\<forall>n. le_node_id (cp_node c n) = n \<and> 0 < le_ttl (cp_node c n) \<and>
     (in_office c n \<longrightarrow> rc_get R (cp_store c) LOCK_KEY = Some n \<and>
        srv_ttl R (cp_store c) LOCK_KEY = Some (cp_lease c n)))"

lemma campaign_inv_init: "campaign_init R c \<Longrightarrow> campaign_inv R c"
  by (simp add: campaign_init_def campaign_inv_def in_office_def)

context redis_kv begin

lemma campaign_inv_attempt:
  assumes inv: "campaign_inv R c" and t: "try_acquire R (cp_store c) (cp_node c n) = (s', le', b)"
  shows "campaign_inv R (c\<lparr>cp_store := s', cp_node := (cp_node c)(n := le'),
      cp_lease := (if b then (cp_lease c)(n := of_int (le_ttl le')) else cp_lease c)\<rparr>)"
proof -
  have n: "le_node_id (cp_node c n) = n" "0 < le_ttl (cp_node c n)"
    using inv by (auto simp: campaign_inv_def)
  note cs = try_acquire_cases[OF t n(2)]
  show ?thesis
  proof (cases b)
    case True
    then have free: "\<not> in_office c m" if "m \<noteq> n" for m
      using cs inv that n by (auto simp: campaign_inv_def)
    show ?thesis using True cs inv n free by (auto simp: campaign_inv_def in_office_def)
  next
    case False
    then show ?thesis using cs inv n by (auto simp: campaign_inv_def in_office_def)
  qed
qed

lemma campaign_inv_resign:
  assumes inv: "campaign_inv R c" and t: "release R (cp_store c) (cp_node c n) = (s', le')"
  shows "campaign_inv R (c\<lparr>cp_store := s', cp_node := (cp_node c)(n := le')\<rparr>)"
proof -
  have n: "le_node_id (cp_node c n) = n" using inv by (auto simp: campaign_inv_def)
  note cs = release_cases[OF t]
  show ?thesis
  proof (cases "rc_get R (cp_store c) LOCK_KEY = Some n")
    case True
    then have "\<not> in_office c m" if "m \<noteq> n" for m
      using inv that by (auto simp: campaign_inv_def)
    then show ?thesis using cs inv n True by (auto simp: campaign_inv_def in_office_def)
  next
    case False
    then show ?thesis using cs inv n by (auto simp: campaign_inv_def in_office_def)
  qed
qed

lemma campaign_inv_elapse:
  assumes inv: "campaign_inv R c" and d: "0 \<le> d"
  shows "campaign_inv R
    (c\<lparr>cp_store := srv_elapse R d (cp_store c), cp_lease := (\<lambda>n. cp_lease c n - d)\<rparr>)"
proof -
  have "rc_get R (srv_elapse R d (cp_store c)) LOCK_KEY = Some n \<and>
      srv_ttl R (srv_elapse R d (cp_store c)) LOCK_KEY = Some (cp_lease c n - d)"
    if "le_is_leader (cp_node c n)" "0 < cp_lease c n - d" for n
  proof -
    have "in_office c n" using that d by (auto simp: in_office_def)
    then have g: "rc_get R (cp_store c) LOCK_KEY = Some n"
      "srv_ttl R (cp_store c) LOCK_KEY = Some (cp_lease c n)"
      using inv by (auto simp: campaign_inv_def)
    show ?thesis using elapse_within[OF d g(2)] that g by simp
  qed
  then show ?thesis using inv by (auto simp: campaign_inv_def in_office_def)
qed

lemma campaign_inv_step: "campaign_step R c c' \<Longrightarrow> campaign_inv R c \<Longrightarrow> campaign_inv R c'"
proof (induction rule: campaign_step.induct)
  case (attempt c n s' le' b)
  then show ?case by (rule campaign_inv_attempt[rotated])
next
  case (resign c n s' le')
  then show ?case by (rule campaign_inv_resign[rotated])
next
  case (elapse d c)
  then show ?case by (rule campaign_inv_elapse[rotated])
qed

lemma campaign_reachable_inv: "campaign_reachable R c \<Longrightarrow> campaign_inv R c"
  by (induction rule: campaign_reachable.induct) (auto intro: campaign_inv_init campaign_inv_step)

lemma single_leader:
  "campaign_reachable R c \<Longrightarrow> in_office c n \<Longrightarrow> in_office c m \<Longrightarrow> n = m"
  using campaign_reachable_inv[of c] by (metis campaign_inv_def option.inject)

end

subsection \<open>One Redis command at a time\<close>

text \<open>
  Where a task of a node stands between two commands: idle, after a failed SET NX (about to GET),
  after a GET that returned the own id (about to renew), and after the same GET inside \<open>release\<close>.
  A process is a node and a task number, since the loop and the shutdown handler of a node may both
  be under way.
\<close>

datatype le_pc = Idle | Check | Renew | Drop

type_synonym proc = "string \<times> nat"

record 's elect =
  el_store :: 's
  el_pc :: "proc \<Rightarrow> le_pc"
  el_leader :: "string \<Rightarrow> bool"

definition el_init :: "'s \<Rightarrow> 's elect" where
  "el_init s = \<lparr>el_store = s, el_pc = (\<lambda>_. Idle), el_leader = (\<lambda>_. False)\<rparr>"

inductive elect_step :: "'s redis \<Rightarrow> int \<Rightarrow> 's elect \<Rightarrow> 's elect \<Rightarrow> bool" for R ttl where
  set_nx_won: "el_pc c p = Idle \<Longrightarrow> rc_set R (el_store c) LOCK_KEY (fst p) (Some ttl) True = (s', True) \<Longrightarrow>
    elect_step R ttl c (c\<lparr>el_store := s', el_leader := (el_leader c)(fst p := True)\<rparr>)"
| set_nx_lost: "el_pc c p = Idle \<Longrightarrow> rc_set R (el_store c) LOCK_KEY (fst p) (Some ttl) True = (s', False) \<Longrightarrow>
    elect_step R ttl c (c\<lparr>el_store := s', el_pc := (el_pc c)(p := Check)\<rparr>)"
| get_mine: "el_pc c p = Check \<Longrightarrow> rc_get R (el_store c) LOCK_KEY = Some (fst p) \<Longrightarrow>
    elect_step R ttl c (c\<lparr>el_pc := (el_pc c)(p := Renew)\<rparr>)"
| get_other: "el_pc c p = Check \<Longrightarrow> rc_get R (el_store c) LOCK_KEY \<noteq> Some (fst p) \<Longrightarrow>
    elect_step R ttl c (c\<lparr>el_pc := (el_pc c)(p := Idle), el_leader := (el_leader c)(fst p := False)\<rparr>)"
| renew: "el_pc c p = Renew \<Longrightarrow> rc_set R (el_store c) LOCK_KEY (fst p) (Some ttl) False = (s', b) \<Longrightarrow>
    elect_step R ttl c (c\<lparr>el_store := s', el_pc := (el_pc c)(p := Idle),
      el_leader := (el_leader c)(fst p := True)\<rparr>)"
| release_mine: "el_pc c p = Idle \<Longrightarrow> el_leader c (fst p) \<Longrightarrow>
    rc_get R (el_store c) LOCK_KEY = Some (fst p) \<Longrightarrow>
    elect_step R ttl c (c\<lparr>el_pc := (el_pc c)(p := Drop)\<rparr>)"
| release_other: "el_pc c p = Idle \<Longrightarrow> el_leader c (fst p) \<Longrightarrow>
    rc_get R (el_store c) LOCK_KEY \<noteq> Some (fst p) \<Longrightarrow>
    elect_step R ttl c (c\<lparr>el_leader := (el_leader c)(fst p := False)\<rparr>)"
| drop: "el_pc c p = Drop \<Longrightarrow>
    elect_step R ttl c (c\<lparr>el_store := fst (rc_delete R (el_store c) [LOCK_KEY]),
      el_pc := (el_pc c)(p := Idle), el_leader := (el_leader c)(fst p := False)\<rparr>)"
| redis_error: "elect_step R ttl c (c\<lparr>el_pc := (el_pc c)(p := Idle)\<rparr>)"
| time_passes: "0 \<le> d \<Longrightarrow> elect_step R ttl c (c\<lparr>el_store := srv_elapse R d (el_store c)\<rparr>)"

inductive elect_reachable :: "'s redis \<Rightarrow> int \<Rightarrow> 's elect \<Rightarrow> 's elect \<Rightarrow> bool" for R ttl where
  no_step: "elect_reachable R ttl c c"
| one_more: "elect_reachable R ttl c c' \<Longrightarrow> elect_step R ttl c' c'' \<Longrightarrow> elect_reachable R ttl c c''"

lemma elect_reachable_one: "elect_step R ttl c c' \<Longrightarrow> elect_reachable R ttl c c'"
  by (blast intro: elect_reachable.intros)

lemma elect_reachable_two:
  "elect_step R ttl c c' \<Longrightarrow> elect_step R ttl c' c'' \<Longrightarrow> elect_reachable R ttl c c''"
  by (blast intro: elect_reachable.intros)

lemma elect_reachable_three:
  "elect_step R ttl c c' \<Longrightarrow> elect_step R ttl c' c'' \<Longrightarrow> elect_step R ttl c'' d \<Longrightarrow>
   elect_reachable R ttl c d"
  by (blast intro: elect_reachable.intros)

text \<open>Run without interference, the commands of one task are \<open>try_acquire\<close>.\<close>

lemma try_acquire_steps:
  assumes t: "try_acquire R (el_store c) le = (s', le', b)"
    and le: "le_node_id le = fst p" "le_ttl le = ttl" and idle: "el_pc c p = Idle"
  shows "elect_reachable R ttl c
    (c\<lparr>el_store := s', el_leader := (el_leader c)(fst p := le_is_leader le')\<rparr>)"
proof -
  obtain s1 r where r: "rc_set R (el_store c) LOCK_KEY (fst p) (Some ttl) True = (s1, r)"
    by fastforce
  obtain s2 r2 where r2: "rc_set R s1 LOCK_KEY (fst p) (Some ttl) False = (s2, r2)"
    by fastforce
  let ?c1 = "c\<lparr>el_store := s1, el_pc := (el_pc c)(p := Check)\<rparr>"
  have undo: "(el_pc c)(p := Idle) = el_pc c" using idle by auto
  show ?thesis
  proof (cases r)
    case True
    then have "elect_step R ttl c (c\<lparr>el_store := s1, el_leader := (el_leader c)(fst p := True)\<rparr>)"
      using r idle by (auto intro: elect_step.set_nx_won)
    then show ?thesis using t le r True
      by (auto simp: try_acquire_def intro: elect_reachable_one)
  next
    case False
    then have s1: "elect_step R ttl c ?c1" using r idle by (auto intro: elect_step.set_nx_lost)
    show ?thesis
    proof (cases "rc_get R s1 LOCK_KEY = Some (fst p)")
      case True
      have "elect_step R ttl ?c1 (?c1\<lparr>el_pc := (el_pc ?c1)(p := Renew)\<rparr>)"
        by (rule elect_step.get_mine) (simp_all add: True)
      moreover have "elect_step R ttl (?c1\<lparr>el_pc := (el_pc ?c1)(p := Renew)\<rparr>)
          (c\<lparr>el_store := s2, el_leader := (el_leader c)(fst p := True)\<rparr>)"
        using elect_step.renew[of "?c1\<lparr>el_pc := (el_pc ?c1)(p := Renew)\<rparr>" p R ttl s2 r2] r2 undo
        by simp
      ultimately show ?thesis using t le r r2 True \<open>\<not> r\<close> s1
        by (auto simp: try_acquire_def intro: elect_reachable_three)
    next
      case False
      have "elect_step R ttl ?c1 (c\<lparr>el_store := s1, el_leader := (el_leader c)(fst p := False)\<rparr>)"
        using elect_step.get_other[of ?c1 p R ttl] False undo by simp
      then show ?thesis using t le r r2 False \<open>\<not> r\<close> s1
        by (auto simp: try_acquire_def intro: elect_reachable_two)
    qed
  qed
qed

end
