(* ===== verification/ConfigSyncs.thy ===== *)
theory ConfigSyncs imports ClusterStates Redis VersionVectors begin

section \<open>Configuration replication\<close>

text \<open>
  \<open>coordination/services/config_sync.py\<close>: the leader writes a key and its version counter to Redis and
  publishes a notification; followers apply notifications that are newer than what they hold, and
  read everything from Redis at start. A finished \<open>SCAN\<close> is the list of key batches it returned.
  Message fields have the types the only publisher gives them; None is an absent field.
\<close>

subsection \<open>The class\<close>

type_synonym entry = "string \<times> int"

record config_sync =
  sy_node_id :: string
  sy_local :: "(string, entry) dict"

record notification =
  nt_key :: string
  nt_value :: string
  nt_version :: int
  nt_updated_by :: string

definition CONFIG_PREFIX :: string where
  "CONFIG_PREFIX = ''iot-gateway:config:''"

definition version_prefix :: string where
  "version_prefix = CONFIG_PREFIX @ ''version:''"

definition set_config ::
  "'s redis \<Rightarrow> string \<Rightarrow> string \<Rightarrow> 's \<times> cluster_state \<times> config_sync \<Rightarrow>
   ('s \<times> cluster_state \<times> config_sync) \<times> int \<times> notification" where
  "set_config R key val w =
     (let (s, cs, sy) = w;
          version_key = CONFIG_PREFIX @ ''version:'' @ key;
          (s1, version) = srv_incr R s version_key;
          (s2, _) = rc_set R s1 (CONFIG_PREFIX @ key) val None False;
          sy' = sy\<lparr>sy_local := dset key (val, version) (sy_local sy)\<rparr>;
          cs' = cs_set_config key val cs
      in ((s2, cs', sy'), version,
          \<lparr>nt_key = key, nt_value = val, nt_version = version, nt_updated_by = sy_node_id sy\<rparr>))"

definition get_config :: "'s redis \<Rightarrow> 's \<Rightarrow> string \<Rightarrow> string option" where
  "get_config R s key = rc_get R s (CONFIG_PREFIX @ key)"

definition get_local :: "config_sync \<Rightarrow> string \<Rightarrow> entry" where
  "get_local sy key = dget_or (sy_local sy) key ('''', 0)"

definition set_local :: "string \<Rightarrow> string \<Rightarrow> int \<Rightarrow> cluster_state \<times> config_sync \<Rightarrow> cluster_state \<times> config_sync" where
  "set_local key val version w =
     (cs_set_config key val (fst w), (snd w)\<lparr>sy_local := dset key (val, version) (sy_local (snd w))\<rparr>)"

subsection \<open>Full sync\<close>

text \<open>
  \<open>int(raw_ver)\<close> may raise: None is the exception, and the keys read before it stay applied, so the
  state is part of the result in both cases.
\<close>

definition version_of :: "string option \<Rightarrow> int option" where
  "version_of raw = (case raw of None \<Rightarrow> Some 1
     | Some r \<Rightarrow> if r = '''' then Some 1 else map_option int (py_int r))"

fun sync_keys ::
  "'s redis \<Rightarrow> 's \<Rightarrow> string list \<Rightarrow> (cluster_state \<times> config_sync) \<times> nat \<Rightarrow>
   (cluster_state \<times> config_sync) \<times> nat option" where
  "sync_keys R s [] (w, count) = (w, Some count)"
| "sync_keys R s (key # keys) (w, count) =
     (if take (length version_prefix) key = version_prefix then sync_keys R s keys (w, count)
      else let short_key = drop (length CONFIG_PREFIX) key in
        (case rc_get R s key of None \<Rightarrow> sync_keys R s keys (w, count)
         | Some val \<Rightarrow>
             (case version_of (rc_get R s (version_prefix @ short_key)) of None \<Rightarrow> (w, None)
              | Some version \<Rightarrow>
                  sync_keys R s keys (set_local short_key val version w, Suc count))))"

definition sync_from_leader ::
  "'s redis \<Rightarrow> 's \<Rightarrow> string list list \<Rightarrow> cluster_state \<times> config_sync \<Rightarrow>
   (cluster_state \<times> config_sync) \<times> nat option" where
  "sync_from_leader R s batches w = sync_keys R s (concat batches) (w, 0)"

subsection \<open>The subscriber\<close>

datatype config_message =
    BadJson
  | Update "string option" "string option" "int option"

fun on_config_message :: "config_message \<Rightarrow> cluster_state \<times> config_sync \<Rightarrow> cluster_state \<times> config_sync" where
  "on_config_message (Update (Some key) (Some val) (Some version)) w =
     (if version > snd (get_local (snd w) key) then set_local key val version w else w)"
| "on_config_message _ w = w"

definition run_sync_loop ::
  "'s redis \<Rightarrow> 's \<Rightarrow> string list list \<Rightarrow> config_message list \<Rightarrow>
   cluster_state \<times> config_sync \<Rightarrow> cluster_state \<times> config_sync" where
  "run_sync_loop R s batches messages w =
     fold on_config_message messages (fst (sync_from_leader R s batches w))"

subsection \<open>One key under updates\<close>

text \<open>The entry of a key is a register that keeps the newer version; merging registers is a \<open>causal_join\<close>.\<close>

definition newer :: "entry \<Rightarrow> entry \<Rightarrow> entry" where
  "newer e e' = (if snd e' > snd e then e' else e)"

interpretation reg: causal_join "\<lambda>_. True" "\<lambda>e e'. snd e \<le> snd e'" newer
  by unfold_locales (auto simp: newer_def)

fun entry_for :: "string \<Rightarrow> config_message \<Rightarrow> entry list" where
  "entry_for k (Update (Some key) (Some val) (Some version)) = (if key = k then [(val, version)] else [])"
| "entry_for k _ = []"

definition entries_for :: "string \<Rightarrow> config_message list \<Rightarrow> entry list" where
  "entries_for k ms = concat (map (entry_for k) ms)"

lemma get_local_set_local [simp]:
  "get_local (snd (set_local key val version w)) k = (if k = key then (val, version) else get_local (snd w) k)"
  by (simp add: get_local_def set_local_def)

lemma get_local_message:
  "get_local (snd (on_config_message m w)) k = foldl newer (get_local (snd w) k) (entry_for k m)"
  by (induction m w rule: on_config_message.induct) (auto simp: newer_def)

lemma get_local_messages:
  "get_local (snd (fold on_config_message ms w)) k =
     reg.absorb (get_local (snd w) k) (entries_for k ms)"
  by (induction ms arbitrary: w) (simp_all add: entries_for_def get_local_message reg.absorb_def)

lemma absorb_member: "reg.absorb e es \<in> set (e # es)"
  by (induction es arbitrary: e) (auto simp: newer_def split: if_splits)

lemma absorb_max: "e' \<in> set (e # es) \<Longrightarrow> snd e' \<le> snd (reg.absorb e es)"
  by (rule reg.absorb_ub) (auto simp: list_all_iff)

lemma newer_idem: "snd e' \<le> snd e \<Longrightarrow> newer e e' = e"
  by (simp add: newer_def)

subsection \<open>The cluster's map and the cache agree\<close>

definition in_sync :: "cluster_state \<times> config_sync \<Rightarrow> bool" where
  "in_sync w \<longleftrightarrow> (\<forall>k v n. dget (sy_local (snd w)) k = Some (v, n) \<longrightarrow> cs_get_config k (fst w) = Some v)"

lemma cs_get_set_config [simp]:
  "cs_get_config k (cs_set_config key v s) = (if k = key then Some v else cs_get_config k s)"
  by (simp add: cs_get_config_def cs_set_config_def)

lemma in_sync_set_local: "in_sync w \<Longrightarrow> in_sync (set_local key val version w)"
  by (auto simp: in_sync_def set_local_def)

lemma in_sync_message: "in_sync w \<Longrightarrow> in_sync (on_config_message m w)"
  by (induction m w rule: on_config_message.induct) (auto intro: in_sync_set_local)

lemma in_sync_messages: "in_sync w \<Longrightarrow> in_sync (fold on_config_message ms w)"
proof (induction ms arbitrary: w)
  case (Cons m ms)
  then show ?case using Cons.IH[OF in_sync_message] by simp
qed simp

lemma in_sync_keys: "in_sync w \<Longrightarrow> in_sync (fst (sync_keys R s keys (w, n)))"
  by (induction R s keys "(w, n)" arbitrary: w n rule: sync_keys.induct)
    (auto simp: Let_def in_sync_set_local split: option.split)

lemma in_sync_run: "in_sync w \<Longrightarrow> in_sync (run_sync_loop R s batches ms w)"
  by (simp add: run_sync_loop_def sync_from_leader_def in_sync_messages in_sync_keys)

lemma fst_messages_cfg: "sy_node_id (snd (on_config_message m w)) = sy_node_id (snd w)"
  by (induction m w rule: on_config_message.induct) (auto simp: set_local_def)

subsection \<open>Writing, then reading back\<close>

definition reserved :: "string \<Rightarrow> bool" where
  "reserved key \<longleftrightarrow> take 8 key = ''version:''"

lemma take_prefix: "take (length version_prefix) (CONFIG_PREFIX @ key) = version_prefix \<longleftrightarrow> reserved key"
  by (simp add: version_prefix_def reserved_def)

lemma drop_prefix: "drop (length CONFIG_PREFIX) (CONFIG_PREFIX @ key) = key"
  by simp

lemma keys_differ: "\<not> reserved key \<Longrightarrow> CONFIG_PREFIX @ ''version:'' @ k \<noteq> CONFIG_PREFIX @ key"
  by (auto simp: reserved_def)

text \<open>What Redis holds for a key: its value and a counter that renders its version.\<close>

definition holds :: "'s redis \<Rightarrow> 's \<Rightarrow> string \<Rightarrow> string \<Rightarrow> nat \<Rightarrow> bool" where
  "holds R s key val n \<longleftrightarrow> rc_get R s (CONFIG_PREFIX @ key) = Some val \<and>
     rc_get R s (version_prefix @ key) = Some (nat_str n)"

lemma sync_keys_untouched:
  "CONFIG_PREFIX @ key \<notin> set keys \<Longrightarrow>
   (\<And>k. k \<in> set keys \<Longrightarrow> take (length CONFIG_PREFIX) k = CONFIG_PREFIX) \<Longrightarrow>
   get_local (snd (fst (sync_keys R s keys (w, n)))) key = get_local (snd w) key"
proof (induction keys arbitrary: w n)
  case (Cons k keys)
  have "drop (length CONFIG_PREFIX) k \<noteq> key"
    using Cons.prems by (metis append_take_drop_id list.set_intros(1))
  then show ?case using Cons by (auto simp: Let_def split: option.split)
qed simp

lemma sync_keys_Cons:
  "(\<exists>w' c'. sync_keys R s (k # keys) (w, c) = sync_keys R s keys (w', c')) \<or>
   snd (sync_keys R s (k # keys) (w, c)) = None"
  unfolding sync_keys.simps Let_def
  by (auto simp del: split_paired_Ex sync_keys.simps split: option.split)

lemma sync_keys_reads:
  assumes "holds R s key val n" "\<not> reserved key" "snd (sync_keys R s keys (w, c)) \<noteq> None"
    and "CONFIG_PREFIX @ key \<in> set keys"
    and "\<And>k. k \<in> set keys \<Longrightarrow> take (length CONFIG_PREFIX) k = CONFIG_PREFIX"
  shows "get_local (snd (fst (sync_keys R s keys (w, c)))) key = (val, int n)"
  using assms(3-5)
proof (induction keys arbitrary: w c)
  case (Cons k keys)
  have ver: "version_of (rc_get R s (version_prefix @ key)) = Some (int n)"
    using assms(1) by (simp add: holds_def version_of_def)
  show ?case
  proof (cases "CONFIG_PREFIX @ key \<in> set keys")
    case True
    obtain w' c' where "sync_keys R s (k # keys) (w, c) = sync_keys R s keys (w', c')"
      using sync_keys_Cons[of R s k keys w c] Cons.prems(1) by blast
    then show ?thesis using Cons.IH[of w' c'] Cons.prems True by simp
  next
    case False
    then have k: "k = CONFIG_PREFIX @ key" using Cons.prems by simp
    have "get_local (snd (fst (sync_keys R s keys (set_local key val (int n) w, Suc c)))) key = (val, int n)"
      using False Cons.prems by (subst sync_keys_untouched) auto
    then show ?thesis
      using assms(1,2) ver take_prefix[of key] by (simp add: k holds_def)
  qed
qed simp

context redis_kv begin

lemma set_config_holds:
  assumes "set_config R key val (s, cs, sy) = ((s', cs', sy'), version, note)"
    and "\<not> reserved key"
    and "rc_get R s (version_prefix @ key) = (if m = 0 then None else Some (nat_str m))"
  shows "version = int m + 1 \<and> holds R s' key val (m + 1) \<and> get_local sy' key = (val, version) \<and>
    nt_version note = version \<and> cs_get_config key cs' = Some val"
proof -
  obtain s1 v where i: "srv_incr R s (version_prefix @ key) = (s1, v)" by fastforce
  obtain s2 b where t: "rc_set R s1 (CONFIG_PREFIX @ key) val None False = (s2, b)" by fastforce
  have v: "v = int m + 1 \<and> rc_get R s1 = (rc_get R s)(version_prefix @ key := Some (nat_str (m + 1)))"
    using incr_free[OF _ i] incr_num[OF _ i] assms(3) by (cases "m = 0") auto
  have g: "rc_get R s2 = (rc_get R s1)(CONFIG_PREFIX @ key := Some val)"
    using set_plain[OF _ t] by (simp add: ex_ok_def)
  have ne: "version_prefix @ key \<noteq> CONFIG_PREFIX @ key"
    using keys_differ[OF assms(2), of key] by (simp add: version_prefix_def)
  have "s' = s2" "version = v" "sy' = sy\<lparr>sy_local := dset key (val, v) (sy_local sy)\<rparr>"
    "nt_version note = v" "cs' = cs_set_config key val cs"
    using assms(1) i t by (auto simp: set_config_def version_prefix_def)
  then show ?thesis using v g ne by (simp add: holds_def get_local_def)
qed

end

end
