(* ===== verification/Servicer.thy ===== *)
theory Servicer imports Membership Election ConfigSyncs begin

section \<open>The coordination RPCs\<close>

text \<open>
  \<open>coordination/grpc_server/coordination_servicer.py\<close>: each method on the cluster state, the config
  cache and the Redis server, then the running service as a step relation over the RPCs, the
  heartbeat scan, the gossip round and the Pub/Sub messages.
\<close>

subsection \<open>Requests\<close>

text \<open>
  A request is a message object or a plain dict. \<open>getattr(request, k, "") or request.get(k, "")\<close>
  falls through to \<open>get\<close> when the attribute is missing or falsy; a message object has no \<open>get\<close>, so
  this raises AttributeError. A dict has no such attribute and is always read with \<open>get\<close>.
\<close>

datatype rpc_error = AttributeError

record rpc_request =
  rq_is_object :: bool
  rq_str :: "(string, string) dict"
  rq_capabilities :: "string list"

definition field_str :: "rpc_request \<Rightarrow> string \<Rightarrow> rpc_error + string" where
  "field_str rq k =
     (let v = dget_or (rq_str rq) k '''' in
      if rq_is_object rq \<and> v = '''' then Inl AttributeError else Inr v)"

definition field_capabilities :: "rpc_request \<Rightarrow> rpc_error + string list" where
  "field_capabilities rq =
     (if rq_is_object rq \<and> rq_capabilities rq = [] then Inl AttributeError else Inr (rq_capabilities rq))"

text \<open>\<open>str(n.status)\<close> of a \<open>(str, Enum)\<close> member names the class.\<close>

fun str_status :: "node_status \<Rightarrow> string" where
  "str_status JOINING = ''NodeStatus.JOINING''"
| "str_status ALIVE = ''NodeStatus.ALIVE''"
| "str_status SUSPECT = ''NodeStatus.SUSPECT''"
| "str_status DEAD = ''NodeStatus.DEAD''"
| "str_status LEAVING = ''NodeStatus.LEAVING''"

subsection \<open>Heartbeat\<close>

record heartbeat_response =
  hr_leader_id :: string
  hr_cluster_version :: int
  hr_ack :: bool

text \<open>
  \<open>existing\<close> is the stored object, so its status is read after \<open>update_node_heartbeat\<close> changed it.
\<close>

definition upsert :: "time \<Rightarrow> string \<Rightarrow> string \<Rightarrow> cluster_state \<Rightarrow> cluster_state" where
  "upsert now nid addr cs =
     (case get_node cs nid of
        None \<Rightarrow> add_node (mk_node now nid addr ALIVE []) cs
      | Some _ \<Rightarrow>
          let cs1 = update_node_heartbeat now nid cs
          in if status_of cs1 nid \<in> {Some SUSPECT, Some JOINING} then mark_alive now nid cs1 else cs1)"

definition Heartbeat ::
  "'s redis \<Rightarrow> 's \<Rightarrow> time \<Rightarrow> rpc_request \<Rightarrow> cluster_state \<Rightarrow> cluster_state \<times> (rpc_error + heartbeat_response)" where
  "Heartbeat R s now rq cs =
     (case field_str rq ''node_id'' of Inl e \<Rightarrow> (cs, Inl e)
      | Inr nid \<Rightarrow> (case field_str rq ''node_address'' of Inl e \<Rightarrow> (cs, Inl e)
      | Inr addr \<Rightarrow>
          let cs' = upsert now nid addr cs;
              leader_id = (case le_get_leader R s of None \<Rightarrow> '''' | Some l \<Rightarrow> l)
          in (cs', Inr \<lparr>hr_leader_id = leader_id, hr_cluster_version = cluster_version cs', hr_ack = True\<rparr>)))"

subsection \<open>JoinCluster, LeaveCluster, GetClusterState\<close>

record member =
  mb_node_id :: string
  mb_node_address :: string
  mb_status :: string
  mb_is_leader :: bool

record join_response =
  jr_members :: "member list"
  jr_config :: "(string, string) dict"
  jr_cluster_version :: int

definition to_member :: "cluster_node \<Rightarrow> member" where
  "to_member n = \<lparr>mb_node_id = cn_node_id n, mb_node_address = cn_node_address n,
     mb_status = str_status (cn_status n), mb_is_leader = cn_is_leader n\<rparr>"

definition JoinCluster ::
  "time \<Rightarrow> rpc_request \<Rightarrow> cluster_state \<Rightarrow> cluster_state \<times> (rpc_error + join_response)" where
  "JoinCluster now rq cs =
     (case field_str rq ''node_id'' of Inl e \<Rightarrow> (cs, Inl e)
      | Inr nid \<Rightarrow> (case field_str rq ''node_address'' of Inl e \<Rightarrow> (cs, Inl e)
      | Inr addr \<Rightarrow> (case field_capabilities rq of Inl e \<Rightarrow> (cs, Inl e)
      | Inr caps \<Rightarrow>
          let cs' = add_node (mk_node now nid addr ALIVE caps) cs
          in (cs', Inr \<lparr>jr_members = map to_member (get_all_nodes cs'), jr_config = config_copy cs',
                        jr_cluster_version = cluster_version cs'\<rparr>))))"

definition LeaveCluster :: "rpc_request \<Rightarrow> cluster_state \<Rightarrow> cluster_state \<times> (rpc_error + bool)" where
  "LeaveCluster rq cs =
     (case field_str rq ''node_id'' of Inl e \<Rightarrow> (cs, Inl e)
      | Inr nid \<Rightarrow> (case get_node cs nid of None \<Rightarrow> (cs, Inr False)
                     | Some _ \<Rightarrow> (mark_leaving nid cs, Inr True)))"

record state_response =
  sr_nodes :: "cluster_node list"
  sr_leader_id :: string
  sr_cluster_version :: int
  sr_config :: "(string, string) dict"

definition GetClusterState :: "cluster_state \<Rightarrow> state_response" where
  "GetClusterState cs =
     \<lparr>sr_nodes = get_all_nodes cs,
      sr_leader_id = (case get_leader cs of None \<Rightarrow> '''' | Some l \<Rightarrow> cn_node_id l),
      sr_cluster_version = cluster_version cs, sr_config = config_copy cs\<rparr>"

subsection \<open>SyncConfig\<close>

record config_entry =
  ce_is_object :: bool
  ce_key :: string
  ce_value :: string
  ce_version :: int

definition entry_fields :: "config_entry \<Rightarrow> rpc_error + string \<times> string \<times> int" where
  "entry_fields e =
     (if ce_is_object e \<and> (ce_key e = '''' \<or> ce_value e = '''' \<or> ce_version e = 0)
      then Inl AttributeError else Inr (ce_key e, ce_value e, ce_version e))"

text \<open>The stream: what was yielded before it ended, and the exception that ended it early.\<close>

fun SyncConfig ::
  "config_entry list \<Rightarrow> cluster_state \<times> config_sync \<Rightarrow>
   (cluster_state \<times> config_sync) \<times> (string \<times> entry) list \<times> rpc_error option" where
  "SyncConfig [] w = (w, [], None)"
| "SyncConfig (e # es) w =
     (case entry_fields e of Inl x \<Rightarrow> (w, [], Some x)
      | Inr (key, val, version) \<Rightarrow>
          let (local_value, local_version) = get_local (snd w) key in
          if local_version > version then
            (let (w', ys, x) = SyncConfig es w in (w', (key, (local_value, local_version)) # ys, x))
          else if version > local_version then SyncConfig es (set_local key val version w)
          else SyncConfig es w)"

subsection \<open>Lemmas on the RPCs\<close>

lemma heartbeat_leaves_alive:
  "status_of (update_node_heartbeat now nid cs) nid \<notin> {Some SUSPECT, Some JOINING}"
  by (cases "status_of cs nid") (auto simp: status_update_heartbeat)

text \<open>So the branch that calls \<open>mark_alive\<close> is never taken.\<close>

lemma upsert_eq:
  "upsert now nid addr cs =
     (if get_node cs nid = None then add_node (mk_node now nid addr ALIVE []) cs
      else update_node_heartbeat now nid cs)"
  using heartbeat_leaves_alive[of now nid cs] by (simp add: upsert_def Let_def split: option.split)

lemma status_upsert:
  "status_of (upsert now nid addr cs) m =
     (if m = nid then Some (case status_of cs nid of None \<Rightarrow> ALIVE
        | Some st \<Rightarrow> if st \<in> {JOINING, SUSPECT} then ALIVE else st)
      else status_of cs m)"
proof (cases "get_node cs nid")
  case None
  then show ?thesis by (simp add: upsert_eq status_add_node mk_node_def) (simp add: status_of_def)
next
  case (Some n)
  then have "status_of cs nid = Some (cn_status n)" by (simp add: status_of_def)
  then show ?thesis using Some by (simp add: upsert_eq status_update_heartbeat)
qed

lemma cs_ok_upsert: "cs_ok cs \<Longrightarrow> cs_ok (upsert now nid addr cs)"
  by (simp add: upsert_eq cs_ok_heartbeat cs_ok_add mk_node_def)

lemma version_heartbeat [simp]:
  "cs_cluster_version (update_node_heartbeat now nid cs) = cs_cluster_version cs"
  by (simp add: update_node_heartbeat_def modify_node_def split: option.split)

lemma upsert_version:
  "cs_cluster_version (upsert now nid addr cs) =
     cs_cluster_version cs + (if get_node cs nid = None then 1 else 0)"
  by (simp add: upsert_eq add_node_def bump_def)

lemma Heartbeat_state:
  "fst (Heartbeat R s now rq cs) = cs \<or> (\<exists>nid addr. fst (Heartbeat R s now rq cs) = upsert now nid addr cs)"
  by (auto simp: Heartbeat_def Let_def split: sum.split)

lemma Join_state:
  "fst (JoinCluster now rq cs) = cs \<or>
   (\<exists>nid addr caps. field_str rq ''node_id'' = Inr nid \<and>
      fst (JoinCluster now rq cs) = add_node (mk_node now nid addr ALIVE caps) cs)"
  by (auto simp: JoinCluster_def Let_def split: sum.split)

lemma Leave_state:
  "fst (LeaveCluster rq cs) = cs \<or> (\<exists>nid. fst (LeaveCluster rq cs) = mark_leaving nid cs)"
  by (auto simp: LeaveCluster_def split: sum.split option.split)

lemma SyncConfig_local:
  "get_local (snd (fst (SyncConfig es w))) k =
     foldl newer (get_local (snd w) k)
       (concat (map (\<lambda>e. if ce_key e = k then [(ce_value e, ce_version e)] else [])
         (takeWhile (\<lambda>e. entry_fields e \<noteq> Inl AttributeError) es)))"
proof (induction es w rule: SyncConfig.induct)
  case (2 e es w)
  show ?case
  proof (cases "entry_fields e")
    case (Inl x)
    then show ?thesis by (cases x) simp
  next
    case (Inr r)
    then have r: "r = (ce_key e, ce_value e, ce_version e)"
      by (auto simp: entry_fields_def split: if_splits)
    obtain lv ln where l: "get_local (snd w) (ce_key e) = (lv, ln)" by fastforce
    show ?thesis
      using 2[OF Inr[unfolded r] refl refl refl l[symmetric]] Inr l unfolding r
      by (auto simp: newer_def split: prod.splits)
  qed
qed simp

subsection \<open>The running service\<close>

text \<open>
  One event of the service of \<open>main.py\<close>: an RPC, a scan, a gossip round, a Pub/Sub message or a config
  change. The gossip protocol keeps its own counter, so it is part of the state.
\<close>

record service =
  sv_cs :: cluster_state
  sv_gossip :: gossip

inductive service_step ::
  "'s redis \<Rightarrow> heartbeat_service \<Rightarrow> (cluster_node list \<Rightarrow> nat \<Rightarrow> cluster_node list) \<Rightarrow>
   service \<Rightarrow> service \<Rightarrow> bool" for R hs sample where
  rpc_heartbeat: "service_step R hs sample v (v\<lparr>sv_cs := fst (Heartbeat R s now rq (sv_cs v))\<rparr>)"
| rpc_leave: "service_step R hs sample v (v\<lparr>sv_cs := fst (LeaveCluster rq (sv_cs v))\<rparr>)"
| scan: "service_step R hs sample v (v\<lparr>sv_cs := check_timeouts hs now (sv_cs v)\<rparr>)"
| gossip: "gossip_round sample now (sv_gossip v, sv_cs v) = (g', cs') \<Longrightarrow>
    service_step R hs sample v (v\<lparr>sv_cs := cs', sv_gossip := g'\<rparr>)"
| ping: "service_step R hs sample v (v\<lparr>sv_cs := on_gossip_message now (sv_gossip v) m (sv_cs v)\<rparr>)"
| config: "service_step R hs sample v (v\<lparr>sv_cs := cs_set_config k x (sv_cs v)\<rparr>)"

text \<open>A run without any (re)join, and runs in which nodes join.\<close>

inductive service_run ::
  "'s redis \<Rightarrow> heartbeat_service \<Rightarrow> (cluster_node list \<Rightarrow> nat \<Rightarrow> cluster_node list) \<Rightarrow>
   service \<Rightarrow> service \<Rightarrow> bool" for R hs sample where
  no_event: "service_run R hs sample v v"
| event: "service_run R hs sample v v' \<Longrightarrow> service_step R hs sample v' v'' \<Longrightarrow> service_run R hs sample v v''"

inductive service_reachable ::
  "'s redis \<Rightarrow> heartbeat_service \<Rightarrow> (cluster_node list \<Rightarrow> nat \<Rightarrow> cluster_node list) \<Rightarrow> service \<Rightarrow> bool"
  for R hs sample where
  start: "service_reachable R hs sample
    \<lparr>sv_cs = add_node (mk_node now nid addr ALIVE []) (cs_new nid), sv_gossip = g\<rparr>"
| step: "service_reachable R hs sample v \<Longrightarrow> service_step R hs sample v v' \<Longrightarrow> service_reachable R hs sample v'"
| join: "service_reachable R hs sample v \<Longrightarrow>
    service_reachable R hs sample (v\<lparr>sv_cs := fst (JoinCluster now rq (sv_cs v))\<rparr>)"

lemma service_step_ok: "service_step R hs sample v v' \<Longrightarrow> cs_ok (sv_cs v) \<Longrightarrow> cs_ok (sv_cs v')"
proof (induction rule: service_step.induct)
  case (rpc_heartbeat v s now rq)
  then show ?case using Heartbeat_state[of R s now rq "sv_cs v"] by (auto intro: cs_ok_upsert)
next
  case (rpc_leave v rq)
  then show ?case using Leave_state[of rq "sv_cs v"] by (auto intro: cs_ok_leaving)
next
  case (gossip now v g' cs')
  then show ?case using cs_ok_gossip_round[of "(sv_gossip v, sv_cs v)" sample now] by simp
qed (simp_all add: cs_ok_check_timeouts cs_ok_gossip_message)

lemma cs_ok_join: "cs_ok cs \<Longrightarrow> cs_ok (fst (JoinCluster now rq cs))"
  using Join_state[of now rq cs] by (auto simp: cs_ok_add mk_node_def)

lemma service_reachable_ok: "service_reachable R hs sample v \<Longrightarrow> cs_ok (sv_cs v)"
proof (induction rule: service_reachable.induct)
  case (start now nid addr g)
  then show ?case by (simp add: cs_ok_add cs_ok_new mk_node_def)
qed (simp_all add: service_step_ok cs_ok_join)

text \<open>A node that is out stays out: no step but a rejoin brings a DEAD or LEAVING node back.\<close>

definition out :: "cluster_state \<Rightarrow> string \<Rightarrow> bool" where
  "out cs m \<longleftrightarrow> status_of cs m \<in> {Some DEAD, Some LEAVING}"

lemma gossip_round_status:
  "status_of (snd (gossip_round sample now gs)) m = status_of (snd gs) m \<or>
   status_of (snd (gossip_round sample now gs)) m = Some SUSPECT \<and>
   status_of (snd gs) m \<notin> {None, Some DEAD, Some LEAVING}"
  using probes_status[of now "sample (get_alive_peers (Some (gp_node_id (fst gs))) (snd gs))
      (min (gp_fanout (fst gs)) (length (get_alive_peers (Some (gp_node_id (fst gs))) (snd gs))))" gs m]
  by (auto simp: gossip_round_def Let_def)

lemma service_step_out:
  "service_step R hs sample v v' \<Longrightarrow> cs_ok (sv_cs v) \<Longrightarrow> out (sv_cs v) m \<Longrightarrow> out (sv_cs v') m"
proof (induction rule: service_step.induct)
  case (rpc_heartbeat v s now rq)
  then show ?case using Heartbeat_state[of R s now rq "sv_cs v"]
    by (auto simp: out_def status_upsert split: if_splits)
next
  case (rpc_leave v rq)
  then show ?case using Leave_state[of rq "sv_cs v"]
    by (auto simp: out_def status_mark_leaving split: if_splits)
next
  case (scan v now)
  have "status_of (sv_cs v) m = map_option cn_status (get_node (sv_cs v) m)"
    by (simp add: status_of_def)
  then show ?case using scan
    by (auto simp: out_def check_timeouts_status_of verdict_def)
next
  case (gossip now v g' cs')
  then show ?case using gossip_round_status[of sample now "(sv_gossip v, sv_cs v)" m]
    by (auto simp: out_def)
next
  case (ping v now m')
  then show ?case using status_gossip_message[of now "sv_gossip v" m' "sv_cs v" m]
    by (auto simp: out_def)
qed (simp add: out_def)

lemma service_run_out:
  "service_run R hs sample v v' \<Longrightarrow> cs_ok (sv_cs v) \<Longrightarrow> out (sv_cs v) m \<Longrightarrow>
   cs_ok (sv_cs v') \<and> out (sv_cs v') m"
  by (induction rule: service_run.induct) (auto intro: service_step_ok service_step_out)

end
