(* ===== verification/CoordinationMain.thy ===== *)
theory CoordinationMain imports Servicer begin

section \<open>The coordination process\<close>

text \<open>
  \<open>coordination/main.py\<close> and \<open>grpc_server/server.py\<close>: the objects the process builds, the turns of its four
  background tasks as a step relation, and the shutdown. The server starts without a registered
  servicer (its registration is a comment), so no RPC is a step; the gossip protocol is built without a
  Redis client, so it has no listener either.
\<close>

record coordination_settings =
  cg_node_id :: string
  cg_node_address :: string
  cg_leader_lock_ttl :: int
  cg_gossip_interval :: flt
  cg_gossip_fanout :: nat
  cg_heartbeat_interval :: flt
  cg_heartbeat_timeout :: flt

text \<open>\<open>_generate_node_id\<close>; \<open>hex\<close> is the hexadecimal text of a new UUID.\<close>

definition generate_node_id :: "string \<Rightarrow> string \<Rightarrow> string" where
  "generate_node_id hostname hex = (if hostname = [] then ''unknown'' else hostname) @ ''-'' @ take 8 hex"

record 's coordination =
  cm_store :: 's
  cm_state :: cluster_state
  cm_election :: leader_election
  cm_config :: config_sync
  cm_gossip :: gossip
  cm_heartbeat :: heartbeat_service

definition coordination_start :: "coordination_settings \<Rightarrow> string \<Rightarrow> string \<Rightarrow> time \<Rightarrow> 's \<Rightarrow> 's coordination" where
  "coordination_start cfg hostname hex now store =
     (let node_id = (if cg_node_id cfg = [] then generate_node_id hostname hex else cg_node_id cfg);
          local_node = mk_node now node_id (cg_node_address cfg) ALIVE []
      in \<lparr>cm_store = store, cm_state = add_node local_node (cs_new node_id),
          cm_election = le_new node_id (cg_leader_lock_ttl cfg),
          cm_config = \<lparr>sy_node_id = node_id, sy_local = []\<rparr>,
          cm_gossip = gossip_new node_id (cg_gossip_interval cfg) (cg_gossip_fanout cfg) None,
          cm_heartbeat = \<lparr>hs_node_id = node_id, hs_interval = cg_heartbeat_interval cfg,
            hs_timeout = cg_heartbeat_timeout cfg\<rparr>\<rparr>)"

text \<open>
  One turn of a background task; a turn that raises changes nothing. The rule \<open>others\<close> is what other nodes and the
  clock do to Redis in between.
\<close>

inductive main_turn :: "'s redis \<Rightarrow> (cluster_node list \<Rightarrow> nat \<Rightarrow> cluster_node list) \<Rightarrow> 's coordination \<Rightarrow> 's coordination \<Rightarrow> bool"
  for R sample where
  elect: "try_acquire R (cm_store v) (cm_election v) = (s', le', b) \<Longrightarrow>
    main_turn R sample v (v\<lparr>cm_store := s', cm_election := le'\<rparr>)"
| gossip: "gossip_round sample now (cm_gossip v, cm_state v) = (g', cs') \<Longrightarrow>
    main_turn R sample v (v\<lparr>cm_state := cs', cm_gossip := g'\<rparr>)"
| scan: "main_turn R sample v (v\<lparr>cm_state := check_timeouts (cm_heartbeat v) now (cm_state v)\<rparr>)"
| sync: "sync_from_leader R (cm_store v) batches (cm_state v, cm_config v) = ((cs', sy'), r) \<Longrightarrow>
    main_turn R sample v (v\<lparr>cm_state := cs', cm_config := sy'\<rparr>)"
| message: "on_config_message m (cm_state v, cm_config v) = (cs', sy') \<Longrightarrow>
    main_turn R sample v (v\<lparr>cm_state := cs', cm_config := sy'\<rparr>)"
| others: "main_turn R sample v (v\<lparr>cm_store := s'\<rparr>)"

inductive main_run :: "'s redis \<Rightarrow> (cluster_node list \<Rightarrow> nat \<Rightarrow> cluster_node list) \<Rightarrow> 's coordination \<Rightarrow> 's coordination \<Rightarrow> bool"
  for R sample where
  no_turn: "main_run R sample v v"
| turn: "main_run R sample v v' \<Longrightarrow> main_turn R sample v' v'' \<Longrightarrow> main_run R sample v v''"

text \<open>The first step of the shutdown, while the tasks still run: the lock is released. Then they are cancelled.\<close>

definition coordination_shutdown :: "'s redis \<Rightarrow> 's coordination \<Rightarrow> 's coordination" where
  "coordination_shutdown R v = (case release R (cm_store v) (cm_election v) of
     (s', le') \<Rightarrow> v\<lparr>cm_store := s', cm_election := le'\<rparr>)"

subsection \<open>A cluster of one\<close>

definition alone :: "cluster_node \<Rightarrow> 's coordination \<Rightarrow> bool" where
  "alone node v \<longleftrightarrow> cs_nodes (cm_state v) = [(cn_node_id node, node)] \<and>
     hs_node_id (cm_heartbeat v) = cn_node_id node \<and> gp_node_id (cm_gossip v) = cn_node_id node"

lemma cs_nodes_config [simp]: "cs_nodes (cs_set_config k x s) = cs_nodes s"
  by (simp add: cs_set_config_def)

lemma cs_nodes_message: "cs_nodes (fst (on_config_message m w)) = cs_nodes (fst w)"
  by (induction m w rule: on_config_message.induct) (auto simp: set_local_def)

lemma cs_nodes_sync: "cs_nodes (fst (fst (sync_keys R s keys (w, n)))) = cs_nodes (fst w)"
  by (induction R s keys "(w, n)" arbitrary: w n rule: sync_keys.induct)
    (auto simp: Let_def set_local_def split: option.split)

lemma alone_turn: "main_turn R sample v v' \<Longrightarrow> alone node v \<Longrightarrow> alone node v'"
proof (induction rule: main_turn.induct)
  case (gossip now v g' cs')
  then have "get_alive_peers (Some (gp_node_id (cm_gossip v))) (cm_state v) = []"
    by (auto simp: alone_def get_alive_peers_def)
  then have "g' = cm_gossip v" "cs' = cm_state v" using gossip.hyps by (simp_all add: gossip_round_def)
  then have "v\<lparr>cm_state := cs', cm_gossip := g'\<rparr> = v" by simp
  then show ?case using gossip.prems by simp
next
  case (scan v now)
  then show ?case by (simp add: alone_def check_timeouts_def get_all_nodes_def check_node_def)
next
  case (sync v batches cs' sy' r)
  then show ?case
    using cs_nodes_sync[of R "cm_store v" "concat batches" "(cm_state v, cm_config v)" 0]
    by (simp add: alone_def sync_from_leader_def)
next
  case (message m v cs' sy')
  then show ?case using cs_nodes_message[of m "(cm_state v, cm_config v)"] by (simp add: alone_def)
qed (simp_all add: alone_def)

lemma alone_run: "main_run R sample v v' \<Longrightarrow> alone node v \<Longrightarrow> alone node v'"
  by (induction rule: main_run.induct) (auto intro: alone_turn)

lemma alone_start:
  "\<exists>node. alone node (coordination_start cfg hostname hex now store) \<and> cn_status node = ALIVE \<and> \<not> cn_is_leader node"
proof -
  let ?id = "if cg_node_id cfg = [] then generate_node_id hostname hex else cg_node_id cfg"
  show ?thesis
    by (rule exI[of _ "mk_node now ?id (cg_node_address cfg) ALIVE []"])
      (auto simp: alone_def coordination_start_def Let_def add_node_def bump_def cs_new_def mk_node_def gossip_new_def)
qed

subsection \<open>Gossip without a transport\<close>

lemma probe_without_redis:
  "gp_redis (fst gs) = None \<Longrightarrow> probe now p gs = (fst gs, mark_suspect (cn_node_id p) (snd gs))"
  by (simp add: probe_def ping_peer_def)

lemma probes_without_redis:
  "gp_redis g = None \<Longrightarrow> fold (probe now) ps (g, cs) = (g, fold (\<lambda>p. mark_suspect (cn_node_id p)) ps cs)"
  by (induction ps arbitrary: cs) (simp_all add: probe_without_redis)

lemma suspects_status:
  "status_of (fold (\<lambda>p. mark_suspect (cn_node_id p)) ps cs) m =
     (if m \<in> cn_node_id ` set ps then map_option (\<lambda>st. if st \<in> {DEAD, LEAVING} then st else SUSPECT) (status_of cs m)
      else status_of cs m)"
proof (induction ps arbitrary: cs)
  case (Cons p ps)
  then show ?case by (cases "status_of cs m") (auto simp: status_mark_suspect)
qed simp

lemma listed_node:
  assumes "cs_ok cs" and "n \<in> set (dvalues (cs_nodes cs))"
  shows "get_node cs (cn_node_id n) = Some n"
proof -
  obtain k where k: "(k, n) \<in> set (cs_nodes cs)" using assms(2) by auto
  then have "dget (cs_nodes cs) k = Some n" using assms(1) by (simp add: cs_ok_def)
  moreover from this have "cn_node_id n = k" using assms(1) dall_get by (fastforce simp: cs_ok_def)
  ultimately show ?thesis by (simp add: get_node_def)
qed

lemma alive_peer_iff:
  assumes "cs_ok cs"
  shows "n \<in> set (get_alive_peers (Some i) cs) \<longleftrightarrow> get_node cs (cn_node_id n) = Some n \<and> cn_status n = ALIVE \<and> cn_node_id n \<noteq> i"
proof
  assume "n \<in> set (get_alive_peers (Some i) cs)"
  then show "get_node cs (cn_node_id n) = Some n \<and> cn_status n = ALIVE \<and> cn_node_id n \<noteq> i"
    using listed_node[OF assms, of n] by (auto simp: get_alive_peers_def)
next
  assume n: "get_node cs (cn_node_id n) = Some n \<and> cn_status n = ALIVE \<and> cn_node_id n \<noteq> i"
  then have "n \<in> set (dvalues (cs_nodes cs))" by (force simp: get_node_def dest: map_of_SomeD)
  then show "n \<in> set (get_alive_peers (Some i) cs)" using n by (simp add: get_alive_peers_def)
qed

lemma distinct_peers: "cs_ok cs \<Longrightarrow> distinct (get_alive_peers i cs)"
proof -
  assume ok: "cs_ok cs"
  have "map cn_node_id (dvalues (cs_nodes cs)) = dkeys (cs_nodes cs)"
    using ok by (auto simp: cs_ok_def dall_def)
  then have "distinct (dvalues (cs_nodes cs))" using ok by (metis cs_ok_def distinct_map)
  then show ?thesis by (simp add: get_alive_peers_def)
qed

lemma all_peers_suspected:
  assumes "gp_redis g = None" and "sample_law sample" and "cs_ok cs"
    and "length (get_alive_peers (Some (gp_node_id g)) cs) \<le> gp_fanout g"
  shows "get_alive_peers (Some (gp_node_id g)) (snd (gossip_round sample now (g, cs))) = []"
proof -
  let ?peers = "get_alive_peers (Some (gp_node_id g)) cs" and ?cs = "snd (gossip_round sample now (g, cs))"
  let ?chosen = "sample ?peers (length ?peers)"
  have sample: "length ?chosen = length ?peers" "distinct ?chosen" "set ?chosen \<subseteq> set ?peers"
    using assms(2) distinct_peers[OF assms(3)] by (simp_all add: sample_law_def)
  then have all: "set ?chosen = set ?peers"
    using distinct_peers[OF assms(3)] by (metis card_subset_eq distinct_card List.finite_set)
  have status: "status_of ?cs m = (if m \<in> cn_node_id ` set ?peers
      then map_option (\<lambda>st. if st \<in> {DEAD, LEAVING} then st else SUSPECT) (status_of cs m) else status_of cs m)" for m
  proof (cases "?peers = []")
    case True
    then show ?thesis by (simp add: gossip_round_def)
  next
    case False
    then show ?thesis
      using assms(4)
      by (simp add: gossip_round_def Let_def min_absorb2 probes_without_redis[OF assms(1)] suspects_status all)
  qed
  have ok: "cs_ok ?cs" using cs_ok_gossip_round[of "(g, cs)"] assms(3) by simp
  have "n \<notin> set (get_alive_peers (Some (gp_node_id g)) ?cs)" for n
  proof
    assume "n \<in> set (get_alive_peers (Some (gp_node_id g)) ?cs)"
    then have n: "get_node ?cs (cn_node_id n) = Some n" "cn_status n = ALIVE" "cn_node_id n \<noteq> gp_node_id g"
      by (simp_all add: alive_peer_iff[OF ok])
    then have st: "status_of ?cs (cn_node_id n) = Some ALIVE" by (simp add: status_of_def)
    then have out: "cn_node_id n \<notin> cn_node_id ` set ?peers" and "status_of cs (cn_node_id n) = Some ALIVE"
      by (auto simp: status split: if_splits)
    then obtain n' where n': "get_node cs (cn_node_id n) = Some n'" "cn_status n' = ALIVE" by (auto simp: status_of_def)
    then have "n' \<in> set (dvalues (cs_nodes cs))" by (force simp: get_node_def dest: map_of_SomeD)
    from listed_node[OF assms(3) this] n' have "cn_node_id n' = cn_node_id n"
      using assms(3) dall_get[of _ "cs_nodes cs" "cn_node_id n" n'] by (auto simp: cs_ok_def get_node_def)
    then have "n' \<in> set ?peers" using n' n(3) by (simp add: alive_peer_iff[OF assms(3)])
    then show False using out \<open>cn_node_id n' = cn_node_id n\<close> by (metis imageI)
  qed
  then show ?thesis by (metis list.set_intros(1) neq_Nil_conv)
qed

end
