(* ===== verification/OtaRollout.thy ===== *)
theory OtaRollout imports ClusterStates Redis begin

section \<open>Firmware rollout\<close>

text \<open>
  \<open>coordination/services/ota_coordinator.py\<close>: rolling and canary updates. The world holds the cluster
  state (the node objects a rollout mutates are the ones stored there), the Redis server, the audit
  list of events, what the rest of the cluster does during each sleep (\<open>ow_env\<close>, nothing once the list
  is used up) and which of the next Redis calls raise (\<open>ow_faults\<close>, none once it is used up).
\<close>

datatype ota_error = RedisError | HealthCheckFailed string | CanaryFailed string | CanaryDegraded string

record ota_event =
  oe_firmware_version :: string
  oe_event :: string
  oe_node_ids :: "string list"

record 's ota_world =
  ow_cs :: cluster_state
  ow_redis :: 's
  ow_events :: "ota_event list"
  ow_env :: "(cluster_state \<Rightarrow> cluster_state) list"
  ow_faults :: "bool list"

type_synonym ('s, 'a) ota = "('s ota_world, ota_error, 'a) action"

definition OTA_PREFIX :: string where
  "OTA_PREFIX = ''iot-gateway:ota:''"

definition target_key :: "string \<Rightarrow> string" where
  "target_key nid = OTA_PREFIX @ ''node:'' @ nid @ '':target_version''"

text \<open>One Redis call: it raises, or it changes the world.\<close>

definition redis_call :: "('s ota_world \<Rightarrow> 's ota_world) \<Rightarrow> ('s, unit) ota" where
  "redis_call f w =
     (case ow_faults w of
        [] \<Rightarrow> (f w, Inr ())
      | raises # fs \<Rightarrow> (let w = w\<lparr>ow_faults := fs\<rparr>
                        in if raises then (w, Inl RedisError) else (f w, Inr ())))"

text \<open>\<open>asyncio.sleep\<close>: the rest of the cluster moves.\<close>

definition sleep_step :: "'s ota_world \<Rightarrow> 's ota_world" where
  "sleep_step w =
     (case ow_env w of [] \<Rightarrow> w | f # fs \<Rightarrow> w\<lparr>ow_cs := f (ow_cs w), ow_env := fs\<rparr>)"

subsection \<open>Helpers\<close>

definition update_node :: "'s redis \<Rightarrow> cluster_node \<Rightarrow> string \<Rightarrow> ('s, unit) ota" where
  "update_node R node firmware_version w =
     redis_call (\<lambda>w. w\<lparr>ow_redis := fst (rc_set R (ow_redis w) (target_key (cn_node_id node))
                                            firmware_version None False)\<rparr>)
       (w\<lparr>ow_cs := modify_node (cn_node_id node)
            (\<lambda>n. n\<lparr>cn_metadata := dset ''pending_firmware'' firmware_version (cn_metadata n)\<rparr>) (ow_cs w)\<rparr>)"

definition POLL_INTERVAL :: flt where
  "POLL_INTERVAL = 2"

function wait_loop :: "string \<Rightarrow> flt \<Rightarrow> flt \<Rightarrow> 's ota_world \<Rightarrow> 's ota_world \<times> bool" where
  "wait_loop nid timeout elapsed w =
     (if elapsed < timeout
      then (if status_of (ow_cs w) nid = Some ALIVE then (w, True)
            else wait_loop nid timeout (elapsed + POLL_INTERVAL) (sleep_step w))
      else (w, False))"
  by pat_completeness auto
termination
proof (relation "measure (\<lambda>(_, timeout, elapsed, _). nat \<lceil>timeout - elapsed\<rceil>)", goal_cases)
  case (2 nid timeout elapsed w)
  then have "0 < \<lceil>timeout - elapsed\<rceil>" by simp
  moreover have "\<lceil>timeout - (elapsed + POLL_INTERVAL)\<rceil> = \<lceil>timeout - elapsed\<rceil> - 2"
    unfolding POLL_INTERVAL_def by linarith
  ultimately show ?case by simp
qed simp

declare wait_loop.simps [simp del]

definition wait_for_health :: "cluster_node \<Rightarrow> flt \<Rightarrow> ('s, bool) ota" where
  "wait_for_health node timeout w =
     (let (w', healthy) = wait_loop (cn_node_id node) timeout 0 w in (w', Inr healthy))"

definition rollback_node :: "'s redis \<Rightarrow> cluster_node \<Rightarrow> ('s, unit) ota" where
  "rollback_node R node w =
     redis_call (\<lambda>w. w\<lparr>ow_redis := fst (rc_delete R (ow_redis w) [target_key (cn_node_id node)])\<rparr>)
       (w\<lparr>ow_cs := modify_node (cn_node_id node)
            (\<lambda>n. n\<lparr>cn_metadata := ddel ''pending_firmware'' (cn_metadata n)\<rparr>) (ow_cs w)\<rparr>)"

definition record_ota_event :: "string \<Rightarrow> string \<Rightarrow> string list \<Rightarrow> ('s, unit) ota" where
  "record_ota_event firmware_version event node_ids =
     redis_call (\<lambda>w. w\<lparr>ow_events := ow_events w @
       [\<lparr>oe_firmware_version = firmware_version, oe_event = event, oe_node_ids = node_ids\<rparr>]\<rparr>)"

subsection \<open>Rolling update\<close>

text \<open>Every handler of the loop's \<open>try\<close> raises again, so an exception ends the loop with its results lost.\<close>

fun roll_nodes ::
  "'s redis \<Rightarrow> string \<Rightarrow> flt \<Rightarrow> cluster_node list \<Rightarrow> (string, string) dict \<Rightarrow> ('s, (string, string) dict) ota" where
  "roll_nodes R fw timeout [] results = ret results"
| "roll_nodes R fw timeout (node # nodes) results =
     ebind (update_node R node fw) (\<lambda>_.
     ebind (wait_for_health node timeout) (\<lambda>healthy.
     if \<not> healthy then
       ebind (rollback_node R node) (\<lambda>_.
       ebind (record_ota_event fw ''rolling_update_failed'' [cn_node_id node]) (\<lambda>_.
       raise (HealthCheckFailed (cn_node_id node))))
     else roll_nodes R fw timeout nodes (dset (cn_node_id node) ''updated'' results)))"

definition start_rolling_update ::
  "'s redis \<Rightarrow> string \<Rightarrow> cluster_node list option \<Rightarrow> flt \<Rightarrow> ('s, (string, string) dict) ota" where
  "start_rolling_update R fw nodes timeout w =
     (let target_nodes = (case nodes of Some (n # ns) \<Rightarrow> n # ns | _ \<Rightarrow> get_alive_peers None (ow_cs w))
      in ebind (record_ota_event fw ''rolling_update_started'' (map cn_node_id target_nodes)) (\<lambda>_.
         ebind (roll_nodes R fw timeout target_nodes []) (\<lambda>results.
         ebind (record_ota_event fw ''rolling_update_completed'' []) (\<lambda>_.
         ret results))) w)"

subsection \<open>Canary update\<close>

fun canary_rest ::
  "'s redis \<Rightarrow> string \<Rightarrow> flt \<Rightarrow> cluster_node list \<Rightarrow> (string, string) dict \<Rightarrow> ('s, (string, string) dict) ota" where
  "canary_rest R fw timeout [] results = ret results"
| "canary_rest R fw timeout (node # nodes) results =
     ebind (update_node R node fw) (\<lambda>_.
     ebind (wait_for_health node timeout) (\<lambda>healthy.
     if \<not> healthy then
       ebind (rollback_node R node) (\<lambda>_. raise (HealthCheckFailed (cn_node_id node)))
     else canary_rest R fw timeout nodes (dset (cn_node_id node) ''updated'' results)))"

definition start_canary_update ::
  "'s redis \<Rightarrow> string \<Rightarrow> flt \<Rightarrow> ('s, (string, string) dict) ota" where
  "start_canary_update R fw timeout w =
     (case get_alive_peers None (ow_cs w) of
        [] \<Rightarrow> (w, Inr [])
      | canary # remaining \<Rightarrow>
          ebind (record_ota_event fw ''canary_update_started'' [cn_node_id canary]) (\<lambda>_.
          ebind (update_node R canary fw) (\<lambda>_.
          ebind (wait_for_health canary timeout) (\<lambda>healthy.
          if \<not> healthy then
            ebind (rollback_node R canary) (\<lambda>_. raise (CanaryFailed (cn_node_id canary)))
          else
            ebind (\<lambda>w. (sleep_step w, Inr ())) (\<lambda>_.
            ebind (wait_for_health canary timeout) (\<lambda>healthy.
            if \<not> healthy then
              ebind (rollback_node R canary) (\<lambda>_. raise (CanaryDegraded (cn_node_id canary)))
            else
              ebind (canary_rest R fw timeout remaining [(cn_node_id canary, ''canary_updated'')]) (\<lambda>results.
              ebind (record_ota_event fw ''canary_update_completed'' []) (\<lambda>_.
              ret results))))))) w)"

subsection \<open>Lemmas\<close>

lemma wait_loop_frame:
  "wait_loop nid t e w = (w', b) \<Longrightarrow>
   ow_redis w' = ow_redis w \<and> ow_events w' = ow_events w \<and> ow_faults w' = ow_faults w"
proof (induction nid t e w rule: wait_loop.induct)
  case (1 nid t e w)
  then show ?case
    by (subst (asm) (2) wait_loop.simps) (auto simp: sleep_step_def split: if_splits list.splits)
qed

text \<open>A node that is ALIVE when the poll starts is healthy at once: no sleep, no new heartbeat needed.\<close>

lemma wait_alive: "0 < t \<Longrightarrow> status_of (ow_cs w) nid = Some ALIVE \<Longrightarrow> wait_loop nid t 0 w = (w, True)"
  by (simp add: wait_loop.simps)

lemma status_update_metadata [simp]:
  "status_of (modify_node nid (\<lambda>n. n\<lparr>cn_metadata := f n\<rparr>) s) m = status_of s m"
  by (simp add: status_of_def option.map_comp o_def)

lemma target_key_inj [simp]: "target_key a = target_key b \<longleftrightarrow> a = b"
  by (simp add: target_key_def)

lemma redis_call_cases:
  assumes "redis_call f w = (w', r)"
  obtains "r = Inr ()" "w' = f (w\<lparr>ow_faults := tl (ow_faults w)\<rparr>)" | "r = Inl RedisError"
      "w' = w\<lparr>ow_faults := tl (ow_faults w)\<rparr>"
proof (cases "ow_faults w")
  case Nil
  have "w\<lparr>ow_faults := ow_faults w\<rparr> = w" by simp
  then have e: "w\<lparr>ow_faults := tl (ow_faults w)\<rparr> = w" using Nil by (simp only: list.sel(2))
  have "r = Inr ()" "w' = f w" using assms Nil by (auto simp: redis_call_def)
  then show ?thesis by (intro that(1)) (simp_all only: e)
next
  case (Cons b fs)
  then show ?thesis using assms that by (auto simp: redis_call_def Let_def split: if_splits)
qed

text \<open>The firmware version Redis records as a node's target.\<close>

definition target_of :: "'s redis \<Rightarrow> 's ota_world \<Rightarrow> string \<Rightarrow> string option" where
  "target_of R w nid = rc_get R (ow_redis w) (target_key nid)"

lemma target_wait: "wait_for_health n t w = (w', r) \<Longrightarrow> target_of R w' = target_of R w"
  by (cases "wait_loop (cn_node_id n) t 0 w")
    (auto simp: wait_for_health_def target_of_def fun_eq_iff dest: wait_loop_frame)

lemma target_event: "record_ota_event fw e ns w = (w', r) \<Longrightarrow> target_of R w' = target_of R w"
  unfolding record_ota_event_def by (erule redis_call_cases) (auto simp: target_of_def fun_eq_iff)

context redis_kv begin

lemma target_update:
  assumes "update_node R n fw w = (w', r)"
  shows "target_of R w' = (if r = Inr () then (target_of R w)(cn_node_id n := Some fw) else target_of R w)"
proof -
  let ?w = "w\<lparr>ow_cs := modify_node (cn_node_id n)
            (\<lambda>x. x\<lparr>cn_metadata := dset ''pending_firmware'' fw (cn_metadata x)\<rparr>) (ow_cs w)\<rparr>"
  obtain s b where s: "rc_set R (ow_redis w) (target_key (cn_node_id n)) fw None False = (s, b)"
    by fastforce
  have "rc_get R s = (rc_get R (ow_redis w))(target_key (cn_node_id n) := Some fw)"
    using set_plain[OF _ s] by (simp add: ex_ok_def)
  with s show ?thesis using assms unfolding update_node_def
    by (elim redis_call_cases) (auto simp: target_of_def fun_eq_iff)
qed

lemma target_rollback:
  assumes "rollback_node R n w = (w', r)"
  shows "target_of R w' = (if r = Inr () then (target_of R w)(cn_node_id n := None) else target_of R w)"
proof -
  obtain s b where s: "rc_delete R (ow_redis w) [target_key (cn_node_id n)] = (s, b)" by fastforce
  show ?thesis using assms s del_get[OF s] unfolding rollback_node_def
    by (elim redis_call_cases) (auto simp: target_of_def fun_eq_iff)
qed

text \<open>A finished loop has reached every node.\<close>

lemma roll_nodes_done:
  "roll_nodes R fw t ns results w = (w', Inr res) \<Longrightarrow>
   target_of R w' = (\<lambda>k. if k \<in> cn_node_id ` set ns then Some fw else target_of R w k) \<and>
   dget res = (\<lambda>k. if k \<in> cn_node_id ` set ns then Some ''updated'' else dget results k)"
proof (induction ns arbitrary: results w)
  case (Cons n ns)
  from Cons.prems obtain w1 where u: "update_node R n fw w = (w1, Inr ())"
    and r1: "ebind (wait_for_health n t) (\<lambda>healthy. if \<not> healthy then
       ebind (rollback_node R n) (\<lambda>_. ebind (record_ota_event fw ''rolling_update_failed'' [cn_node_id n])
         (\<lambda>_. raise (HealthCheckFailed (cn_node_id n))))
     else roll_nodes R fw t ns (dset (cn_node_id n) ''updated'' results)) w1 = (w', Inr res)"
    by (auto dest: ebind_InrD)
  from ebind_InrD[OF r1] obtain w2 h where h: "wait_for_health n t w1 = (w2, Inr h)"
    and r2: "(if \<not> h then ebind (rollback_node R n) (\<lambda>_.
        ebind (record_ota_event fw ''rolling_update_failed'' [cn_node_id n])
         (\<lambda>_. raise (HealthCheckFailed (cn_node_id n))))
     else roll_nodes R fw t ns (dset (cn_node_id n) ''updated'' results)) w2 = (w', Inr res)" by blast
  have h': "h" by (rule ccontr) (use r2 in \<open>auto dest!: ebind_InrD\<close>)
  then have "roll_nodes R fw t ns (dset (cn_node_id n) ''updated'' results) w2 = (w', Inr res)"
    using r2 by simp
  from Cons.IH[OF this] show ?case
    using target_update[OF u] target_wait[OF h, of R] by (auto simp: fun_eq_iff)
qed auto

text \<open>A failed health check ends the loop there: the nodes before it keep the new target, the failed one
  is rolled back, the ones after it were not touched.\<close>

lemma roll_nodes_failed:
  assumes "roll_nodes R fw t ns results w = (w', Inl (HealthCheckFailed m))" "distinct (map cn_node_id ns)"
  shows "\<exists>pre n post. ns = pre @ n # post \<and> cn_node_id n = m \<and>
    target_of R w' = (\<lambda>k. if k = m then None else if k \<in> cn_node_id ` set pre then Some fw
                         else target_of R w k)"
  using assms
proof (induction ns arbitrary: results w)
  case (Cons n ns)
  let ?k = "\<lambda>healthy. if \<not> healthy then
       ebind (rollback_node R n) (\<lambda>_. ebind (record_ota_event fw ''rolling_update_failed'' [cn_node_id n])
         (\<lambda>_. raise (HealthCheckFailed (cn_node_id n))))
     else roll_nodes R fw t ns (dset (cn_node_id n) ''updated'' results)"
  obtain w1 where u: "update_node R n fw w = (w1, Inr ())"
    and r1: "ebind (wait_for_health n t) ?k w1 = (w', Inl (HealthCheckFailed m))"
    using Cons.prems(1) by (auto dest!: ebind_InlD simp: update_node_def elim!: redis_call_cases)
  obtain w2 h where h: "wait_for_health n t w1 = (w2, Inr h)"
    by (cases "wait_loop (cn_node_id n) t 0 w1") (auto simp: wait_for_health_def)
  have r2: "?k h w2 = (w', Inl (HealthCheckFailed m))" using r1 h by simp
  note t12 = target_update[OF u] target_wait[OF h, of R]
  show ?case
  proof (cases h)
    case True
    then have r3: "roll_nodes R fw t ns (dset (cn_node_id n) ''updated'' results) w2 =
        (w', Inl (HealthCheckFailed m))" using r2 by simp
    obtain pre x post where x: "ns = pre @ x # post" "cn_node_id x = m"
      "target_of R w' = (\<lambda>k. if k = m then None else if k \<in> cn_node_id ` set pre then Some fw
                         else target_of R w2 k)"
      using Cons.IH[OF r3] Cons.prems(2) by auto
    show ?thesis
      by (rule exI[of _ "n # pre"], rule exI[of _ x], rule exI[of _ post])
        (use x t12 in \<open>auto simp: fun_eq_iff\<close>)
  next
    case False
    then obtain w3 where b: "rollback_node R n w2 = (w3, Inr ())"
      and e: "ebind (record_ota_event fw ''rolling_update_failed'' [cn_node_id n])
         (\<lambda>_. raise (HealthCheckFailed (cn_node_id n))) w3 = (w', Inl (HealthCheckFailed m))"
      using r2 by (auto dest!: ebind_InlD simp: rollback_node_def elim!: redis_call_cases)
    have "m = cn_node_id n" and "target_of R w' = target_of R w3"
      using e by (auto dest!: ebind_InlD dest: target_event simp: record_ota_event_def[symmetric])
        (auto simp: record_ota_event_def elim!: redis_call_cases)
    then show ?thesis
      by (intro exI[of _ "[]"] exI[of _ n] exI[of _ ns])
        (use t12 target_rollback[OF b] in \<open>auto simp: fun_eq_iff\<close>)
  qed
qed simp

end

end
