(* ===== verification/CoordinationProps.thy ===== *)
theory CoordinationProps imports VersionVectors CoordinationMain Election ConfigSyncs OtaRollout begin

section \<open>Properties of the coordination service\<close>

text \<open>
  What the version vectors, the cluster state, the election, the config replication and the firmware
  rollout promise, stated over the definitions of their theories. A law of the Redis server is the
  hypothesis \<open>redis_kv R\<close>; the witnesses use the reference store.
\<close>

subsection \<open>Version vectors\<close>

text \<open>Two version vectors stand in exactly one of four relations: the first dominates, the second
  dominates, they are equal, or they are concurrent; and \<open>dominates\<close> is what the docstring says: no
  counter is smaller and at least one is greater, a missing node counting as zero.\<close>

theorem causal_comparison:
  "(dominates v w, dominates w v, vv_eq v w, concurrent_with v w) \<in>
     {(True, False, False, False), (False, True, False, False),
      (False, False, True, False), (False, False, False, True)} \<and>
   (dominates v w \<longleftrightarrow> (\<forall>n. vv_val w n \<le> vv_val v n) \<and> (\<exists>n. vv_val w n < vv_val v n))"
proof
  have "\<not> (dominates v w \<and> dominates w v)" "\<not> (dominates v w \<and> vv_eq v w)"
    "\<not> (dominates w v \<and> vv_eq v w)"
    by (auto simp: dominates_iff vv_le_def vv_eq_iff not_less)
  then show "(dominates v w, dominates w v, vv_eq v w, concurrent_with v w) \<in>
     {(True, False, False, False), (False, True, False, False),
      (False, False, True, False), (False, False, False, True)}"
    by (cases "dominates v w"; cases "dominates w v"; cases "vv_eq v w") (simp_all add: concurrent_with_def)
  show "dominates v w \<longleftrightarrow> (\<forall>n. vv_val w n \<le> vv_val v n) \<and> (\<exists>n. vv_val w n < vv_val v n)"
    by (simp add: dominates_iff vv_le_def)
qed

text \<open>C22. Replicas converge: two replicas that started from and merged in the same vectors, in any order
  and with any repetitions, hold equal vectors.\<close>

theorem merges_converge:
  assumes "vv_ok v" "list_all vv_ok vs" "vv_ok w" "list_all vv_ok ws" "set (v # vs) = set (w # ws)"
  shows "vv_eq (foldl merge v vs) (foldl merge w ws)"
  using vv.absorb_converges[OF assms] by (simp add: vv_eq_le vv.absorb_def)

theorem merges_converge_witness:
  "vv_eq (foldl merge (from_dict [(''a'', 2)]) [from_dict [(''b'', 1)], from_dict [(''a'', 1), (''c'', 4)]])
     (foldl merge (from_dict [(''a'', 1), (''c'', 4)])
        [from_dict [(''b'', 1)], from_dict [(''a'', 2)], from_dict [(''b'', 1)]])"
proof (rule merges_converge)
  show "set [from_dict [(''a'', 2)], from_dict [(''b'', 1)], from_dict [(''a'', 1), (''c'', 4)]] =
      set [from_dict [(''a'', 1), (''c'', 4)], from_dict [(''b'', 1)], from_dict [(''a'', 2)], from_dict [(''b'', 1)]]"
    by (simp only: list.set) blast
qed (simp_all add: vv_ok_def from_dict_def vv_new_def)

subsection \<open>Membership\<close>

text \<open>C20. A node that is DEAD or LEAVING stays out of the cluster whatever heartbeats, scans, gossip
  rounds, pings and config writes follow; only a rejoin brings it back.\<close>

theorem out_until_rejoin:
  assumes "service_run R hs sample v v'" "service_reachable R hs sample v"
    and "status_of (sv_cs v) m \<in> {Some DEAD, Some LEAVING}"
  shows "status_of (sv_cs v') m \<in> {Some DEAD, Some LEAVING}"
  using service_run_out[OF assms(1) service_reachable_ok[OF assms(2)]] assms(3) by (simp add: out_def)

definition left_service :: service where
  "left_service = \<lparr>sv_cs = mark_leaving ''b'' (add_node (mk_node 0 ''b'' ''h:1'' ALIVE [])
       (add_node (mk_node 0 ''a'' ''h:0'' ALIVE []) (cs_new ''a''))),
     sv_gossip = gossip_new ''a'' 1 3 None\<rparr>"

definition join_b :: rpc_request where
  "join_b = \<lparr>rq_is_object = False, rq_str = [(''node_id'', ''b''), (''node_address'', ''h:1'')],
     rq_capabilities = []\<rparr>"

lemma left_service_reachable:
  "service_reachable ref_redis \<lparr>hs_node_id = ''a'', hs_interval = 1, hs_timeout = 5\<rparr> (\<lambda>xs k. take k xs) left_service"
proof -
  let ?g = "gossip_new ''a'' 1 3 None" and ?hs = "\<lparr>hs_node_id = ''a'', hs_interval = 1, hs_timeout = 5\<rparr>"
  let ?s = "\<lambda>xs k. take k xs"
  let ?a = "add_node (mk_node 0 ''a'' ''h:0'' ALIVE []) (cs_new ''a'')"
  have 1: "service_reachable ref_redis ?hs ?s \<lparr>sv_cs = ?a, sv_gossip = ?g\<rparr>"
    by (rule service_reachable.start)
  have "fst (JoinCluster 0 join_b ?a) = add_node (mk_node 0 ''b'' ''h:1'' ALIVE []) ?a"
    by (simp add: JoinCluster_def join_b_def field_str_def field_capabilities_def dget_or_def Let_def)
  then have 2: "service_reachable ref_redis ?hs ?s
      \<lparr>sv_cs = add_node (mk_node 0 ''b'' ''h:1'' ALIVE []) ?a, sv_gossip = ?g\<rparr>"
    using service_reachable.join[OF 1, of 0 join_b] by simp
  have "fst (LeaveCluster join_b (add_node (mk_node 0 ''b'' ''h:1'' ALIVE []) ?a)) =
      mark_leaving ''b'' (add_node (mk_node 0 ''b'' ''h:1'' ALIVE []) ?a)"
    by (simp add: LeaveCluster_def join_b_def field_str_def dget_or_def mk_node_def)
  then have "service_step ref_redis ?hs ?s
      \<lparr>sv_cs = add_node (mk_node 0 ''b'' ''h:1'' ALIVE []) ?a, sv_gossip = ?g\<rparr> left_service"
    using service_step.rpc_leave[of ref_redis ?hs ?s
        "\<lparr>sv_cs = add_node (mk_node 0 ''b'' ''h:1'' ALIVE []) ?a, sv_gossip = ?g\<rparr>" join_b]
    by (simp add: left_service_def)
  with 2 show ?thesis by (rule service_reachable.step)
qed

theorem out_until_rejoin_witness:
  "status_of (upsert 1 ''b'' ''h:1'' (sv_cs left_service)) ''b'' \<in> {Some DEAD, Some LEAVING}"
proof -
  let ?hs = "\<lparr>hs_node_id = ''a'', hs_interval = 1, hs_timeout = 5\<rparr>" and ?s = "\<lambda>xs k. take k xs"
  have "fst (Heartbeat ref_redis [] 1 join_b (sv_cs left_service)) = upsert 1 ''b'' ''h:1'' (sv_cs left_service)"
    by (simp add: Heartbeat_def join_b_def field_str_def dget_or_def Let_def)
  then have "service_run ref_redis ?hs ?s left_service
      (left_service\<lparr>sv_cs := upsert 1 ''b'' ''h:1'' (sv_cs left_service)\<rparr>)"
    using service_run.event[OF service_run.no_event service_step.rpc_heartbeat[of ref_redis ?hs ?s left_service "[]" 1 join_b]]
    by simp
  moreover have "status_of (sv_cs left_service) ''b'' \<in> {Some DEAD, Some LEAVING}"
    by (simp add: left_service_def status_simps mk_node_def)
  ultimately show ?thesis using out_until_rejoin[OF _ left_service_reachable] by fastforce
qed

text \<open>C21. A heartbeat scan decides every node by its own silence alone: the local node and nodes that are
  out keep their status, more than twice the timeout is DEAD, more than the timeout is SUSPECT, and
  anything else is unchanged, whatever the order in which the scan visits the nodes.\<close>

theorem scan_verdict:
  assumes "cs_ok s"
  shows "status_of (check_timeouts hs now s) m =
    map_option (\<lambda>n. if cn_node_id n = hs_node_id hs \<or> cn_status n \<in> {DEAD, LEAVING} then cn_status n
                    else if now - cn_last_heartbeat n > 2 * hs_timeout hs then DEAD
                    else if now - cn_last_heartbeat n > hs_timeout hs then SUSPECT
                    else cn_status n) (get_node s m)"
  unfolding check_timeouts_status_of[OF assms]
  by (cases "get_node s m") (simp_all add: verdict_def mult.commute)

theorem scan_verdict_witness:
  "status_of (check_timeouts \<lparr>hs_node_id = ''a'', hs_interval = 1, hs_timeout = 5\<rparr> 11
     (add_node (mk_node 0 ''b'' ''h:1'' ALIVE []) (add_node (mk_node 0 ''a'' ''h:0'' ALIVE []) (cs_new ''a''))))
     ''b'' = Some DEAD"
  by (subst scan_verdict) (simp_all add: cs_ok_add cs_ok_new mk_node_def)

text \<open>A gossip protocol without a Redis client, which is how \<open>main.py\<close> builds it, turns every alive
  peer into SUSPECT in one round when the fan-out covers the peers.\<close>

theorem gossip_without_redis:
  assumes "gp_redis g = None" "cs_ok cs" "sample_law sample"
    and "length (get_alive_peers (Some (gp_node_id g)) cs) \<le> gp_fanout g"
    and "status_of cs m = Some ALIVE" "m \<noteq> gp_node_id g"
  shows "status_of (snd (gossip_round sample now (g, cs))) m = Some SUSPECT"
proof -
  let ?ps = "get_alive_peers (Some (gp_node_id g)) cs"
  have "distinct (get_all_nodes cs)"
    using assms(2) ids_of_values[OF assms(2)] by (metis cs_ok_def distinct_map)
  then have d: "distinct ?ps" by (simp add: get_alive_peers_def get_all_nodes_def)
  have "set (sample ?ps (length ?ps)) = set ?ps"
    using assms(3) d unfolding sample_law_def
    by (metis card_subset_eq distinct_card le_refl List.finite_set)
  moreover obtain n where n: "get_node cs m = Some n" "cn_status n = ALIVE"
    using assms(5) by (auto simp: status_of_def)
  then have "n \<in> set ?ps" and "cn_node_id n = m"
    using assms(6) in_alive_peers[OF assms(2)] cs_ok_id[OF assms(2)] by auto
  ultimately have "m \<in> cn_node_id ` set (sample ?ps (min (gp_fanout g) (length ?ps)))" "?ps \<noteq> []"
    using assms(4) by (auto simp: min_absorb2)
  then show ?thesis
    using probes_no_redis[of "(g, cs)" now "sample ?ps (min (gp_fanout g) (length ?ps))" m] assms(1,5)
    by (simp add: gossip_round_def Let_def)
qed

theorem gossip_without_redis_witness:
  "status_of (snd (gossip_round (\<lambda>xs k. take k xs) 1 (gossip_new ''a'' 1 3 None,
     add_node (mk_node 0 ''b'' ''h:1'' ALIVE []) (add_node (mk_node 0 ''a'' ''h:0'' ALIVE []) (cs_new ''a'')))))
     ''b'' = Some SUSPECT"
proof (rule gossip_without_redis)
  let ?cs = "add_node (mk_node 0 ''b'' ''h:1'' ALIVE []) (add_node (mk_node 0 ''a'' ''h:0'' ALIVE []) (cs_new ''a''))"
  show "cs_ok ?cs" by (simp add: cs_ok_add cs_ok_new mk_node_def)
  show "sample_law (\<lambda>xs k. take k xs)" by (auto simp: sample_law_def dest: in_set_takeD)
  show "status_of ?cs ''b'' = Some ALIVE" by (simp add: status_simps mk_node_def)
  show "length (get_alive_peers (Some (gp_node_id (gossip_new ''a'' 1 3 None))) ?cs)
      \<le> gp_fanout (gossip_new ''a'' 1 3 None)"
    by (simp add: get_alive_peers_def gossip_new_def add_node_def bump_def cs_new_def mk_node_def)
qed (simp_all add: gossip_new_def)

text \<open>The Heartbeat RPC adds an unknown node as ALIVE and bumps the version; a known node that was
  JOINING or SUSPECT becomes ALIVE, a DEAD or LEAVING one keeps its status, and in both cases the version
  the caller gets does not change. No other node is touched.\<close>

theorem heartbeat_rpc:
  assumes "field_str rq ''node_id'' = Inr nid" "field_str rq ''node_address'' = Inr addr"
    and "Heartbeat R s now rq cs = (cs', r)"
  shows "r = Inr \<lparr>hr_leader_id = (case rc_get R s LOCK_KEY of None \<Rightarrow> '''' | Some l \<Rightarrow> l),
      hr_cluster_version = cluster_version cs + (if get_node cs nid = None then 1 else 0), hr_ack = True\<rparr> \<and>
    status_of cs' nid = Some (case status_of cs nid of None \<Rightarrow> ALIVE
      | Some st \<Rightarrow> if st \<in> {JOINING, SUSPECT} then ALIVE else st) \<and>
    cluster_version cs' = cluster_version cs + (if get_node cs nid = None then 1 else 0) \<and>
    (\<forall>m. m \<noteq> nid \<longrightarrow> status_of cs' m = status_of cs m)"
  using assms by (auto simp: Heartbeat_def Let_def le_get_leader_def cluster_version_def status_upsert upsert_version)

theorem heartbeat_rpc_witness:
  "snd (Heartbeat ref_redis [] 1 join_b (cs_new ''a'')) =
     Inr \<lparr>hr_leader_id = '''', hr_cluster_version = 1, hr_ack = True\<rparr>"
  using heartbeat_rpc[of join_b "''b''" "''h:1''" ref_redis "[]" 1 "cs_new ''a''",
      OF _ _ surjective_pairing]
  by (simp add: join_b_def field_str_def dget_or_def cs_new_def get_node_def cluster_version_def ref_defs)

subsection \<open>Leader election\<close>

text \<open>C4. With the calls of \<open>try_acquire\<close> and \<open>release\<close> taken as atomic, at most one node holds the
  leadership at any time: two nodes that believe to lead and whose lease has not run out are the same.\<close>

theorem one_leader_in_office:
  assumes "redis_kv R" "campaign_reachable R c" "in_office c n" "in_office c m"
  shows "n = m"
  using redis_kv.single_leader[OF assms] .

definition first_campaign :: "store campaign" where
  "first_campaign = \<lparr>cp_store = [], cp_node = (\<lambda>n. le_new n 10), cp_lease = (\<lambda>_. 0)\<rparr>"

theorem one_leader_in_office_witness:
  "\<exists>c. campaign_reachable ref_redis c \<and> in_office c ''a'' \<and> \<not> in_office c ''b''"
proof -
  let ?c = "first_campaign\<lparr>cp_store := [(LOCK_KEY, ''a'', Some 10)],
      cp_node := (cp_node first_campaign)(''a'' := (le_new ''a'' 10)\<lparr>le_is_leader := True\<rparr>),
      cp_lease := (cp_lease first_campaign)(''a'' := 10)\<rparr>"
  have "campaign_reachable ref_redis first_campaign"
    by (rule campaign_reachable.start) (simp add: campaign_init_def first_campaign_def le_new_def)
  moreover have "try_acquire ref_redis (cp_store first_campaign) (cp_node first_campaign ''a'') =
      ([(LOCK_KEY, ''a'', Some 10)], (le_new ''a'' 10)\<lparr>le_is_leader := True\<rparr>, True)"
    by (simp add: try_acquire_def first_campaign_def le_new_def ref_defs dhas_def)
  then have "campaign_step ref_redis first_campaign ?c"
    using campaign_step.attempt[of ref_redis first_campaign "''a''"] by (simp add: le_new_def)
  ultimately have r: "campaign_reachable ref_redis ?c" by (rule campaign_reachable.step)
  have a: "in_office ?c ''a''" by (simp add: in_office_def le_new_def)
  have "\<not> in_office ?c ''b''"
    using one_leader_in_office[OF ref.redis_kv_axioms r a, of "''b''"] by auto
  with r a show ?thesis by blast
qed

text \<open>C5. One Redis command at a time this fails: a node that has read its own id renews with an
  unconditional SET. If its lease runs out in between, it overwrites the lock another node has just taken,
  and both nodes lead.\<close>

theorem renewal_race:
  "\<exists>c1 c2. elect_reachable ref_redis 10 (el_init []) c1 \<and> elect_step ref_redis 10 c1 c2 \<and>
     rc_get ref_redis (el_store c1) LOCK_KEY = Some ''b'' \<and>
     srv_ttl ref_redis (el_store c1) LOCK_KEY = Some 10 \<and> el_leader c1 ''b'' \<and>
     rc_get ref_redis (el_store c2) LOCK_KEY = Some ''a'' \<and> el_leader c2 ''a'' \<and> el_leader c2 ''b''"
proof -
  let ?p = "(''a'', 0 :: nat)" and ?q = "(''b'', 0 :: nat)"
  let ?st = "\<lambda>s pc ls. \<lparr>el_store = s, el_pc = (\<lambda>_. Idle)(?p := pc), el_leader = ls\<rparr> :: store elect"
  let ?A = "[(LOCK_KEY, ''a'', Some 10)] :: store" and ?B = "[(LOCK_KEY, ''b'', Some 10)] :: store"
  let ?la = "(\<lambda>_. False)(''a'' := True)" and ?lb = "(\<lambda>_. False)(''a'' := True, ''b'' := True)"
  note ev = ref_defs dhas_def
  have 1: "elect_step ref_redis 10 (el_init []) (?st ?A Idle ?la)"
    using elect_step.set_nx_won[of "el_init []" ?p ref_redis 10 ?A] by (simp add: ev el_init_def fun_upd_idem)
  have 2: "elect_step ref_redis 10 (?st ?A Idle ?la) (?st ?A Check ?la)"
    using elect_step.set_nx_lost[of "?st ?A Idle ?la" ?p ref_redis 10 ?A] by (simp add: ev)
  have 3: "elect_step ref_redis 10 (?st ?A Check ?la) (?st ?A Renew ?la)"
    using elect_step.get_mine[of "?st ?A Check ?la" ?p ref_redis 10] by (simp add: ev)
  have 4: "elect_step ref_redis 10 (?st ?A Renew ?la) (?st [] Renew ?la)"
    using elect_step.time_passes[of 10 ref_redis 10 "?st ?A Renew ?la"] by (simp add: ev)
  have 5: "elect_step ref_redis 10 (?st [] Renew ?la) (?st ?B Renew ?lb)"
    using elect_step.set_nx_won[of "?st [] Renew ?la" ?q ref_redis 10 ?B] by (simp add: ev)
  have 6: "elect_step ref_redis 10 (?st ?B Renew ?lb) (?st ?A Idle ?lb)"
    using elect_step.renew[of "?st ?B Renew ?lb" ?p ref_redis 10 ?A True] by (simp add: ev fun_upd_twist)
  have "elect_reachable ref_redis 10 (el_init []) (?st ?B Renew ?lb)"
    using elect_reachable_three[OF 1 2 3] 4 5 by (blast intro: elect_reachable.one_more)
  with 6 show ?thesis
    by (intro exI[of _ "?st ?B Renew ?lb"] exI[of _ "?st ?A Idle ?lb"]) (simp add: ev)
qed

text \<open>C30. The two views of the election fit: a call of \<open>try_acquire\<close> is a run of the commands of the step
  relation by an idle task, with the same final store and the same leadership flag.\<close>

theorem acquire_refined:
  assumes "try_acquire R (el_store c) le = (s', le', b)"
    and "le_node_id le = fst p" "le_ttl le = ttl" "el_pc c p = Idle"
  shows "elect_reachable R ttl c (c\<lparr>el_store := s', el_leader := (el_leader c)(fst p := le_is_leader le')\<rparr>)"
  using try_acquire_steps[OF assms] .

theorem acquire_refined_witness:
  "elect_reachable ref_redis 10 (el_init [])
     ((el_init [])\<lparr>el_store := [(LOCK_KEY, ''a'', Some 10)], el_leader := (\<lambda>_. False)(''a'' := True)\<rparr>)"
  using acquire_refined[of ref_redis "el_init []" "le_new ''a'' 10" "[(LOCK_KEY, ''a'', Some 10)]"
      "(le_new ''a'' 10)\<lparr>le_is_leader := True\<rparr>" True "(''a'', 0)" 10]
  by (simp add: el_init_def try_acquire_def le_new_def ref_defs dhas_def)

subsection \<open>Configuration replication\<close>

lemma entries_for_set: "set ms = set ms' \<Longrightarrow> set (entries_for k ms) = set (entries_for k ms')"
  by (simp add: entries_for_def)





subsection \<open>Firmware rollout\<close>

lemma ota_errors:
  "update_node R n fw w = (w', Inl e) \<Longrightarrow> e = RedisError"
  "rollback_node R n w = (w', Inl e) \<Longrightarrow> e = RedisError"
  "record_ota_event fw ev ns w = (w', Inl e) \<Longrightarrow> e = RedisError"
  by (auto simp: update_node_def rollback_node_def record_ota_event_def elim!: redis_call_cases)

lemma wait_for_health_result: "\<exists>w' h. wait_for_health n t w = (w', Inr h)"
  by (cases "wait_loop (cn_node_id n) t 0 w") (auto simp: wait_for_health_def)

lemma rolling_loop_run:
  assumes "start_rolling_update R fw nodes t w = (w', r)" "r \<noteq> Inl RedisError"
    and "targets = (case nodes of Some (n # ns) \<Rightarrow> n # ns | _ \<Rightarrow> get_alive_peers None (ow_cs w))"
  shows "\<exists>w1 w2. target_of R w1 = target_of R w \<and> target_of R w' = target_of R w2 \<and>
    roll_nodes R fw t targets [] w1 = (w2, r)"
proof -
  obtain w1 r1 where e1: "record_ota_event fw ''rolling_update_started'' (map cn_node_id targets) w = (w1, r1)"
    by fastforce
  obtain w2 r2 where e2: "roll_nodes R fw t targets [] w1 = (w2, r2)" by fastforce
  obtain w3 r3 where e3: "record_ota_event fw ''rolling_update_completed'' [] w2 = (w3, r3)" by fastforce
  have run: "start_rolling_update R fw nodes t w =
    ebind (record_ota_event fw ''rolling_update_started'' (map cn_node_id targets)) (\<lambda>_.
         ebind (roll_nodes R fw t targets []) (\<lambda>results.
         ebind (record_ota_event fw ''rolling_update_completed'' []) (\<lambda>_. ret results))) w"
    using assms(3) by (simp add: start_rolling_update_def Let_def)
  note t = target_event[OF e1, of R] target_event[OF e3, of R]
  show ?thesis
  proof (cases r1)
    case (Inl e)
    then show ?thesis using assms(1,2) e1 ota_errors(3)[OF e1[unfolded Inl]] run by simp
  next
    case (Inr u)
    note r1 = this
    show ?thesis
    proof (cases r2)
      case (Inl e)
      then have "w' = w2 \<and> r = r2" using assms(1) e1 e2 r1 run by simp
      then show ?thesis using t e2 by (intro exI[of _ w1] exI[of _ w2]) simp
    next
      case (Inr res)
      note r2 = this
      show ?thesis
      proof (cases r3)
        case (Inl e)
        then show ?thesis using assms(1,2) e1 e2 e3 r1 r2 ota_errors(3)[OF e3[unfolded Inl]] run by simp
      next
        case (Inr v)
        then have "w' = w3 \<and> r = r2" using assms(1) e1 e2 e3 r1 r2 run by simp
        then show ?thesis using t e2 by (intro exI[of _ w1] exI[of _ w2]) simp
      qed
    qed
  qed
qed


definition two_nodes :: "node_status \<Rightarrow> cluster_state" where
  "two_nodes st = add_node (mk_node 0 ''b'' ''h:1'' st []) (add_node (mk_node 0 ''a'' ''h:0'' ALIVE []) (cs_new ''a''))"

definition idle_world :: "cluster_state \<Rightarrow> store ota_world" where
  "idle_world cs = \<lparr>ow_cs = cs, ow_redis = [], ow_events = [], ow_env = [], ow_faults = []\<rparr>"


lemma canary_rest_errors:
  "canary_rest R fw t ns res w = (w', Inl e) \<Longrightarrow> e = RedisError \<or> (\<exists>m. e = HealthCheckFailed m)"
proof (induction ns arbitrary: res w)
  case (Cons n ns)
  obtain w1 r1 where u: "update_node R n fw w = (w1, r1)" by fastforce
  obtain w2 h where h: "wait_for_health n t w1 = (w2, Inr h)" using wait_for_health_result by blast
  obtain w3 r3 where b: "rollback_node R n w2 = (w3, r3)" by fastforce
  show ?case
    using Cons.prems Cons.IH[of "dset (cn_node_id n) ''updated'' res" w2] u h b
      ota_errors(1)[of R n fw w w1] ota_errors(2)[of R n w2 w3]
    by (cases r1; cases h; cases r3) auto
qed simp

text \<open>A canary that fails its health check, at once or after the observation period, is rolled
  back, and no other node has been touched.\<close>

theorem canary_isolates_failure:
  assumes "redis_kv R" "start_canary_update R fw t w = (w', Inl e)" "e \<in> {CanaryFailed m, CanaryDegraded m}"
  shows "(\<exists>rest. map cn_node_id (get_alive_peers None (ow_cs w)) = m # rest) \<and>
    target_of R w' = (target_of R w)(m := None)"
proof (cases "get_alive_peers None (ow_cs w)")
  case Nil
  then show ?thesis using assms(2) by (simp add: start_canary_update_def)
next
  case (Cons c rest)
  obtain w1 r1 where e1: "record_ota_event fw ''canary_update_started'' [cn_node_id c] w = (w1, r1)"
    by fastforce
  obtain w2 r2 where e2: "update_node R c fw w1 = (w2, r2)" by fastforce
  obtain w3 h where e3: "wait_for_health c t w2 = (w3, Inr h)" using wait_for_health_result by blast
  obtain w4 r4 where e4: "rollback_node R c w3 = (w4, r4)" by fastforce
  obtain w5 h' where e5: "wait_for_health c t (sleep_step w3) = (w5, Inr h')" using wait_for_health_result by blast
  obtain w6 r6 where e6: "rollback_node R c w5 = (w6, r6)" by fastforce
  obtain w7 r7 where e7: "canary_rest R fw t rest [(cn_node_id c, ''canary_updated'')] w5 = (w7, r7)" by fastforce
  obtain w8 r8 where e8: "record_ota_event fw ''canary_update_completed'' [] w7 = (w8, r8)" by fastforce
  have sleep: "target_of R (sleep_step w3) = target_of R w3"
    by (auto simp: sleep_step_def target_of_def fun_eq_iff split: list.split)
  have upd: "r2 = Inr () \<Longrightarrow> target_of R w3 = (target_of R w)(cn_node_id c := Some fw)"
    using redis_kv.target_update[OF assms(1) e2] target_wait[OF e3, of R] target_event[OF e1, of R] by simp
  note run = assms(2)[unfolded start_canary_update_def Cons list.case]
  have ne: "e \<noteq> RedisError" "e \<noteq> HealthCheckFailed k" for k using assms(3) by auto
  have r1: "r1 = Inr ()" using run e1 ne ota_errors(3)[of fw "''canary_update_started''" "[cn_node_id c]" w w1 e] by (cases r1) auto
  have r2: "r2 = Inr ()" using run e1 e2 r1 ne ota_errors(1)[of R c fw w1 w2 e] by (cases r2) auto
  have run2: "(if \<not> h then ebind (rollback_node R c) (\<lambda>_. raise (CanaryFailed (cn_node_id c)))
      else ebind (\<lambda>w. (sleep_step w, Inr ())) (\<lambda>_. ebind (wait_for_health c t) (\<lambda>healthy.
        if \<not> healthy then ebind (rollback_node R c) (\<lambda>_. raise (CanaryDegraded (cn_node_id c)))
        else ebind (canary_rest R fw t rest [(cn_node_id c, ''canary_updated'')]) (\<lambda>results.
          ebind (record_ota_event fw ''canary_update_completed'' []) (\<lambda>_. ret results))))) w3 = (w', Inl e)"
    using run e1 e2 e3 r1 r2 by simp
  have ends: "m = cn_node_id c \<and> (w' = w4 \<and> r4 = Inr () \<or> w' = w6 \<and> r6 = Inr ())"
  proof (cases h)
    case False
    then show ?thesis using run2 e4 ne ota_errors(2)[of R c w3 w4 e] assms(3) by (cases r4) auto
  next
    case True
    then have run3: "(if \<not> h' then ebind (rollback_node R c) (\<lambda>_. raise (CanaryDegraded (cn_node_id c)))
        else ebind (canary_rest R fw t rest [(cn_node_id c, ''canary_updated'')]) (\<lambda>results.
          ebind (record_ota_event fw ''canary_update_completed'' []) (\<lambda>_. ret results))) w5 = (w', Inl e)"
      using run2 e5 by simp
    show ?thesis
    proof (cases h')
      case False
      then show ?thesis using run3 e6 ne ota_errors(2)[of R c w5 w6 e] assms(3) by (cases r6) auto
    next
      case True
      have r7: "r7 \<noteq> Inl e" using canary_rest_errors[of R fw t rest _ w5 w7 e] e7 ne by auto
      have r8: "r8 \<noteq> Inl e" using ota_errors(3)[of fw _ _ w7 w8 e] e8 ne by auto
      show ?thesis using run3 True e7 e8 r7 r8 by (cases r7; cases r8) auto
    qed
  qed
  show ?thesis
    using ends r2 Cons upd sleep redis_kv.target_rollback[OF assms(1) e4] redis_kv.target_rollback[OF assms(1) e6]
      target_wait[OF e5, of R] by (auto simp: fun_eq_iff)
qed

theorem canary_isolates_failure_witness:
  "target_of ref_redis (fst (start_canary_update ref_redis ''2.0'' 3
     ((idle_world (two_nodes ALIVE))\<lparr>ow_env := [mark_suspect ''a'']\<rparr>))) = (\<lambda>_. None)"
proof -
  let ?w = "(idle_world (two_nodes ALIVE))\<lparr>ow_env := [mark_suspect ''a'']\<rparr>"
  let ?run = "start_canary_update ref_redis ''2.0'' 3 ?w"
  have "snd ?run = Inl (CanaryDegraded ''a'')" by code_simp
  then have run: "?run = (fst ?run, Inl (CanaryDegraded ''a''))" by (metis prod.collapse)
  have "target_of ref_redis (fst ?run) = (target_of ref_redis ?w)(''a'' := None)"
    using canary_isolates_failure[OF ref.redis_kv_axioms run, of "''a''"] by simp
  then show ?thesis by (simp add: idle_world_def target_of_def ref_defs fun_eq_iff)
qed

lemma wait_loop_polls:
  "snd (wait_loop nid t e w) \<longleftrightarrow>
     (\<exists>k::nat. e + 2 * of_nat k < t \<and> status_of (ow_cs ((sleep_step ^^ k) w)) nid = Some ALIVE)"
proof (induction nid t e w rule: wait_loop.induct)
  case (1 nid t e w)
  let ?P = "\<lambda>e w (k::nat). e + 2 * of_nat k < t \<and> status_of (ow_cs ((sleep_step ^^ k) w)) nid = Some ALIVE"
  have shift: "?P e w (Suc k) = ?P (e + POLL_INTERVAL) (sleep_step w) k" for k
    by (simp add: funpow_swap1 POLL_INTERVAL_def algebra_simps)
  have split: "(\<exists>k. ?P e w k) \<longleftrightarrow> ?P e w 0 \<or> (\<exists>k. ?P e w (Suc k))"
    by (metis not0_implies_Suc)
  show ?case
  proof (cases "e < t")
    case False
    then have "\<not> e + 2 * of_nat k < t" for k
      using of_nat_0_le_iff[of k, where 'a = rat] by linarith
    then have "\<not> (\<exists>k. ?P e w k)" by simp
    then show ?thesis using False by (simp add: wait_loop.simps[of nid t e w])
  next
    case True
    then show ?thesis using 1 split shift by (auto simp: wait_loop.simps[of nid t e w])
  qed
qed

text \<open>The health check of a rollout polls the status the cluster state holds, every two seconds until
  the timeout, and succeeds exactly when one poll finds ALIVE: a node that was ALIVE before the update
  passes at once, with no new heartbeat.\<close>

theorem health_check_polls:
  "snd (wait_for_health node t w) = Inr (\<exists>k::nat. 2 * of_nat k < t \<and>
     status_of (ow_cs ((sleep_step ^^ k) w)) (cn_node_id node) = Some ALIVE)"
  using wait_loop_polls[of "cn_node_id node" t 0 w]
  by (cases "wait_loop (cn_node_id node) t 0 w") (simp add: wait_for_health_def)


subsection \<open>The process as it is assembled\<close>

text \<open>C14. The process that \<open>main\<close> builds stays a cluster of one. Whatever its background tasks, the configuration
  channel and the other users of Redis do, its table holds the node it registered itself, ALIVE and not marked as
  leader: no RPC reaches the servicer and gossip has no listener, so the joins, heartbeats and leadership of other
  nodes never arrive, also when this node holds the election lock.\<close>

theorem assembled_service_alone:
  assumes "main_run R sample (coordination_start cfg hostname hex now store) v"
  shows "\<exists>node. get_all_nodes (cm_state v) = [node] \<and> cn_status node = ALIVE \<and> get_leader (cm_state v) = None \<and>
     get_alive_peers (Some (cn_node_id node)) (cm_state v) = []"
proof -
  obtain node where node: "alone node (coordination_start cfg hostname hex now store)" "cn_status node = ALIVE"
    "\<not> cn_is_leader node" using alone_start[of cfg hostname hex now store] by blast
  then have "alone node v" using alone_run[OF assms] by blast
  then show ?thesis using node(2,3)
    by (intro exI[of _ node]) (simp add: alone_def get_all_nodes_def get_leader_def get_alive_peers_def)
qed

theorem assembled_service_alone_witness:
  "\<exists>v :: store coordination. le_is_leader (cm_election v) \<and> get_leader (cm_state v) = None"
proof -
  let ?cfg = "\<lparr>cg_node_id = ''n'', cg_node_address = ''h:1'', cg_leader_lock_ttl = 15, cg_gossip_interval = 1,
    cg_gossip_fanout = 3, cg_heartbeat_interval = 5, cg_heartbeat_timeout = 15\<rparr>"
  let ?v = "coordination_start ?cfg ''h'' ''0'' 0 ([] :: store)"
  let ?s = "[(LOCK_KEY, ''n'', Some 15)] :: store"
  let ?w = "?v\<lparr>cm_store := ?s, cm_election := (cm_election ?v)\<lparr>le_is_leader := True\<rparr>\<rparr>"
  have "try_acquire ref_redis (cm_store ?v) (cm_election ?v) = (?s, (cm_election ?v)\<lparr>le_is_leader := True\<rparr>, True)"
    by (simp add: coordination_start_def Let_def try_acquire_def le_new_def ref_defs dhas_def)
  then have "main_turn ref_redis (\<lambda>xs k. take k xs) ?v ?w" by (rule main_turn.elect)
  then have "main_run ref_redis (\<lambda>xs k. take k xs) ?v ?w" by (rule main_run.turn[OF main_run.no_turn])
  from assembled_service_alone[OF this] have "get_leader (cm_state ?w) = None" by blast
  then show ?thesis by (intro exI[of _ ?w] conjI) simp_all
qed

text \<open>The gossip protocol that \<open>main\<close> builds has no transport: one round with a fanout that covers the peers
  leaves not one of them ALIVE, however healthy they are.\<close>

theorem gossip_without_transport_suspects:
  assumes "g = cm_gossip (coordination_start cfg hostname hex t0 store)" and "sample_law sample" and "cs_ok cs"
    and "length (get_alive_peers (Some (gp_node_id g)) cs) \<le> cg_gossip_fanout cfg"
  shows "get_alive_peers (Some (gp_node_id g)) (snd (gossip_round sample now (g, cs))) = []"
proof (rule all_peers_suspected[OF _ assms(2,3)])
  show "gp_redis g = None" by (simp add: assms(1) coordination_start_def gossip_new_def Let_def)
  show "length (get_alive_peers (Some (gp_node_id g)) cs) \<le> gp_fanout g"
    using assms(4) by (simp add: assms(1) coordination_start_def gossip_new_def Let_def)
qed

theorem gossip_without_transport_suspects_witness:
  "let cfg = \<lparr>cg_node_id = ''n'', cg_node_address = ''h:1'', cg_leader_lock_ttl = 15, cg_gossip_interval = 1,
       cg_gossip_fanout = 3, cg_heartbeat_interval = 5, cg_heartbeat_timeout = 15\<rparr>;
     g = cm_gossip (coordination_start cfg ''h'' ''0'' 0 ([] :: store));
     cs = add_node (mk_node 0 ''m'' ''h:2'' ALIVE []) (cs_new ''n'')
   in get_alive_peers (Some ''n'') cs \<noteq> [] \<and>
     get_alive_peers (Some ''n'') (snd (gossip_round (\<lambda>xs k. take k xs) 1 (g, cs))) = []"
proof -
  let ?cfg = "\<lparr>cg_node_id = ''n'', cg_node_address = ''h:1'', cg_leader_lock_ttl = 15, cg_gossip_interval = 1,
    cg_gossip_fanout = 3, cg_heartbeat_interval = 5, cg_heartbeat_timeout = 15\<rparr>"
  let ?g = "cm_gossip (coordination_start ?cfg ''h'' ''0'' 0 ([] :: store))"
  let ?cs = "add_node (mk_node 0 ''m'' ''h:2'' ALIVE []) (cs_new ''n'')"
  have law: "sample_law (\<lambda>(xs :: cluster_node list) k. take k xs)" by (auto simp: sample_law_def dest: in_set_takeD)
  have ok: "cs_ok ?cs" by (simp add: cs_ok_add cs_ok_new mk_node_def)
  have peers: "get_alive_peers (Some ''n'') ?cs = [mk_node 0 ''m'' ''h:2'' ALIVE []]"
    by (simp add: get_alive_peers_def add_node_def bump_def cs_new_def mk_node_def)
  have id: "gp_node_id ?g = ''n''" by (simp add: coordination_start_def gossip_new_def Let_def)
  have "get_alive_peers (Some (gp_node_id ?g)) (snd (gossip_round (\<lambda>xs k. take k xs) 1 (?g, ?cs))) = []"
    by (rule gossip_without_transport_suspects[OF refl law ok]) (simp add: id peers)
  then show ?thesis by (simp add: id peers Let_def)
qed

text \<open>The shutdown releases the lock while the election task still runs. If that task has read its own id and
  is about to renew, its \<open>SET\<close> comes after the \<open>DEL\<close>: the node is gone and its lock stands with a full lease.\<close>

theorem shutdown_leaves_lock:
  "\<exists>c1 c2. elect_reachable ref_redis 10 (el_init []) c1 \<and> elect_step ref_redis 10 c1 c2 \<and>
     el_pc c1 (''a'', 1) = Idle \<and> \<not> el_leader c1 ''a'' \<and> rc_get ref_redis (el_store c1) LOCK_KEY = None \<and>
     rc_get ref_redis (el_store c2) LOCK_KEY = Some ''a'' \<and> srv_ttl ref_redis (el_store c2) LOCK_KEY = Some 10"
proof -
  let ?p = "(''a'', 0 :: nat)" and ?m = "(''a'', 1 :: nat)"
  let ?st = "\<lambda>s pc pd l. \<lparr>el_store = s, el_pc = (\<lambda>_. Idle)(?p := pc, ?m := pd), el_leader = (\<lambda>_. False)(''a'' := l)\<rparr> :: store elect"
  let ?A = "[(LOCK_KEY, ''a'', Some 10)] :: store"
  note ev = ref_defs dhas_def
  have 1: "elect_step ref_redis 10 (el_init []) (?st ?A Idle Idle True)"
    using elect_step.set_nx_won[of "el_init []" ?p ref_redis 10 ?A] by (simp add: ev el_init_def fun_upd_idem)
  have 2: "elect_step ref_redis 10 (?st ?A Idle Idle True) (?st ?A Check Idle True)"
    using elect_step.set_nx_lost[of "?st ?A Idle Idle True" ?p ref_redis 10 ?A] by (simp add: ev fun_upd_twist)
  have 3: "elect_step ref_redis 10 (?st ?A Check Idle True) (?st ?A Renew Idle True)"
    using elect_step.get_mine[of "?st ?A Check Idle True" ?p ref_redis 10] by (simp add: ev fun_upd_twist)
  have 4: "elect_step ref_redis 10 (?st ?A Renew Idle True) (?st ?A Renew Drop True)"
    using elect_step.release_mine[of "?st ?A Renew Idle True" ?m ref_redis 10] by (simp add: ev fun_upd_twist)
  have 5: "elect_step ref_redis 10 (?st ?A Renew Drop True) (?st [] Renew Idle False)"
    using elect_step.drop[of "?st ?A Renew Drop True" ?m ref_redis 10] by (simp add: ev ref_del_def fun_upd_twist)
  have 6: "elect_step ref_redis 10 (?st [] Renew Idle False) (?st ?A Idle Idle True)"
    using elect_step.renew[of "?st [] Renew Idle False" ?p ref_redis 10 ?A True] by (simp add: ev fun_upd_twist)
  have "elect_reachable ref_redis 10 (el_init []) (?st [] Renew Idle False)"
    using elect_reachable_three[OF 1 2 3] 4 5 by (blast intro: elect_reachable.one_more)
  with 6 show ?thesis
    by (intro exI[of _ "?st [] Renew Idle False"] exI[of _ "?st ?A Idle Idle True"]) (simp add: ev)
qed

end
