(* ===== verification/ResourceMonitors.thy ===== *)
theory ResourceMonitors imports Prelude begin

section \<open>Resource monitor\<close>

text \<open>
  \<open>scheduler/services/resource_monitor.py\<close> and the endpoints of \<open>scheduler/routers/resources.py\<close>: the
  latest report of each edge node, and the map of the nodes whose report is not stale.
\<close>

record node_resources =
  nr_node_id :: string
  nr_node_address :: string
  nr_cpu_usage_percent :: flt
  nr_memory_usage_percent :: flt
  nr_gpu_usage_percent :: flt
  nr_pending_tasks :: int
  nr_avg_inference_latency_ms :: flt
  nr_loaded_models :: "string list"
  nr_last_reported :: time

type_synonym resources = "(string, node_resources) dict"

record resource_monitor =
  rm_nodes :: resources
  rm_stale_threshold :: flt

definition rm_new :: "flt \<Rightarrow> resource_monitor" where
  "rm_new stale_threshold = \<lparr>rm_nodes = [], rm_stale_threshold = stale_threshold\<rparr>"

definition rm_update :: "time \<Rightarrow> node_resources \<Rightarrow> resource_monitor \<Rightarrow> resource_monitor" where
  "rm_update now report m =
     (let report = report\<lparr>nr_last_reported := now\<rparr>
      in m\<lparr>rm_nodes := dset (nr_node_id report) report (rm_nodes m)\<rparr>)"

definition get_resource_map :: "time \<Rightarrow> resource_monitor \<Rightarrow> resources" where
  "get_resource_map now m =
     [(node_id, node) \<leftarrow> rm_nodes m. now - nr_last_reported node \<le> rm_stale_threshold m]"

definition get_healthy_nodes :: "time \<Rightarrow> resource_monitor \<Rightarrow> node_resources list" where
  "get_healthy_nodes now m = sort_key nr_cpu_usage_percent (dvalues (get_resource_map now m))"

definition rm_get_node :: "string \<Rightarrow> resource_monitor \<Rightarrow> node_resources option" where
  "rm_get_node node_id m = dget (rm_nodes m) node_id"

definition node_count :: "resource_monitor \<Rightarrow> nat" where
  "node_count m = length (rm_nodes m)"

subsection \<open>Endpoints\<close>

record resource_list =
  rl_total :: nat
  rl_nodes :: "node_resources list"

definition list_resources :: "time \<Rightarrow> resource_monitor \<Rightarrow> resource_list" where
  "list_resources now m =
     (let nodes = dvalues (get_resource_map now m) in \<lparr>rl_total = length nodes, rl_nodes = nodes\<rparr>)"

definition get_node_resources :: "time \<Rightarrow> string \<Rightarrow> resource_monitor \<Rightarrow> http_error + node_resources" where
  "get_node_resources now node_id m =
     (case dget (get_resource_map now m) node_id of None \<Rightarrow> Inl (HTTPError 404) | Some node \<Rightarrow> Inr node)"

definition receive_resource_report :: "time \<Rightarrow> node_resources \<Rightarrow> resource_monitor \<Rightarrow> resource_monitor \<times> string" where
  "receive_resource_report now report m = (rm_update now report m, nr_node_id report)"

subsection \<open>Invariant and lookups\<close>

definition rm_ok :: "resource_monitor \<Rightarrow> bool" where
  "rm_ok m \<longleftrightarrow> distinct (dkeys (rm_nodes m)) \<and> dall (\<lambda>k n. nr_node_id n = k) (rm_nodes m)"

lemma rm_ok_new: "rm_ok (rm_new t)"
  by (simp add: rm_ok_def rm_new_def)

lemma rm_ok_update: "rm_ok m \<Longrightarrow> rm_ok (rm_update now r m)"
  by (auto simp: rm_ok_def rm_update_def Let_def intro!: dall_dset)

lemma dget_filter:
  "distinct (dkeys d) \<Longrightarrow> dget [(k, v) \<leftarrow> d. P v] k = (case dget d k of None \<Rightarrow> None | Some v \<Rightarrow> if P v then Some v else None)"
  by (induction d) (auto simp: map_of_eq_None_iff split: option.splits)

lemma resource_map_get:
  "rm_ok m \<Longrightarrow> dget (get_resource_map now m) k =
     (case rm_get_node k m of None \<Rightarrow> None
      | Some n \<Rightarrow> if now - nr_last_reported n \<le> rm_stale_threshold m then Some n else None)"
  by (simp add: get_resource_map_def rm_get_node_def rm_ok_def dget_filter)

lemma resource_map_ok:
  assumes "rm_ok m"
  shows "distinct (dkeys (get_resource_map now m)) \<and>
    dall (\<lambda>k n. nr_node_id n = k) (get_resource_map now m)"
proof -
  have "distinct (map fst [(k, n) \<leftarrow> rm_nodes m. now - nr_last_reported n \<le> rm_stale_threshold m])"
    using assms by (auto simp: rm_ok_def intro: distinct_map_filter)
  then show ?thesis using assms by (auto simp: get_resource_map_def rm_ok_def dall_def)
qed

lemma rm_get_update:
  "rm_get_node k (rm_update now r m) =
     (if k = nr_node_id r then Some (r\<lparr>nr_last_reported := now\<rparr>) else rm_get_node k m)"
  by (simp add: rm_get_node_def rm_update_def Let_def)

end
