(* ===== verification/Placement.thy ===== *)
theory Placement imports ResourceMonitors begin

section \<open>Placement policies\<close>

text \<open>
  The task and placement models of \<open>scheduler/services/scheduler_engine.py\<close>, the policy interface of
  \<open>placement_policy.py\<close>, and the policies \<open>latency_first\<close>, \<open>cost_aware\<close> and \<open>balanced\<close>. The \<open>reason\<close>
  of a placement is a datatype whose constructors hold what the f-string interpolates.
\<close>

record inference_task =
  it_task_id :: string
  it_model_name :: string
  it_model_version :: string
  it_input_size_bytes :: int
  it_priority :: string
  it_max_latency_ms :: flt
  it_requesting_node_id :: string

datatype reason =
    NoReason
  | LatencyNoNodes
  | LatencyOverloaded
  | LatencyEdge string string flt flt
  | CostEdge int string
  | CostCloud bool int
  | BalancedEdge flt flt flt flt
  | BalancedCloud flt "flt option" flt flt
  | AdaptiveNoNodes
  | AdaptiveEdge string flt flt
  | AdaptiveCloud flt flt
  | NoPolicy

record task_placement =
  tp_task_id :: string
  tp_target :: string
  tp_target_node_id :: string
  tp_target_endpoint :: string
  tp_estimated_latency_ms :: flt
  tp_score :: flt
  tp_reason :: reason

text \<open>The model's constructor with its defaults for the target fields.\<close>

definition to_cloud :: "inference_task \<Rightarrow> string \<Rightarrow> flt \<Rightarrow> flt \<Rightarrow> reason \<Rightarrow> task_placement" where
  "to_cloud task endpoint latency score reason =
     \<lparr>tp_task_id = it_task_id task, tp_target = ''cloud'', tp_target_node_id = '''',
      tp_target_endpoint = endpoint, tp_estimated_latency_ms = latency, tp_score = score,
      tp_reason = reason\<rparr>"

definition is_local :: "inference_task \<Rightarrow> node_resources \<Rightarrow> bool" where
  "is_local task best \<longleftrightarrow> nr_node_id best = it_requesting_node_id task"

definition edge_target :: "inference_task \<Rightarrow> node_resources \<Rightarrow> string" where
  "edge_target task best = (if is_local task best then ''edge_local'' else ''edge_remote'')"

definition to_edge :: "inference_task \<Rightarrow> node_resources \<Rightarrow> flt \<Rightarrow> flt \<Rightarrow> reason \<Rightarrow> task_placement" where
  "to_edge task best latency score reason =
     \<lparr>tp_task_id = it_task_id task, tp_target = edge_target task best,
      tp_target_node_id = nr_node_id best, tp_target_endpoint = nr_node_address best,
      tp_estimated_latency_ms = latency, tp_score = score, tp_reason = reason\<rparr>"

text \<open>A policy either returns a placement or raises (None).\<close>

type_synonym policy = "inference_task \<Rightarrow> resources \<Rightarrow> task_placement option"

subsection \<open>The interface\<close>

text \<open>
  What the engine relies on: the score is in the unit interval, the placement is for the task, and an
  edge target is a node of the resource map that the policy holds eligible.
\<close>

definition sound_placement ::
  "(node_resources \<Rightarrow> bool) \<Rightarrow> inference_task \<Rightarrow> resources \<Rightarrow> task_placement \<Rightarrow> bool" where
  "sound_placement eligible t rs p \<longleftrightarrow>
     0 \<le> tp_score p \<and> tp_score p \<le> 1 \<and> tp_task_id p = it_task_id t \<and>
     (tp_target p = ''cloud'' \<or>
      (\<exists>n \<in> set (dvalues rs). eligible n \<and> tp_target p = edge_target t n \<and>
         tp_target_node_id p = nr_node_id n \<and> tp_target_endpoint p = nr_node_address n))"

locale placement_policy =
  fixes evaluate :: policy and eligible :: "node_resources \<Rightarrow> bool"
  assumes sound: "evaluate t rs = Some p \<Longrightarrow> sound_placement eligible t rs p"
begin

lemma score_unit: "evaluate t rs = Some p \<Longrightarrow> 0 \<le> tp_score p \<and> tp_score p \<le> 1"
  using sound by (auto simp: sound_placement_def)

lemma no_node_cloud:
  "evaluate t rs = Some p \<Longrightarrow> (\<And>n. n \<in> set (dvalues rs) \<Longrightarrow> \<not> eligible n) \<Longrightarrow> tp_target p = ''cloud''"
  using sound[of t rs p] by (auto simp: sound_placement_def)

lemma target_kind:
  "evaluate t rs = Some p \<Longrightarrow> tp_target p \<in> {''cloud'', ''edge_local'', ''edge_remote''}"
  using sound[of t rs p] by (cases "tp_target p = ''cloud''") (auto simp: sound_placement_def edge_target_def split: if_splits)

end

subsection \<open>Shared thresholds and selection\<close>

definition CPU_OVERLOAD_PERCENT :: flt where "CPU_OVERLOAD_PERCENT = 85"
definition MEMORY_OVERLOAD_PERCENT :: flt where "MEMORY_OVERLOAD_PERCENT = 90"
definition SMALL_MODEL_SIZE_BYTES :: int where "SMALL_MODEL_SIZE_BYTES = 10 * 1024 * 1024"

definition node_ok :: "node_resources \<Rightarrow> bool" where
  "node_ok n \<longleftrightarrow> nr_cpu_usage_percent n \<le> CPU_OVERLOAD_PERCENT \<and>
     nr_memory_usage_percent n \<le> MEMORY_OVERLOAD_PERCENT"

text \<open>The requesting node if it is among the candidates, else the one with the least CPU usage.\<close>

definition pick_best :: "inference_task \<Rightarrow> node_resources list \<Rightarrow> node_resources" where
  "pick_best task healthy =
     (case List.find (\<lambda>n. nr_node_id n = it_requesting_node_id task) healthy of
        Some n \<Rightarrow> n
      | None \<Rightarrow> hd (sort_key nr_cpu_usage_percent healthy))"

definition latency_or :: "flt \<Rightarrow> node_resources \<Rightarrow> flt" where
  "latency_or dflt best =
     (if nr_avg_inference_latency_ms best > 0 then nr_avg_inference_latency_ms best else dflt)"

subsection \<open>Latency first\<close>

definition latency_first :: policy where
  "latency_first task resources = Some (
     if resources = [] then to_cloud task '''' 50 (3/10) LatencyNoNodes
     else
       let healthy = [n \<leftarrow> dvalues resources. \<not> (nr_cpu_usage_percent n > CPU_OVERLOAD_PERCENT
                         \<or> nr_memory_usage_percent n > MEMORY_OVERLOAD_PERCENT)]
       in if healthy = [] then to_cloud task '''' 50 (35/100) LatencyOverloaded
          else let best = pick_best task healthy;
                   score = (if is_local task best then 9/10 else 8/10)
               in to_edge task best (latency_or 10 best) score
                    (LatencyEdge (edge_target task best) (nr_node_id best)
                       (nr_cpu_usage_percent best) (nr_memory_usage_percent best)))"

subsection \<open>Cost aware\<close>

record cost_aware_policy =
  ca_cloud_endpoint :: string
  ca_cloud_cost_factor :: flt
  ca_small_model_threshold :: int

definition cost_aware_new :: "string \<Rightarrow> cost_aware_policy" where
  "cost_aware_new endpoint = \<lparr>ca_cloud_endpoint = endpoint, ca_cloud_cost_factor = 15/100,
     ca_small_model_threshold = SMALL_MODEL_SIZE_BYTES\<rparr>"

definition cost_aware :: "cost_aware_policy \<Rightarrow> policy" where
  "cost_aware ca task resources = Some (
     let is_small_model = it_input_size_bytes task < ca_small_model_threshold ca;
         healthy_nodes = [n \<leftarrow> dvalues resources. nr_cpu_usage_percent n \<le> CPU_OVERLOAD_PERCENT
                            \<and> nr_memory_usage_percent n \<le> MEMORY_OVERLOAD_PERCENT]
     in if is_small_model \<and> healthy_nodes \<noteq> []
        then let best = pick_best task healthy_nodes;
                 score = (if is_local task best then 85/100 else 75/100)
             in to_edge task best (latency_or 15 best) score
                  (CostEdge (it_input_size_bytes task) (edge_target task best))
        else let cloud_score = 7/10 - ca_cloud_cost_factor ca;
                 cloud_score = (if resources = [] then 6/10 else cloud_score)
             in to_cloud task (ca_cloud_endpoint ca) 40 (max (1/10) cloud_score)
                  (CostCloud is_small_model (it_input_size_bytes task)))"

subsection \<open>Balanced\<close>

record balanced_policy =
  ba_edge_latency_sla_ms :: flt
  ba_latency_weight :: flt
  ba_cost_weight :: flt

definition balanced_new :: "flt \<Rightarrow> balanced_policy" where
  "balanced_new sla = \<lparr>ba_edge_latency_sla_ms = sla, ba_latency_weight = 6/10, ba_cost_weight = 4/10\<rparr>"

definition latency_score_edge :: "node_resources \<Rightarrow> inference_task \<Rightarrow> flt" where
  "latency_score_edge node task =
     (let avg_lat = latency_or 10 node in
      if avg_lat \<ge> it_max_latency_ms task then 0 else max 0 (1 - avg_lat / it_max_latency_ms task))"

definition latency_score_cloud :: "inference_task \<Rightarrow> flt" where
  "latency_score_cloud task =
     (if 50 \<ge> it_max_latency_ms task then 0 else max 0 (1 - 50 / it_max_latency_ms task))"

definition cost_score_edge :: "inference_task \<Rightarrow> flt" where
  "cost_score_edge task = (if it_input_size_bytes task < SMALL_MODEL_SIZE_BYTES then 9/10 else 5/10)"

definition cost_score_cloud :: "inference_task \<Rightarrow> flt" where
  "cost_score_cloud task = (if it_input_size_bytes task < SMALL_MODEL_SIZE_BYTES then 3/10 else 7/10)"

definition edge_score :: "balanced_policy \<Rightarrow> inference_task \<Rightarrow> node_resources \<Rightarrow> flt" where
  "edge_score ba task node =
     ba_latency_weight ba * latency_score_edge node task + ba_cost_weight ba * cost_score_edge task"

definition cloud_score :: "balanced_policy \<Rightarrow> inference_task \<Rightarrow> flt" where
  "cloud_score ba task =
     ba_latency_weight ba * latency_score_cloud task + ba_cost_weight ba * cost_score_cloud task"

fun best_edge ::
  "balanced_policy \<Rightarrow> inference_task \<Rightarrow> node_resources list \<Rightarrow> flt \<times> node_resources option \<Rightarrow>
   flt \<times> node_resources option" where
  "best_edge ba task [] best = best"
| "best_edge ba task (node # nodes) (best_score, best_node) =
     (if nr_cpu_usage_percent node > CPU_OVERLOAD_PERCENT
         \<or> nr_memory_usage_percent node > MEMORY_OVERLOAD_PERCENT
      then best_edge ba task nodes (best_score, best_node)
      else let combined = edge_score ba task node in
        if combined > best_score then best_edge ba task nodes (combined, Some node)
        else best_edge ba task nodes (best_score, best_node))"

definition balanced :: "balanced_policy \<Rightarrow> policy" where
  "balanced ba task resources = Some (
     let (best_edge_score, best_edge_node) = best_edge ba task (dvalues resources) (-1, None);
         cloud = cloud_score ba task
     in case best_edge_node of
          Some best \<Rightarrow>
            (if best_edge_score \<ge> cloud
             then to_edge task best (latency_or 10 best) (py_round best_edge_score 4)
                    (BalancedEdge best_edge_score cloud (ba_latency_weight ba) (ba_cost_weight ba))
             else to_cloud task '''' 50 (py_round cloud 4)
                    (BalancedCloud cloud (Some best_edge_score) (ba_latency_weight ba) (ba_cost_weight ba)))
        | None \<Rightarrow> to_cloud task '''' 50 (py_round cloud 4)
                    (BalancedCloud cloud None (ba_latency_weight ba) (ba_cost_weight ba)))"

subsection \<open>Lemmas\<close>

lemma node_ok_iff:
  "\<not> (nr_cpu_usage_percent n > CPU_OVERLOAD_PERCENT \<or> nr_memory_usage_percent n > MEMORY_OVERLOAD_PERCENT) \<longleftrightarrow>
   node_ok n"
  by (auto simp: node_ok_def)

lemma pick_best_in: "healthy \<noteq> [] \<Longrightarrow> pick_best task healthy \<in> set healthy"
  by (auto simp: pick_best_def hd_sort_key_in dest: find_Some_in split: option.split)

lemma pick_best_local:
  "n \<in> set healthy \<Longrightarrow> nr_node_id n = it_requesting_node_id task \<Longrightarrow> is_local task (pick_best task healthy)"
  by (auto simp: pick_best_def is_local_def find_None_all dest: find_Some_in split: option.split)

lemma pick_best_least:
  assumes "n \<in> set healthy" "\<not> is_local task (pick_best task healthy)"
  shows "nr_cpu_usage_percent (pick_best task healthy) \<le> nr_cpu_usage_percent n"
  using assms hd_sort_key_least[OF assms(1), of nr_cpu_usage_percent]
  by (auto simp: pick_best_def is_local_def dest: find_Some_in split: option.splits)

lemma sound_cloud: "0 \<le> x \<Longrightarrow> x \<le> 1 \<Longrightarrow> sound_placement e t rs (to_cloud t ep l x r)"
  by (simp add: sound_placement_def to_cloud_def)

lemma sound_edge:
  "0 \<le> x \<Longrightarrow> x \<le> 1 \<Longrightarrow> n \<in> set (dvalues rs) \<Longrightarrow> e n \<Longrightarrow> sound_placement e t rs (to_edge t n l x r)"
  by (auto simp: sound_placement_def to_edge_def)

lemma pick_filter:
  "[n \<leftarrow> dvalues rs. P n] \<noteq> [] \<Longrightarrow>
   pick_best t [n \<leftarrow> dvalues rs. P n] \<in> set (dvalues rs) \<and> P (pick_best t [n \<leftarrow> dvalues rs. P n])"
  using pick_best_in[of "[n \<leftarrow> dvalues rs. P n]" t] by auto

lemma latency_first_eq:
  "latency_first task resources = Some (
     if resources = [] then to_cloud task '''' 50 (3/10) LatencyNoNodes
     else let healthy = filter node_ok (dvalues resources)
       in if healthy = [] then to_cloud task '''' 50 (35/100) LatencyOverloaded
          else let best = pick_best task healthy;
                   score = (if is_local task best then 9/10 else 8/10)
               in to_edge task best (latency_or 10 best) score
                    (LatencyEdge (edge_target task best) (nr_node_id best)
                       (nr_cpu_usage_percent best) (nr_memory_usage_percent best)))"
  unfolding latency_first_def node_ok_iff ..

lemma score_unit_edge:
  assumes "ba_latency_weight ba = 6/10" "ba_cost_weight ba = 4/10"
  shows "0 \<le> edge_score ba t n \<and> edge_score ba t n \<le> 1"
proof -
  have "0 < latency_or 10 n" by (simp add: latency_or_def)
  then have "0 \<le> latency_score_edge n t \<and> latency_score_edge n t \<le> 1"
    by (auto simp: latency_score_edge_def Let_def)
  moreover have "0 \<le> cost_score_edge t \<and> cost_score_edge t \<le> 1" by (simp add: cost_score_edge_def)
  ultimately show ?thesis unfolding edge_score_def assms by auto
qed

lemma score_unit_cloud:
  assumes "ba_latency_weight ba = 6/10" "ba_cost_weight ba = 4/10"
  shows "0 \<le> cloud_score ba t \<and> cloud_score ba t \<le> 88/100"
proof -
  have "0 \<le> latency_score_cloud t \<and> latency_score_cloud t \<le> 1"
    by (auto simp: latency_score_cloud_def)
  then show ?thesis unfolding cloud_score_def assms by (auto simp: cost_score_cloud_def)
qed

lemma best_edge_cases:
  "best_edge ba t nodes (s, b) = (s', b') \<Longrightarrow>
   s \<le> s' \<and> (\<forall>n \<in> set nodes. node_ok n \<longrightarrow> edge_score ba t n \<le> s') \<and>
   (s' = s \<and> b' = b \<or> (\<exists>n \<in> set nodes. node_ok n \<and> b' = Some n \<and> s' = edge_score ba t n))"
proof (induction nodes arbitrary: s b)
  case (Cons n nodes)
  show ?case
  proof (cases "node_ok n \<and> edge_score ba t n > s")
    case True
    then have "best_edge ba t nodes (edge_score ba t n, Some n) = (s', b')"
      using Cons.prems by (auto simp: node_ok_def Let_def)
    from Cons.IH[OF this] True show ?thesis by auto
  next
    case False
    then have "best_edge ba t nodes (s, b) = (s', b')"
      using Cons.prems by (auto simp: node_ok_def Let_def split: if_splits)
    from Cons.IH[OF this] False show ?thesis by auto
  qed
qed simp

interpretation latency_first: placement_policy latency_first node_ok
  by unfold_locales
    (auto simp: latency_first_eq Let_def sound_cloud split: if_splits
      intro!: sound_cloud sound_edge dest: pick_filter)

lemma cost_aware_sound:
  assumes "0 \<le> ca_cloud_cost_factor ca" "cost_aware ca t rs = Some p"
  shows "sound_placement node_ok t rs p"
proof -
  have h: "[n \<leftarrow> dvalues rs. nr_cpu_usage_percent n \<le> CPU_OVERLOAD_PERCENT
        \<and> nr_memory_usage_percent n \<le> MEMORY_OVERLOAD_PERCENT] = filter node_ok (dvalues rs)"
    by (simp add: node_ok_def[abs_def])
  show ?thesis using assms pick_filter[of node_ok rs t] unfolding cost_aware_def h Let_def
    by (auto simp del: set_map intro!: sound_cloud sound_edge split: if_splits)
qed

interpretation cost_aware: placement_policy "cost_aware (cost_aware_new endpoint)" node_ok for endpoint
  by unfold_locales (rule cost_aware_sound, auto simp: cost_aware_new_def)

lemma balanced_sound:
  assumes "balanced (balanced_new sla) t rs = Some p"
  shows "sound_placement node_ok t rs p"
proof -
  let ?ba = "balanced_new sla"
  have w: "ba_latency_weight ?ba = 6/10" "ba_cost_weight ?ba = 4/10" by (simp_all add: balanced_new_def)
  obtain s b where b: "best_edge ?ba t (dvalues rs) (-1, None) = (s, b)" by fastforce
  note c = best_edge_cases[OF b]
  have cl: "0 \<le> py_round (cloud_score ?ba t) 4 \<and> py_round (cloud_score ?ba t) 4 \<le> 1"
    using score_unit_cloud[OF w, of t] by (intro py_round_unit) auto
  show ?thesis
  proof (cases b)
    case None
    then show ?thesis using assms b cl by (auto simp: balanced_def Let_def intro!: sound_cloud)
  next
    case (Some n)
    then have n: "n \<in> set (dvalues rs)" "node_ok n" "s = edge_score ?ba t n" using c by auto
    have "0 \<le> py_round s 4 \<and> py_round s 4 \<le> 1"
      using score_unit_edge[OF w, of t n] n by (intro py_round_unit) auto
    then show ?thesis using assms b cl n Some
      by (auto simp: balanced_def Let_def simp del: set_map intro!: sound_cloud sound_edge split: if_splits)
  qed
qed

interpretation balanced: placement_policy "balanced (balanced_new sla)" node_ok for sla
  by unfold_locales (rule balanced_sound)

end
