(* ===== verification/Adaptive.thy ===== *)
theory Adaptive imports Placement begin

section \<open>Adaptive scheduler\<close>

text \<open>
  \<open>scheduler/services/adaptive_scheduler.py\<close>: a placement policy with a feedback loop. The observed
  latencies feed an exponential moving average, which moves the CPU threshold of the policy.
\<close>

record adaptive_scheduler =
  as_edge_latency_sla_ms :: flt
  as_cloud_endpoint :: string
  as_window_size :: nat
  as_latency_observations :: "flt list"
  as_ema_latency :: flt
  as_dynamic_cpu_threshold :: flt

definition CPU_OVERLOAD_THRESHOLD :: flt where "CPU_OVERLOAD_THRESHOLD = 80"
definition MEMORY_OVERLOAD_THRESHOLD :: flt where "MEMORY_OVERLOAD_THRESHOLD = 90"
definition EMA_ALPHA :: flt where "EMA_ALPHA = 3/10"

definition adaptive_new :: "flt \<Rightarrow> string \<Rightarrow> nat \<Rightarrow> adaptive_scheduler" where
  "adaptive_new sla endpoint window =
     \<lparr>as_edge_latency_sla_ms = sla, as_cloud_endpoint = endpoint, as_window_size = window,
      as_latency_observations = [], as_ema_latency = 0,
      as_dynamic_cpu_threshold = CPU_OVERLOAD_THRESHOLD\<rparr>"

text \<open>The division raises for an SLA of zero; the state written before it stays.\<close>

datatype arith_error = ZeroDivisionError

definition adjust_thresholds :: "(adaptive_scheduler, arith_error, unit) action" where
  "adjust_thresholds a =
     (if as_ema_latency a \<le> 0 then ret () a
      else if as_edge_latency_sla_ms a = 0 then raise ZeroDivisionError a
      else let ratio = as_ema_latency a / as_edge_latency_sla_ms a in
        ret () (if ratio < 5/10
                then a\<lparr>as_dynamic_cpu_threshold := min 90 (as_dynamic_cpu_threshold a + 1)\<rparr>
                else if ratio > 9/10
                then a\<lparr>as_dynamic_cpu_threshold := max 60 (as_dynamic_cpu_threshold a - 2)\<rparr>
                else a))"

definition record_latency :: "flt \<Rightarrow> (adaptive_scheduler, arith_error, unit) action" where
  "record_latency latency_ms a =
     (let a = a\<lparr>as_latency_observations :=
                  deque_append (as_window_size a) latency_ms (as_latency_observations a)\<rparr>;
          a = (if as_ema_latency a = 0 then a\<lparr>as_ema_latency := latency_ms\<rparr>
               else a\<lparr>as_ema_latency := EMA_ALPHA * latency_ms + (1 - EMA_ALPHA) * as_ema_latency a\<rparr>)
      in adjust_thresholds a)"

text \<open>The loop over the nodes breaks at the requesting node.\<close>

fun adaptive_pick :: "adaptive_scheduler \<Rightarrow> inference_task \<Rightarrow> node_resources list \<Rightarrow>
    node_resources option \<Rightarrow> node_resources option" where
  "adaptive_pick a task [] best_node = best_node"
| "adaptive_pick a task (node # nodes) best_node =
     (let is_overloaded = (nr_cpu_usage_percent node > as_dynamic_cpu_threshold a
                           \<or> nr_memory_usage_percent node > MEMORY_OVERLOAD_THRESHOLD)
      in if is_overloaded then adaptive_pick a task nodes best_node
         else if nr_node_id node = it_requesting_node_id task then Some node
         else adaptive_pick a task nodes
           (case best_node of
              None \<Rightarrow> Some node
            | Some b \<Rightarrow> if nr_cpu_usage_percent node < nr_cpu_usage_percent b then Some node else best_node))"

definition latency_ok :: "adaptive_scheduler \<Rightarrow> bool" where
  "latency_ok a \<longleftrightarrow> as_ema_latency a \<le> as_edge_latency_sla_ms a \<or> as_ema_latency a = 0"

definition adaptive_evaluate :: "adaptive_scheduler \<Rightarrow> policy" where
  "adaptive_evaluate a task resources =
     (if resources = [] then Some (to_cloud task (as_cloud_endpoint a) 50 (5/10) AdaptiveNoNodes)
      else case adaptive_pick a task (dvalues resources) None of
        Some best \<Rightarrow>
          if latency_ok a then
            if as_ema_latency a > 0 \<and> as_edge_latency_sla_ms a = 0 then None
            else let sla_ratio = (if as_ema_latency a > 0 then as_ema_latency a / as_edge_latency_sla_ms a
                                  else 3/10);
                     score = max 0 (min 1 (1 - sla_ratio * (5/10)))
              in Some (to_edge task best
                   (if nr_avg_inference_latency_ms best = 0 then as_ema_latency a
                    else nr_avg_inference_latency_ms best)
                   score (AdaptiveEdge (edge_target task best) (as_ema_latency a) (as_dynamic_cpu_threshold a)))
          else Some (to_cloud task (as_cloud_endpoint a) 50 (4/10)
                 (AdaptiveCloud (as_ema_latency a) (as_dynamic_cpu_threshold a)))
      | None \<Rightarrow> Some (to_cloud task (as_cloud_endpoint a) 50 (4/10)
                 (AdaptiveCloud (as_ema_latency a) (as_dynamic_cpu_threshold a))))"

text \<open>The scheduler after a sequence of observations; an observation whose feedback raises is one step too.\<close>

definition record_all :: "flt list \<Rightarrow> adaptive_scheduler \<Rightarrow> adaptive_scheduler" where
  "record_all = fold (\<lambda>x a. fst (record_latency x a))"

subsection \<open>Lemmas\<close>

definition adaptive_ok :: "adaptive_scheduler \<Rightarrow> node_resources \<Rightarrow> bool" where
  "adaptive_ok a n \<longleftrightarrow> nr_cpu_usage_percent n \<le> as_dynamic_cpu_threshold a \<and>
     nr_memory_usage_percent n \<le> MEMORY_OVERLOAD_THRESHOLD"

lemma adaptive_pick_eligible:
  "adaptive_pick a t nodes b = Some n \<Longrightarrow> b = Some n \<or> n \<in> set nodes \<and> adaptive_ok a n"
proof (induction nodes arbitrary: b)
  case (Cons m nodes)
  show ?case
  proof (cases "adaptive_ok a m")
    case False
    then have "adaptive_pick a t nodes b = Some n" using Cons.prems by (auto simp: adaptive_ok_def)
    from Cons.IH[OF this] show ?thesis by auto
  next
    case True
    then show ?thesis using Cons.prems Cons.IH
      by (auto simp: adaptive_ok_def not_less split: if_splits option.splits)
  qed
qed simp

lemma adaptive_pick_total: "adaptive_pick a t nodes (Some b) \<noteq> None"
  by (induction nodes arbitrary: b) (auto simp: Let_def)

lemma adaptive_pick_None:
  "adaptive_pick a t nodes None = None \<longleftrightarrow> (\<forall>n \<in> set nodes. \<not> adaptive_ok a n)"
proof (induction nodes)
  case (Cons m nodes)
  then show ?case using adaptive_pick_total[of a t nodes m]
    by (cases "adaptive_ok a m") (auto simp: adaptive_ok_def not_less Let_def)
qed simp

lemma adaptive_pick_local:
  assumes "n \<in> set nodes" "adaptive_ok a n" "nr_node_id n = it_requesting_node_id t"
  shows "\<exists>m. adaptive_pick a t nodes b = Some m \<and> nr_node_id m = it_requesting_node_id t"
  using assms(1)
proof (induction nodes arbitrary: b)
  case (Cons m nodes)
  then show ?case using assms(2,3) by (auto simp: adaptive_ok_def not_less Let_def)
qed simp

lemma adaptive_never_raises: "adaptive_evaluate a t rs \<noteq> None"
  by (auto simp: adaptive_evaluate_def latency_ok_def Let_def split: option.splits)

lemma adaptive_sound:
  assumes "adaptive_evaluate a t rs = Some p"
  shows "sound_placement (adaptive_ok a) t rs p"
proof (cases "adaptive_pick a t (dvalues rs) None")
  case (Some n)
  then have "n \<in> set (dvalues rs)" "adaptive_ok a n" using adaptive_pick_eligible[OF Some] by auto
  then show ?thesis using assms Some unfolding adaptive_evaluate_def Let_def
    by (auto simp del: set_map split: if_splits intro!: sound_cloud sound_edge)
next
  case None
  then show ?thesis using assms unfolding adaptive_evaluate_def
    by (auto split: if_splits intro!: sound_cloud)
qed

interpretation adaptive: placement_policy "adaptive_evaluate a" "adaptive_ok a" for a
  by unfold_locales (rule adaptive_sound)

subsection \<open>The feedback loop\<close>

definition threshold_ok :: "adaptive_scheduler \<Rightarrow> bool" where
  "threshold_ok a \<longleftrightarrow> 60 \<le> as_dynamic_cpu_threshold a \<and> as_dynamic_cpu_threshold a \<le> 90 \<and>
     length (as_latency_observations a) \<le> as_window_size a"

lemma adjust_sla [simp]: "as_edge_latency_sla_ms (fst (adjust_thresholds a)) = as_edge_latency_sla_ms a"
  unfolding adjust_thresholds_def Let_def by auto

lemma adjust_ema [simp]: "as_ema_latency (fst (adjust_thresholds a)) = as_ema_latency a"
  unfolding adjust_thresholds_def Let_def by auto

lemma adjust_ok: "threshold_ok a \<Longrightarrow> threshold_ok (fst (adjust_thresholds a))"
  unfolding adjust_thresholds_def Let_def threshold_ok_def by auto

lemma record_ok: "threshold_ok a \<Longrightarrow> threshold_ok (fst (record_latency x a))"
  unfolding record_latency_def Let_def
  by (rule adjust_ok) (auto simp: threshold_ok_def deque_append_length)

lemma threshold_ok_new: "threshold_ok (adaptive_new sla ep w)"
  by (simp add: threshold_ok_def adaptive_new_def CPU_OVERLOAD_THRESHOLD_def)

lemma record_sla [simp]: "as_edge_latency_sla_ms (fst (record_latency x a)) = as_edge_latency_sla_ms a"
  unfolding record_latency_def Let_def by simp

lemma record_ema:
  "as_ema_latency (fst (record_latency x a)) =
     (if as_ema_latency a = 0 then x else EMA_ALPHA * x + (1 - EMA_ALPHA) * as_ema_latency a)"
  unfolding record_latency_def Let_def by simp

lemma record_all_ok: "threshold_ok a \<Longrightarrow> threshold_ok (record_all xs a)"
  unfolding record_all_def by (induction xs arbitrary: a) (auto simp: record_ok)

lemma ema_between:
  assumes "l \<le> x" "x \<le> u" "as_ema_latency a = 0 \<or> l \<le> as_ema_latency a \<and> as_ema_latency a \<le> u"
  shows "l \<le> as_ema_latency (fst (record_latency x a)) \<and> as_ema_latency (fst (record_latency x a)) \<le> u"
  using assms by (auto simp: record_ema EMA_ALPHA_def)

lemma record_all_ema:
  assumes "\<forall>x \<in> set xs. l \<le> x \<and> x \<le> u" "as_ema_latency a = 0 \<or> l \<le> as_ema_latency a \<and> as_ema_latency a \<le> u"
  shows "as_ema_latency (record_all xs a) = 0 \<or>
    l \<le> as_ema_latency (record_all xs a) \<and> as_ema_latency (record_all xs a) \<le> u"
  using assms
proof (induction xs arbitrary: a)
  case (Cons x xs)
  have "as_ema_latency (fst (record_latency x a)) = 0 \<or>
      l \<le> as_ema_latency (fst (record_latency x a)) \<and> as_ema_latency (fst (record_latency x a)) \<le> u"
    using ema_between[of l x u a] Cons.prems by simp
  from Cons.IH[OF _ this] show ?case using Cons.prems by (simp add: record_all_def)
qed (simp add: record_all_def)

end
