(* ===== verification/Scheduler.thy ===== *)
theory Scheduler imports Adaptive begin

section \<open>Scheduling engine\<close>

text \<open>
  \<open>scheduler/services/scheduler_engine.py\<close> and the endpoints of \<open>scheduler/routers/tasks.py\<close>: the
  engine asks every policy, keeps the first placement with the highest score, and stores the result
  under the task's id. The queue is drained in the background. The policies are the three that
  \<open>scheduler/main.py\<close> registers.
\<close>

record scheduler_engine =
  se_resource_monitor :: resource_monitor
  se_policies :: "policy list"
  se_task_queue :: "inference_task list"
  se_results :: "(string, task_placement) dict"

definition engine_new :: "resource_monitor \<Rightarrow> policy list \<Rightarrow> scheduler_engine" where
  "engine_new monitor policies = \<lparr>se_resource_monitor = monitor, se_policies = policies,
     se_task_queue = [], se_results = []\<rparr>"

text \<open>The loop over the policies; one that raises is skipped.\<close>

fun best_of :: "inference_task \<Rightarrow> resources \<Rightarrow> policy list \<Rightarrow> flt \<times> task_placement option \<Rightarrow>
    flt \<times> task_placement option" where
  "best_of task rs [] best = best"
| "best_of task rs (policy # policies) (best_score, best_placement) =
     (case policy task rs of
        None \<Rightarrow> best_of task rs policies (best_score, best_placement)
      | Some placement \<Rightarrow>
          if tp_score placement > best_score
          then best_of task rs policies (tp_score placement, Some placement)
          else best_of task rs policies (best_score, best_placement))"

definition place :: "time \<Rightarrow> inference_task \<Rightarrow> scheduler_engine \<Rightarrow> task_placement" where
  "place now task e =
     (let resources = get_resource_map now (se_resource_monitor e) in
      case snd (best_of task resources (se_policies e) (-1, None)) of
        Some placement \<Rightarrow> placement
      | None \<Rightarrow> to_cloud task '''' 0 0 NoPolicy)"

definition submit_task :: "time \<Rightarrow> inference_task \<Rightarrow> scheduler_engine \<Rightarrow> scheduler_engine \<times> task_placement" where
  "submit_task now task e =
     (let best_placement = place now task e
      in (e\<lparr>se_results := dset (it_task_id task) best_placement (se_results e)\<rparr>, best_placement))"

definition enqueue_task :: "inference_task \<Rightarrow> scheduler_engine \<Rightarrow> scheduler_engine" where
  "enqueue_task task e = e\<lparr>se_task_queue := se_task_queue e @ [task]\<rparr>"

text \<open>The loop runs until the queue is empty; the clock is read at each submission.\<close>

function drain_loop :: "(nat \<Rightarrow> time) \<Rightarrow> nat \<Rightarrow> scheduler_engine \<Rightarrow> scheduler_engine \<times> nat" where
  "drain_loop clock processed e =
     (case se_task_queue e of
        [] \<Rightarrow> (e, processed)
      | task # rest \<Rightarrow>
          drain_loop clock (processed + 1)
            (fst (submit_task (clock processed) task (e\<lparr>se_task_queue := rest\<rparr>))))"
  by pat_completeness auto

termination
  by (relation "measure (\<lambda>(clock, n, e). length (se_task_queue e))") (auto simp: submit_task_def Let_def)

declare drain_loop.simps [simp del]

definition drain_queue :: "(nat \<Rightarrow> time) \<Rightarrow> scheduler_engine \<Rightarrow> scheduler_engine \<times> nat" where
  "drain_queue clock e = drain_loop clock 0 e"

definition get_result :: "string \<Rightarrow> scheduler_engine \<Rightarrow> task_placement option" where
  "get_result task_id e = dget (se_results e) task_id"

definition get_all_results :: "scheduler_engine \<Rightarrow> (string, task_placement) dict" where
  "get_all_results e = se_results e"

subsection \<open>Endpoints\<close>

record task_list =
  tl_total :: nat
  tl_tasks :: "task_placement list"

definition submit_task_endpoint ::
  "time \<Rightarrow> inference_task \<Rightarrow> scheduler_engine \<Rightarrow> scheduler_engine \<times> (string \<times> task_placement)" where
  "submit_task_endpoint now task e =
     (let (e, placement) = submit_task now task e in (e, (it_task_id task, placement)))"

definition get_task_placement :: "string \<Rightarrow> scheduler_engine \<Rightarrow> http_error + task_placement" where
  "get_task_placement task_id e =
     (case get_result task_id e of None \<Rightarrow> Inl (HTTPError 404) | Some r \<Rightarrow> Inr r)"

text \<open>\<open>sort(key=f, reverse=True)\<close> keeps the order of equal keys.\<close>

definition sort_desc :: "('a \<Rightarrow> 'b::linorder) \<Rightarrow> 'a list \<Rightarrow> 'a list" where
  "sort_desc f xs = rev (sort_key f (rev xs))"

definition list_tasks :: "int \<Rightarrow> int \<Rightarrow> scheduler_engine \<Rightarrow> http_error + task_list" where
  "list_tasks lmt off e =
     (if \<not> (1 \<le> lmt \<and> lmt \<le> 500 \<and> 0 \<le> off) then Inl (HTTPError 422)
      else let all_results = dvalues (get_all_results e);
               sorted_results = sort_desc tp_task_id all_results
           in Inr \<lparr>tl_total = length all_results,
                   tl_tasks = slice (nat off) (nat lmt) sorted_results\<rparr>)"

text \<open>The policies of \<open>lifespan\<close> in \<open>scheduler/main.py\<close>; the latency SLA is not read by \<open>latency_first\<close>.\<close>

definition default_policies :: "string \<Rightarrow> flt \<Rightarrow> policy list" where
  "default_policies cloud_endpoint sla =
     [latency_first, cost_aware (cost_aware_new cloud_endpoint), balanced (balanced_new sla)]"

definition main_engine :: "flt \<Rightarrow> string \<Rightarrow> flt \<Rightarrow> scheduler_engine" where
  "main_engine stale cloud_endpoint sla =
     engine_new (rm_new stale) (default_policies cloud_endpoint sla)"

subsection \<open>The choice of the engine\<close>

lemma best_of_cases:
  "best_of t rs ps (s, b) = (s', b') \<Longrightarrow>
   s \<le> s' \<and> (\<forall>f \<in> set ps. \<forall>p. f t rs = Some p \<longrightarrow> tp_score p \<le> s') \<and>
   (s' = s \<and> b' = b \<or> (\<exists>f \<in> set ps. \<exists>p. f t rs = Some p \<and> b' = Some p \<and> s' = tp_score p))"
proof (induction ps arbitrary: s b)
  case (Cons f ps)
  show ?case
  proof (cases "\<exists>p. f t rs = Some p \<and> tp_score p > s")
    case True
    then obtain p where p: "f t rs = Some p" "tp_score p > s" by auto
    then have "best_of t rs ps (tp_score p, Some p) = (s', b')" using Cons.prems by simp
    from Cons.IH[OF this] p show ?thesis by auto
  next
    case False
    then have "best_of t rs ps (s, b) = (s', b')" using Cons.prems by (auto split: option.splits)
    from Cons.IH[OF this] False show ?thesis by fastforce
  qed
qed simp

lemma place_best:
  assumes "f \<in> set (se_policies e)"
    and "f t (get_resource_map now (se_resource_monitor e)) = Some q" and "0 \<le> tp_score q"
  shows "\<exists>g \<in> set (se_policies e).
    g t (get_resource_map now (se_resource_monitor e)) = Some (place now t e) \<and>
    tp_score q \<le> tp_score (place now t e)"
proof -
  let ?rs = "get_resource_map now (se_resource_monitor e)"
  obtain s b where b: "best_of t ?rs (se_policies e) (-1, None) = (s, b)" by fastforce
  note c = best_of_cases[OF b]
  have "tp_score q \<le> s" using c assms by blast
  with assms(3) have "s \<noteq> -1" by auto
  with c obtain g p where g: "g \<in> set (se_policies e)" "g t ?rs = Some p" "b = Some p" "s = tp_score p"
    by auto
  then have "place now t e = p" using b by (simp add: place_def Let_def)
  with g \<open>tp_score q \<le> s\<close> show ?thesis by auto
qed

lemma place_fallback:
  assumes "\<And>f. f \<in> set (se_policies e) \<Longrightarrow> f t (get_resource_map now (se_resource_monitor e)) = None"
  shows "place now t e = to_cloud t '''' 0 0 NoPolicy"
proof -
  let ?rs = "get_resource_map now (se_resource_monitor e)"
  obtain s b where b: "best_of t ?rs (se_policies e) (-1, None) = (s, b)" by fastforce
  have "b = None" using best_of_cases[OF b] assms by fastforce
  then show ?thesis using b by (simp add: place_def Let_def)
qed

lemma latency_first_edge:
  assumes "n \<in> set (dvalues rs)" "node_ok n"
  shows "\<exists>p. latency_first t rs = Some p \<and> tp_target p \<noteq> ''cloud'' \<and> 8/10 \<le> tp_score p"
proof -
  have "filter node_ok (dvalues rs) \<noteq> []" "rs \<noteq> []" using assms by (auto simp: filter_empty_conv)
  then show ?thesis by (auto simp: latency_first_eq Let_def to_edge_def edge_target_def)
qed

lemma latency_first_local:
  assumes "n \<in> set (dvalues rs)" "node_ok n" "nr_node_id n = it_requesting_node_id t"
  shows "\<exists>p. latency_first t rs = Some p \<and> tp_score p = 9/10"
proof -
  have ne: "filter node_ok (dvalues rs) \<noteq> []" "rs \<noteq> []" using assms by (auto simp: filter_empty_conv)
  have "is_local t (pick_best t (filter node_ok (dvalues rs)))"
    using assms by (intro pick_best_local) auto
  with ne show ?thesis by (auto simp: latency_first_eq Let_def to_edge_def)
qed

lemma cost_aware_cloud_score:
  assumes "cost_aware (cost_aware_new ep) t rs = Some p" "tp_target p = ''cloud''"
  shows "tp_score p \<le> 6/10"
  using assms unfolding cost_aware_def cost_aware_new_def Let_def
  by (auto simp: to_cloud_def to_edge_def edge_target_def split: if_splits)

lemma py_round_le:
  assumes "0 \<le> x" "x \<le> 88/100" shows "py_round x 4 \<le> 88/100"
proof -
  have "round_half_even (x * 10 ^ 4) \<le> 8800"
    using round_half_even_between[of 0 "x * 10 ^ 4" 8800] assms by simp
  then have "(of_int (round_half_even (x * 10 ^ 4)) :: rat) \<le> 8800"
    by (metis of_int_le_iff of_int_numeral)
  then show ?thesis by (simp add: py_round_def)
qed

lemma balanced_cloud_score:
  assumes "balanced (balanced_new sla) t rs = Some p" "tp_target p = ''cloud''"
  shows "tp_score p \<le> 88/100"
proof -
  have "0 \<le> cloud_score (balanced_new sla) t \<and> cloud_score (balanced_new sla) t \<le> 88/100"
    by (rule score_unit_cloud) (simp_all add: balanced_new_def)
  then have "py_round (cloud_score (balanced_new sla) t) 4 \<le> 88/100" by (intro py_round_le) auto
  then show ?thesis using assms unfolding balanced_def Let_def
    by (auto simp: to_cloud_def to_edge_def edge_target_def split: if_splits option.splits prod.splits)
qed

text \<open>A task whose requesting node has a fresh report below the limits is never sent to the cloud.\<close>

lemma place_local_edge:
  assumes "se_policies e = default_policies ep sla"
    and "n \<in> set (dvalues (get_resource_map now (se_resource_monitor e)))" "node_ok n"
    and "nr_node_id n = it_requesting_node_id t"
  shows "tp_target (place now t e) \<noteq> ''cloud''"
proof
  let ?rs = "get_resource_map now (se_resource_monitor e)"
  assume c: "tp_target (place now t e) = ''cloud''"
  obtain q where q: "latency_first t ?rs = Some q" "tp_score q = 9/10"
    using latency_first_local[OF assms(2-4)] by auto
  obtain q' where q': "latency_first t ?rs = Some q'" "tp_target q' \<noteq> ''cloud''"
    using latency_first_edge[OF assms(2,3), of t] by auto
  have "latency_first \<in> set (se_policies e)" using assms(1) by (simp add: default_policies_def)
  from place_best[OF this q(1)] q(2) obtain g where
    g: "g \<in> set (se_policies e)" "g t ?rs = Some (place now t e)" "9/10 \<le> tp_score (place now t e)"
    by auto
  consider "g = latency_first" | "g = cost_aware (cost_aware_new ep)" | "g = balanced (balanced_new sla)"
    using g(1) assms(1) by (auto simp: default_policies_def)
  then show False
  proof cases
    case 1 then show ?thesis using g(2) q' c by simp
  next
    case 2 then show ?thesis using cost_aware_cloud_score[of ep t ?rs] g c by auto
  next
    case 3 then show ?thesis using balanced_cloud_score[of sla t ?rs] g c by auto
  qed
qed

lemma default_sound:
  assumes "f \<in> set (default_policies ep sla)" "f t rs = Some p"
  shows "sound_placement node_ok t rs p"
  using assms latency_first.sound cost_aware.sound balanced.sound by (auto simp: default_policies_def)

lemma default_total: "f \<in> set (default_policies ep sla) \<Longrightarrow> f t rs \<noteq> None"
  by (auto simp: default_policies_def latency_first_def cost_aware_def balanced_def)

lemma place_default_sound:
  assumes "se_policies e = default_policies ep sla"
  shows "sound_placement node_ok t (get_resource_map now (se_resource_monitor e)) (place now t e)"
proof -
  let ?rs = "get_resource_map now (se_resource_monitor e)"
  have m: "latency_first \<in> set (se_policies e)" using assms by (simp add: default_policies_def)
  obtain q where q: "latency_first t ?rs = Some q" by (simp add: latency_first_def)
  from place_best[OF m q] latency_first.score_unit[OF q]
  obtain g where "g \<in> set (se_policies e)" "g t ?rs = Some (place now t e)" by auto
  then show ?thesis using default_sound assms by metis
qed

subsection \<open>The queue\<close>

definition submit_all :: "(nat \<Rightarrow> time) \<Rightarrow> nat \<Rightarrow> inference_task list \<Rightarrow> scheduler_engine \<Rightarrow> scheduler_engine" where
  "submit_all clock n ts e =
     fold (\<lambda>(i, t) e. fst (submit_task (clock i) t e)) (enumerate n ts) e"

lemma submit_queue [simp]: "se_task_queue (fst (submit_task now t e)) = se_task_queue e"
  by (simp add: submit_task_def Let_def)

lemma submit_policies [simp]: "se_policies (fst (submit_task now t e)) = se_policies e"
  by (simp add: submit_task_def Let_def)

lemma submit_monitor [simp]:
  "se_resource_monitor (fst (submit_task now t e)) = se_resource_monitor e"
  by (simp add: submit_task_def Let_def)

lemma submit_commute:
  "fst (submit_task now t (e\<lparr>se_task_queue := q\<rparr>)) = (fst (submit_task now t e))\<lparr>se_task_queue := q\<rparr>"
  by (simp add: submit_task_def Let_def place_def)

lemma submit_all_commute:
  "submit_all clock n ts (e\<lparr>se_task_queue := q\<rparr>) = (submit_all clock n ts e)\<lparr>se_task_queue := q\<rparr>"
  by (induction ts arbitrary: n e) (auto simp: submit_all_def submit_commute simp del: enumerate_Suc_eq)

lemma submit_all_Cons:
  "submit_all clock n (t # ts) e = submit_all clock (Suc n) ts (fst (submit_task (clock n) t e))"
  by (simp add: submit_all_def)

lemma drain_loop_eq:
  "se_task_queue e = ts \<Longrightarrow>
   drain_loop clock n e = ((submit_all clock n ts e)\<lparr>se_task_queue := []\<rparr>, n + length ts)"
proof (induction ts arbitrary: n e)
  case Nil
  then have "e\<lparr>se_task_queue := []\<rparr> = e" by simp
  with Nil show ?case by (simp add: drain_loop.simps[of _ _ e] submit_all_def)
next
  case (Cons t ts)
  have "drain_loop clock n e =
      drain_loop clock (n + 1) (fst (submit_task (clock n) t (e\<lparr>se_task_queue := ts\<rparr>)))"
    using Cons.prems by (simp add: drain_loop.simps[of _ _ e])
  also have "\<dots> = ((submit_all clock (n + 1) ts (fst (submit_task (clock n) t (e\<lparr>se_task_queue := ts\<rparr>))))
      \<lparr>se_task_queue := []\<rparr>, n + 1 + length ts)"
    by (rule Cons.IH) simp
  finally show ?case by (simp add: submit_all_Cons submit_commute submit_all_commute)
qed

lemma submit_all_result:
  assumes "distinct (map it_task_id ts)" "i < length ts"
  shows "get_result (it_task_id (ts ! i)) (submit_all clock n ts e) = Some (place (clock (n + i)) (ts ! i) e)"
  using assms
proof (induction ts arbitrary: n e i)
  case (Cons t ts)
  have pl: "place c u (fst (submit_task d v e)) = place c u e" for c d u v
    by (simp add: place_def submit_task_def Let_def)
  have other: "get_result k (submit_all clock m us e) = get_result k e"
    if "k \<notin> it_task_id ` set us" for k m us e
    using that
  proof (induction us arbitrary: m e)
    case (Cons u us)
    then show ?case by (simp add: submit_all_Cons) (simp add: get_result_def submit_task_def Let_def)
  qed (simp add: submit_all_def)
  show ?case
  proof (cases i)
    case 0
    then show ?thesis using Cons.prems other
      by (simp add: submit_all_Cons) (simp add: get_result_def submit_task_def Let_def)
  next
    case (Suc j)
    then show ?thesis using Cons.IH[of j "Suc n" "fst (submit_task (clock n) t e)"] Cons.prems pl
      by (simp add: submit_all_Cons)
  qed
qed simp

subsection \<open>Pagination\<close>

lemma sort_desc_sorted: "sorted_wrt (\<ge>) (map f (sort_desc f xs))"
proof -
  have "sorted_wrt (\<le>) (map f (sort_key f (rev xs)))" by (rule sorted_sort_key)
  then show ?thesis by (simp add: sort_desc_def rev_map[symmetric] sorted_wrt_rev)
qed

lemma sort_desc_mset [simp]: "length (sort_desc f xs) = length xs" "set (sort_desc f xs) = set xs"
  by (simp_all add: sort_desc_def)

end
