(* ===== verification/SchedulerMain.thy ===== *)
theory SchedulerMain imports Scheduler begin

section \<open>The scheduler process\<close>

text \<open>
  The process of \<open>scheduler/main.py\<close> as a step relation: the requests that change the engine or the monitor, and the turns of
  \<open>_scheduling_loop\<close>. No endpoint calls \<open>enqueue_task\<close> and no code feeds the adaptive scheduler.
\<close>

inductive scheduler_step :: "scheduler_engine \<Rightarrow> scheduler_engine \<Rightarrow> bool" where
  submitted: "submit_task_endpoint now task e = (e', answer) \<Longrightarrow> scheduler_step e e'"
| reported: "receive_resource_report now report (se_resource_monitor e) = (m, node_id) \<Longrightarrow>
    scheduler_step e (e\<lparr>se_resource_monitor := m\<rparr>)"
| drained: "drain_queue clock e = (e', processed) \<Longrightarrow> scheduler_step e e'"

inductive scheduler_run :: "scheduler_engine \<Rightarrow> scheduler_engine \<Rightarrow> bool" where
  no_step: "scheduler_run e e"
| one_more: "scheduler_run e e' \<Longrightarrow> scheduler_step e' e'' \<Longrightarrow> scheduler_run e e''"

text \<open>A stored placement is a sound one, and a node it names has reported.\<close>

definition recorded :: "resource_monitor \<Rightarrow> string \<Rightarrow> task_placement \<Rightarrow> bool" where
  "recorded m task_id p \<longleftrightarrow> tp_task_id p = task_id \<and> 0 \<le> tp_score p \<and> tp_score p \<le> 1 \<and>
     (tp_target p = ''cloud'' \<or> (\<exists>n. rm_get_node (tp_target_node_id p) m = Some n))"

definition process_ok :: "string \<Rightarrow> flt \<Rightarrow> scheduler_engine \<Rightarrow> bool" where
  "process_ok ep sla e \<longleftrightarrow> se_task_queue e = [] \<and> se_policies e = default_policies ep sla \<and> rm_ok (se_resource_monitor e) \<and>
     (\<forall>k p. get_result k e = Some p \<longrightarrow> recorded (se_resource_monitor e) k p)"

lemma drain_empty: "se_task_queue e = [] \<Longrightarrow> drain_queue clock e = (e, 0)"
  by (simp add: drain_queue_def drain_loop.simps)

lemma recorded_report: "recorded m k p \<Longrightarrow> recorded (rm_update now r m) k p"
  by (auto simp: recorded_def rm_get_update)

lemma place_recorded:
  assumes "process_ok ep sla e"
  shows "recorded (se_resource_monitor e) (it_task_id task) (place now task e)"
proof -
  let ?rs = "get_resource_map now (se_resource_monitor e)"
  have s: "sound_placement node_ok task ?rs (place now task e)"
    using place_default_sound assms by (simp add: process_ok_def)
  have known: "\<exists>m. rm_get_node (nr_node_id n) (se_resource_monitor e) = Some m" if n: "n \<in> set (dvalues ?rs)" for n
  proof -
    obtain k where k: "(k, n) \<in> set (rm_nodes (se_resource_monitor e))" using n by (auto simp: get_resource_map_def)
    then have "nr_node_id n = k" using assms by (auto simp: process_ok_def rm_ok_def dall_def)
    then show ?thesis using k weak_map_of_SomeI by (fastforce simp: rm_get_node_def)
  qed
  have "\<exists>m. rm_get_node (tp_target_node_id (place now task e)) (se_resource_monitor e) = Some m"
    if "tp_target (place now task e) \<noteq> ''cloud''"
    using s that known unfolding sound_placement_def by metis
  then show ?thesis using s by (auto simp: sound_placement_def recorded_def)
qed

lemma process_step: "scheduler_step e e' \<Longrightarrow> process_ok ep sla e \<Longrightarrow> process_ok ep sla e'"
proof (induction rule: scheduler_step.induct)
  case (submitted now task e e' answer)
  then have e': "e' = e\<lparr>se_results := dset (it_task_id task) (place now task e) (se_results e)\<rparr>"
    by (auto simp: submit_task_endpoint_def submit_task_def Let_def)
  show ?case using submitted.prems place_recorded[OF submitted.prems] by (auto simp: e' process_ok_def get_result_def)
next
  case (reported now report e m node_id)
  then show ?case
    by (auto simp: receive_resource_report_def process_ok_def rm_ok_update recorded_report get_result_def)
next
  case (drained clock e e' processed)
  then show ?case by (simp add: drain_empty process_ok_def)
qed

lemma process_run: "scheduler_run e e' \<Longrightarrow> process_ok ep sla e \<Longrightarrow> process_ok ep sla e'"
  by (induction rule: scheduler_run.induct) (auto intro: process_step)

lemma process_new: "process_ok ep sla (main_engine stale ep sla)"
  by (simp add: process_ok_def main_engine_def engine_new_def rm_ok_new get_result_def)

end
