(* ===== verification/SchedulerProps.thy ===== *)
theory SchedulerProps imports SchedulerMain begin

section \<open>Properties of the scheduler\<close>

text \<open>
  What the engine promises with the policies \<open>main.py\<close> registers, what the queue does, and the feedback
  loop of the adaptive policy. The contract of a single policy is the locale \<open>placement_policy\<close>.
\<close>

lemma in_resource_map:
  assumes "rm_ok m"
  shows "n \<in> set (dvalues (get_resource_map now m)) \<longleftrightarrow>
    rm_get_node (nr_node_id n) m = Some n \<and> now - nr_last_reported n \<le> rm_stale_threshold m"
proof -
  have ok: "distinct (dkeys (get_resource_map now m))" "dall (\<lambda>k n. nr_node_id n = k) (get_resource_map now m)"
    using resource_map_ok[OF assms] by auto
  have "n \<in> set (dvalues (get_resource_map now m)) \<longleftrightarrow> dget (get_resource_map now m) (nr_node_id n) = Some n"
    using dvalues_dget[OF ok(1), of n] dget_in_values[of "get_resource_map now m"] dall_get[OF ok(2)] by metis
  then show ?thesis by (auto simp: resource_map_get[OF assms] split: option.splits if_splits)
qed

subsection \<open>Placement\<close>

text \<open>C9. The engine always places a task, with a score in the unit interval that no registered policy
  exceeds. A placement at the edge names a node whose last report is not stale and whose CPU and memory
  usage are within the limits, and the endpoint is that node's address.\<close>

theorem placement_contract:
  assumes "se_policies e = default_policies ep sla" "rm_ok (se_resource_monitor e)"
    and "place now t e = p"
  shows "0 \<le> tp_score p \<and> tp_score p \<le> 1 \<and> tp_task_id p = it_task_id t \<and>
    (\<forall>f \<in> set (se_policies e). \<forall>q.
       f t (get_resource_map now (se_resource_monitor e)) = Some q \<longrightarrow> tp_score q \<le> tp_score p) \<and>
    (tp_target p = ''cloud'' \<or>
     (\<exists>n. rm_get_node (tp_target_node_id p) (se_resource_monitor e) = Some n \<and>
        now - nr_last_reported n \<le> rm_stale_threshold (se_resource_monitor e) \<and>
        nr_cpu_usage_percent n \<le> 85 \<and> nr_memory_usage_percent n \<le> 90 \<and>
        tp_target_endpoint p = nr_node_address n \<and>
        tp_target p = (if tp_target_node_id p = it_requesting_node_id t then ''edge_local'' else ''edge_remote'')))"
proof -
  let ?rs = "get_resource_map now (se_resource_monitor e)"
  have s: "sound_placement node_ok t ?rs p"
    using place_default_sound[OF assms(1), of t now] assms(3) by simp
  have "tp_score q \<le> tp_score p" if "f \<in> set (se_policies e)" "f t ?rs = Some q" for f q
    using place_best[OF that] default_sound[of f ep sla t ?rs q] that assms(1,3)
    by (auto simp: sound_placement_def)
  moreover have "tp_target p = ''cloud'' \<or> (\<exists>n. n \<in> set (dvalues ?rs) \<and> node_ok n \<and>
      tp_target p = edge_target t n \<and> tp_target_node_id p = nr_node_id n \<and> tp_target_endpoint p = nr_node_address n)"
    using s unfolding sound_placement_def by blast
  ultimately show ?thesis
    using s unfolding in_resource_map[OF assms(2)]
    by (auto simp: sound_placement_def node_ok_def edge_target_def
        is_local_def CPU_OVERLOAD_PERCENT_def MEMORY_OVERLOAD_PERCENT_def)
qed

definition node_b :: node_resources where
  "node_b = \<lparr>nr_node_id = ''b'', nr_node_address = ''h:1'', nr_cpu_usage_percent = 40,
     nr_memory_usage_percent = 50, nr_gpu_usage_percent = 0, nr_pending_tasks = 0,
     nr_avg_inference_latency_ms = 12, nr_loaded_models = [], nr_last_reported = 0\<rparr>"

definition task_of :: "string \<Rightarrow> string \<Rightarrow> inference_task" where
  "task_of i n = \<lparr>it_task_id = i, it_model_name = ''m'', it_model_version = '''', it_input_size_bytes = 100,
     it_priority = ''normal'', it_max_latency_ms = 100, it_requesting_node_id = n\<rparr>"

definition engine_b :: scheduler_engine where
  "engine_b = (main_engine 60 ''cloud:443'' 50)
     \<lparr>se_resource_monitor := rm_update 0 node_b (rm_new 60)\<rparr>"

lemma engine_b_simps:
  "se_policies engine_b = default_policies ''cloud:443'' 50" "rm_ok (se_resource_monitor engine_b)"
  by (simp_all add: engine_b_def main_engine_def engine_new_def rm_ok_update rm_ok_new)

theorem placement_contract_witness:
  "tp_score (place 10 (task_of ''t'' ''a'') engine_b) \<ge> 8/10 \<and>
   (tp_target (place 10 (task_of ''t'' ''a'') engine_b) = ''cloud'' \<or>
    tp_target_endpoint (place 10 (task_of ''t'' ''a'') engine_b) = ''h:1'')"
proof -
  note c = placement_contract[OF engine_b_simps refl, of 10 "task_of ''t'' ''a''"]
  have rs: "get_resource_map 10 (se_resource_monitor engine_b) = [(''b'', node_b)]"
    by (simp add: engine_b_def get_resource_map_def rm_update_def rm_new_def node_b_def)
  have "8/10 = tp_score (the (latency_first (task_of ''t'' ''a'') [(''b'', node_b)]))"
    by (simp add: latency_first_eq node_b_def node_ok_def CPU_OVERLOAD_PERCENT_def MEMORY_OVERLOAD_PERCENT_def
        pick_best_def task_of_def is_local_def to_edge_def Let_def)
  moreover have "latency_first \<in> set (se_policies engine_b)"
    by (simp add: engine_b_simps default_policies_def)
  moreover have "\<exists>q. latency_first (task_of ''t'' ''a'') [(''b'', node_b)] = Some q"
    by (simp add: latency_first_def)
  ultimately have "8/10 \<le> tp_score (place 10 (task_of ''t'' ''a'') engine_b)"
    using c rs by force
  moreover have "nr_node_address n = ''h:1''" if "rm_get_node k (se_resource_monitor engine_b) = Some n" for k n
    using that by (auto simp: engine_b_def rm_update_def rm_new_def rm_get_node_def node_b_def Let_def split: if_splits)
  ultimately show ?thesis using c by metis
qed

text \<open>A task whose requesting node has a fresh report below the limits is never sent to the cloud.\<close>

theorem healthy_requester_stays_at_edge:
  assumes "se_policies e = default_policies ep sla" "rm_ok (se_resource_monitor e)"
    and "rm_get_node (it_requesting_node_id t) (se_resource_monitor e) = Some n"
    and "now - nr_last_reported n \<le> rm_stale_threshold (se_resource_monitor e)"
    and "nr_cpu_usage_percent n \<le> 85" "nr_memory_usage_percent n \<le> 90"
  shows "tp_target (place now t e) \<in> {''edge_local'', ''edge_remote''}"
proof -
  have id: "nr_node_id n = it_requesting_node_id t"
    using assms(2,3) by (auto simp: rm_ok_def rm_get_node_def dest: dall_get)
  then have "n \<in> set (dvalues (get_resource_map now (se_resource_monitor e)))"
    unfolding in_resource_map[OF assms(2)] using assms(3,4) by simp
  then have "tp_target (place now t e) \<noteq> ''cloud''"
    using place_local_edge[OF assms(1) _ _ id] assms(5,6)
    by (simp add: node_ok_def CPU_OVERLOAD_PERCENT_def MEMORY_OVERLOAD_PERCENT_def)
  then show ?thesis
    using place_default_sound[OF assms(1), of t now]
    by (auto simp: sound_placement_def edge_target_def split: if_splits)
qed

theorem healthy_requester_stays_at_edge_witness:
  "tp_target (place 10 (task_of ''t'' ''b'') engine_b) \<in> {''edge_local'', ''edge_remote''}"
  by (rule healthy_requester_stays_at_edge[OF engine_b_simps, where n = "node_b\<lparr>nr_last_reported := 0\<rparr>"])
    (simp_all add: engine_b_def rm_get_node_def rm_new_def rm_update_def node_b_def task_of_def)

subsection \<open>The queue\<close>

text \<open>C28. Draining the queue ends, empties it, reports how many tasks it processed, and places every task
  in the order of the queue: the i-th task is placed at the i-th reading of the clock, and its result is
  what the lookup by its id returns.\<close>

theorem drain_places_every_task:
  assumes "distinct (map it_task_id (se_task_queue e))" "drain_queue clock e = (e', n)"
  shows "n = length (se_task_queue e) \<and> se_task_queue e' = [] \<and>
    (\<forall>i < length (se_task_queue e). get_result (it_task_id (se_task_queue e ! i)) e' =
       Some (place (clock i) (se_task_queue e ! i) e))"
proof -
  have "e' = (submit_all clock 0 (se_task_queue e) e)\<lparr>se_task_queue := []\<rparr>" "n = length (se_task_queue e)"
    using assms(2) drain_loop_eq[OF refl, of clock 0 e] by (simp_all add: drain_queue_def)
  then show ?thesis
    using submit_all_result[OF assms(1), of _ clock 0 e] by (simp add: get_result_def)
qed

theorem drain_places_every_task_witness:
  "snd (drain_queue (\<lambda>i. of_nat i) (enqueue_task (task_of ''u'' ''a'') (enqueue_task (task_of ''t'' ''b'') engine_b))) = 2 \<and>
   get_result ''u'' (fst (drain_queue (\<lambda>i. of_nat i)
     (enqueue_task (task_of ''u'' ''a'') (enqueue_task (task_of ''t'' ''b'') engine_b)))) \<noteq> None"
proof -
  let ?e = "enqueue_task (task_of ''u'' ''a'') (enqueue_task (task_of ''t'' ''b'') engine_b)"
  have q: "se_task_queue ?e = [task_of ''t'' ''b'', task_of ''u'' ''a'']"
    by (simp add: enqueue_task_def engine_b_def main_engine_def engine_new_def)
  obtain e' n where d: "drain_queue (\<lambda>i. of_nat i) ?e = (e', n)" by fastforce
  have "n = 2 \<and> get_result ''u'' e' \<noteq> None"
    using drain_places_every_task[OF _ d] unfolding q by (auto simp: task_of_def)
  then show ?thesis using d by simp
qed

subsection \<open>The adaptive policy\<close>

lemma record_all_between:
  "\<forall>x \<in> set xs. l \<le> x \<and> x \<le> u \<Longrightarrow> l \<le> as_ema_latency a \<and> as_ema_latency a \<le> u \<Longrightarrow>
   l \<le> as_ema_latency (record_all xs a) \<and> as_ema_latency (record_all xs a) \<le> u"
proof (induction xs arbitrary: a)
  case (Cons x xs)
  have "l \<le> as_ema_latency (fst (record_latency x a)) \<and> as_ema_latency (fst (record_latency x a)) \<le> u"
    using Cons.prems by (intro ema_between) auto
  then show ?case using Cons.IH Cons.prems(1) by (simp add: record_all_def)
qed (simp add: record_all_def)

text \<open>The feedback loop stays in its bounds: after any observations the CPU threshold is between 60
  and 90 and the history within its window, and the moving average is between the least and the greatest
  of the (positive) latencies observed.\<close>

theorem feedback_bounded:
  assumes "xs \<noteq> []" "\<forall>x \<in> set xs. l \<le> x \<and> x \<le> u" "a = record_all xs (adaptive_new sla ep w)"
  shows "60 \<le> as_dynamic_cpu_threshold a \<and> as_dynamic_cpu_threshold a \<le> 90 \<and>
    length (as_latency_observations a) \<le> w \<and> l \<le> as_ema_latency a \<and> as_ema_latency a \<le> u"
proof -
  have w: "as_window_size (record_all xs b) = as_window_size b" for b
    by (induction xs arbitrary: b) (simp_all add: record_all_def record_latency_def adjust_thresholds_def Let_def)
  obtain x ys where xs: "xs = x # ys" using assms(1) by (cases xs) auto
  have "as_ema_latency (fst (record_latency x (adaptive_new sla ep w))) = x"
    by (simp add: record_ema adaptive_new_def)
  then have "l \<le> as_ema_latency a \<and> as_ema_latency a \<le> u"
    using record_all_between[of ys l u "fst (record_latency x (adaptive_new sla ep w))"] assms(2,3) xs
    by (simp add: record_all_def)
  then show ?thesis
    using record_all_ok[OF threshold_ok_new, of xs sla ep w] assms(3) w[of "adaptive_new sla ep w"]
    by (simp add: threshold_ok_def adaptive_new_def)
qed

theorem feedback_bounded_witness:
  "as_ema_latency (record_all [40, 70] (adaptive_new 50 ''c'' 20)) \<in> {40..70}"
  using feedback_bounded[of "[40, 70]" 40 70 "record_all [40, 70] (adaptive_new 50 ''c'' 20)"] by simp

lemma record_high:
  assumes "0 < sla" "9/10 * sla < x" "as_edge_latency_sla_ms a = sla"
    and "as_ema_latency a = 0 \<or> 9/10 * sla < as_ema_latency a"
  shows "9/10 * sla < as_ema_latency (fst (record_latency x a)) \<and>
    as_dynamic_cpu_threshold (fst (record_latency x a)) = max 60 (as_dynamic_cpu_threshold a - 2)"
proof -
  define b where "b = (let a = a\<lparr>as_latency_observations := deque_append (as_window_size a) x (as_latency_observations a)\<rparr>
    in if as_ema_latency a = 0 then a\<lparr>as_ema_latency := x\<rparr>
       else a\<lparr>as_ema_latency := EMA_ALPHA * x + (1 - EMA_ALPHA) * as_ema_latency a\<rparr>)"
  have r: "record_latency x a = adjust_thresholds b" by (simp add: record_latency_def b_def Let_def)
  have b: "as_edge_latency_sla_ms b = sla" "as_dynamic_cpu_threshold b = as_dynamic_cpu_threshold a"
    using assms(3) by (simp_all add: b_def Let_def)
  have e: "9/10 * sla < as_ema_latency b"
    using assms by (auto simp: b_def Let_def EMA_ALPHA_def)
  then have "9/10 < as_ema_latency b / sla" using assms(1) by (simp add: pos_less_divide_eq)
  moreover have "0 < as_ema_latency b" using e assms(1) by simp
  ultimately show ?thesis using e b assms(1) by (simp add: r adjust_thresholds_def Let_def)
qed

text \<open>C29. Under sustained load the loop reacts: as long as every observed latency is above nine tenths of
  the SLA, each observation lowers the CPU threshold by two points, down to 60; ten of them reach it.\<close>

theorem feedback_sheds_load:
  assumes "0 < sla" "\<forall>x \<in> set xs. 9/10 * sla < x"
  shows "as_dynamic_cpu_threshold (record_all xs (adaptive_new sla ep w)) = max 60 (80 - 2 * of_nat (length xs))"
proof -
  have "as_dynamic_cpu_threshold (record_all xs a) = max 60 (as_dynamic_cpu_threshold a - 2 * of_nat (length xs))"
    if "as_edge_latency_sla_ms a = sla" "as_ema_latency a = 0 \<or> 9/10 * sla < as_ema_latency a"
      "60 \<le> as_dynamic_cpu_threshold a" for a
    using assms(2) that
  proof (induction xs arbitrary: a)
    case (Cons x xs)
    note h = record_high[OF assms(1) _ Cons.prems(2,3), of x]
    show ?case using Cons.IH[of "fst (record_latency x a)"] Cons.prems h
      by (auto simp: record_all_def max_def algebra_simps)
  qed (simp add: record_all_def)
  then show ?thesis by (simp add: adaptive_new_def CPU_OVERLOAD_THRESHOLD_def)
qed

theorem feedback_sheds_load_witness:
  "as_dynamic_cpu_threshold (record_all (replicate 10 60) (adaptive_new 50 ''c'' 20)) = 60"
  by (subst feedback_sheds_load) simp_all




end
