(* ===== verification/Gateway.thy ===== *)
theory Gateway imports Telemetry begin

section \<open>API gateway\<close>

text \<open>
  The \<open>middleware\<close> service: the five layers in \<open>middleware_layers/\<close> in the order of \<open>main.py\<close>,
  \<open>auth_service.py\<close> with the endpoints of \<open>routers/auth.py\<close>, the tokens of \<open>shared/auth/jwt_handler.py\<close>
  and the reverse proxy \<open>routers/proxy.py\<close>. Redis, PyJWT, SHA-256, the random generators and the
  upstream services are arguments. Header names of a request are in lower case, as the framework
  delivers them.
\<close>

datatype exn = ValueErr | KeyErr | PermissionErr | FileNotFoundErr | NotImplementedErr | TimeoutErr
  | RequestValidationErr | OtherErr

record gw_user =
  us_sub :: json
  us_role :: json
  us_auth_method :: string

record request =
  rq_method :: string
  rq_path :: string
  rq_query :: string
  rq_headers :: "(string, string) dict"
  rq_client :: "string option"
  rq_body :: string
  rq_user :: "gw_user option"
  rq_correlation_id :: "string option"

datatype body = Text string | Detail string | ErrorBody nat "string option"

record response =
  rp_status :: nat
  rp_headers :: "(string, string) dict"
  rp_body :: body

type_synonym 'w handler = "request \<Rightarrow> ('w, exn, response) action"

definition json_response :: "nat \<Rightarrow> body \<Rightarrow> response" where
  "json_response code b = \<lparr>rp_status = code, rp_headers = [], rp_body = b\<rparr>"

definition starts_with :: "string \<Rightarrow> string \<Rightarrow> bool" where
  "starts_with p s \<longleftrightarrow> take (length p) s = p"

record 'k gw_server =
  gs_incr :: "string \<Rightarrow> ('k, redis_error, int) action"
  gs_expire :: "string \<Rightarrow> int \<Rightarrow> ('k, redis_error, unit) action"
  gs_get :: "string \<Rightarrow> ('k, redis_error, string option) action"
  gs_set :: "string \<Rightarrow> string \<Rightarrow> ('k, redis_error, unit) action"
  gs_delete :: "string list \<Rightarrow> ('k, redis_error, int) action"

record gw_settings =
  st_rate_limit_requests :: int
  st_rate_limit_window :: int
  st_jwt_expiration_minutes :: int
  st_jwt_refresh_minutes :: int

subsection \<open>Error handler and correlation id\<close>

definition exception_status :: "exn \<Rightarrow> nat" where
  "exception_status e = (case e of
     RequestValidationErr \<Rightarrow> 422 | ValueErr \<Rightarrow> 400 | KeyErr \<Rightarrow> 400 | PermissionErr \<Rightarrow> 403
   | FileNotFoundErr \<Rightarrow> 404 | NotImplementedErr \<Rightarrow> 501 | TimeoutErr \<Rightarrow> 504 | OtherErr \<Rightarrow> 500)"

text \<open>
  The id in the body is what the inner layer stored on the request: \<open>cid\<close> is that layer's choice.
\<close>

definition choose_correlation_id :: "(nat \<Rightarrow> uuid) \<Rightarrow> nat \<Rightarrow> request \<Rightarrow> string" where
  "choose_correlation_id uuid4 n rq =
     (case dget (rq_headers rq) ''x-correlation-id'' of
        Some (x # xs) \<Rightarrow> x # xs | _ \<Rightarrow> uuid4 n)"

definition error_handler :: "(request \<Rightarrow> string option) \<Rightarrow> 'w handler \<Rightarrow> request \<Rightarrow> 'w \<Rightarrow> 'w \<times> response" where
  "error_handler cid call_next rq w =
     (case call_next rq w of
        (w, Inr r) \<Rightarrow> (w, r)
      | (w, Inl e) \<Rightarrow> (w, json_response (exception_status e) (ErrorBody (exception_status e) (cid rq))))"

definition correlation_id :: "(nat \<Rightarrow> uuid) \<Rightarrow> nat \<Rightarrow> 'w handler \<Rightarrow> 'w handler" where
  "correlation_id uuid4 n call_next rq w =
     (let c = choose_correlation_id uuid4 n rq in
      case call_next (rq\<lparr>rq_correlation_id := Some c\<rparr>) w of
        (w, Inl e) \<Rightarrow> raise e w
      | (w, Inr r) \<Rightarrow> ret (r\<lparr>rp_headers := dset ''X-Correlation-ID'' c (rp_headers r)\<rparr>) w)"

subsection \<open>Request logger\<close>

fun split_slash :: "string \<Rightarrow> string list" where
  "split_slash [] = [[]]"
| "split_slash (y # ys) =
     (if y = CHR ''/'' then [] # split_slash ys
      else case split_slash ys of z # zs \<Rightarrow> (y # z) # zs | [] \<Rightarrow> [[y]])"

definition strip_slash :: "string \<Rightarrow> string" where
  "strip_slash s = rev (dropWhile ((=) (CHR ''/'')) (rev (dropWhile ((=) (CHR ''/'')) s)))"

definition is_digit :: "char \<Rightarrow> bool" where
  "is_digit c \<longleftrightarrow> digit_val c \<noteq> None"

text \<open>Only the ASCII digits count as digits here.\<close>

definition normalise_segment :: "string \<Rightarrow> string" where
  "normalise_segment part =
     (if length part > 20 \<or> (list_ex is_digit part \<and> list_ex ((=) (CHR ''-'')) part)
      then '':id'' else part)"

fun join_slash :: "string list \<Rightarrow> string" where
  "join_slash [] = []"
| "join_slash [p] = p"
| "join_slash (p # ps) = p @ ''/'' @ join_slash ps"

definition normalise_path :: "string \<Rightarrow> string" where
  "normalise_path path = ''/'' @ join_slash (map normalise_segment (split_slash (strip_slash path)))"

subsection \<open>Authentication\<close>

definition EXCLUDED_PATHS :: "string list" where
  "EXCLUDED_PATHS = [''/health'', ''/ready'', ''/health/dependencies'', ''/auth/login'', ''/docs'',
     ''/redoc'', ''/openapi.json'']"

definition EXCLUDED_PREFIXES :: "string list" where
  "EXCLUDED_PREFIXES = [''/health'', ''/docs'']"

definition auth_excluded :: "string \<Rightarrow> bool" where
  "auth_excluded path \<longleftrightarrow> path \<in> set EXCLUDED_PATHS \<or> list_ex (\<lambda>p. starts_with p path) EXCLUDED_PREFIXES"

definition unauthorized :: "string \<Rightarrow> response" where
  "unauthorized d = json_response 401 (Detail d)"

text \<open>\<open>decode_token\<close> with the settings' secret and algorithm; None for a \<open>JWTError\<close>.\<close>

type_synonym jwt_decode = "string \<Rightarrow> json_object option"

definition validate_jwt :: "jwt_decode \<Rightarrow> string \<Rightarrow> gw_user option" where
  "validate_jwt decode token =
     map_option (\<lambda>payload. \<lparr>us_sub = dget_or payload ''sub'' JNull,
       us_role = dget_or payload ''role'' (JStr ''user''), us_auth_method = ''jwt''\<rparr>) (decode token)"

definition API_KEY_PREFIX :: string where "API_KEY_PREFIX = ''apikey:''"
definition API_KEY_INDEX_PREFIX :: string where "API_KEY_INDEX_PREFIX = ''apikey_id:''"

definition validate_api_key :: "codec \<Rightarrow> 'k gw_server \<Rightarrow> string \<Rightarrow> 'k \<Rightarrow> 'k \<times> gw_user option" where
  "validate_api_key c S api_key k =
     (case gs_get S (API_KEY_PREFIX @ api_key) k of
        (k, Inl _) \<Rightarrow> (k, None)
      | (k, Inr None) \<Rightarrow> (k, None)
      | (k, Inr (Some data)) \<Rightarrow>
          (k, map_option (\<lambda>meta. \<lparr>us_sub = dget_or meta ''name'' (JStr ''api-key-user''),
                us_role = dget_or meta ''role'' (JStr ''device''), us_auth_method = ''api_key''\<rparr>)
              (Option.bind (cd_loads c data) json_dict)))"

definition authentication :: "codec \<Rightarrow> jwt_decode \<Rightarrow> 'k gw_server \<Rightarrow> 'k handler \<Rightarrow> 'k handler" where
  "authentication c decode S call_next rq k =
     (if auth_excluded (rq_path rq) then call_next rq k
      else case dget (rq_headers rq) ''authorization'' of
        None \<Rightarrow> ret (unauthorized ''Missing Authorization header'') k
      | Some [] \<Rightarrow> ret (unauthorized ''Missing Authorization header'') k
      | Some auth_header \<Rightarrow>
          if starts_with ''Bearer '' auth_header then
            (case validate_jwt decode (drop 7 auth_header) of
               None \<Rightarrow> ret (unauthorized ''Invalid or expired JWT token'') k
             | Some user \<Rightarrow> call_next (rq\<lparr>rq_user := Some user\<rparr>) k)
          else if starts_with ''ApiKey '' auth_header then
            (case validate_api_key c S (drop 7 auth_header) k of
               (k, None) \<Rightarrow> ret (unauthorized ''Invalid API key'') k
             | (k, Some user) \<Rightarrow> call_next (rq\<lparr>rq_user := Some user\<rparr>) k)
          else ret (unauthorized (''Authorization header must start with '' @ [CHR 0x27] @ ''Bearer'' @
                 [CHR 0x27] @ '' or '' @ [CHR 0x27] @ ''ApiKey'' @ [CHR 0x27])) k)"

subsection \<open>Rate limiter\<close>

definition RATE_LIMIT_EXCLUDED :: "string list" where
  "RATE_LIMIT_EXCLUDED = [''/health'', ''/ready'', ''/health/dependencies'']"

text \<open>A role that is an array or an object cannot be a key of a dict: the lookup raises.\<close>

definition role_multiplier :: "json \<Rightarrow> flt option" where
  "role_multiplier role = (case role of
     JStr s \<Rightarrow> Some (if s = ''admin'' then 5 else if s = ''user'' then 1 else if s = ''device'' then 2 else 1)
   | JArr _ \<Rightarrow> None | JObj _ \<Rightarrow> None | _ \<Rightarrow> Some 1)"

text \<open>\<open>int(x)\<close> of a float truncates towards zero.\<close>

definition py_trunc :: "flt \<Rightarrow> int" where
  "py_trunc x = (if x \<ge> 0 then \<lfloor>x\<rfloor> else \<lceil>x\<rceil>)"

text \<open>The subject is interpolated into the id; \<open>fmt\<close> renders one that is not a string.\<close>

definition client_id :: "(json \<Rightarrow> string) \<Rightarrow> request \<Rightarrow> string" where
  "client_id fmt rq =
     (case rq_user rq of
        Some user \<Rightarrow>
          if \<not> falsy (Some (us_sub user))
          then ''user:'' @ (case us_sub user of JStr s \<Rightarrow> s | j \<Rightarrow> fmt j)
          else (case rq_client rq of Some h \<Rightarrow> ''ip:'' @ h | None \<Rightarrow> ''ip:unknown'')
      | None \<Rightarrow> (case rq_client rq of Some h \<Rightarrow> ''ip:'' @ h | None \<Rightarrow> ''ip:unknown''))"

definition client_role :: "request \<Rightarrow> json" where
  "client_role rq = (case rq_user rq of Some user \<Rightarrow> us_role user | None \<Rightarrow> JStr ''user'')"

definition int_str :: "int \<Rightarrow> string" where
  "int_str i = (if i < 0 then ''-'' @ nat_str (nat (- i)) else nat_str (nat i))"

definition rate_key :: "string \<Rightarrow> int \<Rightarrow> string" where
  "rate_key cid window = ''ratelimit:'' @ cid @ '':'' @ int_str window"

definition rate_limit_headers :: "int \<Rightarrow> int \<Rightarrow> int \<Rightarrow> response \<Rightarrow> response" where
  "rate_limit_headers lmt remaining reset r =
     r\<lparr>rp_headers := dset ''X-RateLimit-Reset'' (int_str reset)
        (dset ''X-RateLimit-Remaining'' (int_str remaining)
          (dset ''X-RateLimit-Limit'' (int_str lmt) (rp_headers r)))\<rparr>"

text \<open>
  \<open>now\<close> is \<open>int(time.time())\<close>. The call of the inner layers stands inside the \<open>try\<close>: whatever raises
  there, they are called again.
\<close>

definition rate_limiter :: "(json \<Rightarrow> string) \<Rightarrow> gw_settings \<Rightarrow> 'k gw_server \<Rightarrow> int \<Rightarrow> 'k handler \<Rightarrow> 'k handler" where
  "rate_limiter fmt cfg S now call_next rq k =
     (if rq_path rq \<in> set RATE_LIMIT_EXCLUDED then call_next rq k
      else case role_multiplier (client_role rq) of
        None \<Rightarrow> raise OtherErr k
      | Some multiplier \<Rightarrow>
          let cid = client_id fmt rq;
              effective_limit = py_trunc (of_int (st_rate_limit_requests cfg) * multiplier);
              window = st_rate_limit_window cfg;
              current_window = now div window;
              key = rate_key cid current_window
          in case gs_incr S key k of
               (k, Inl _) \<Rightarrow> call_next rq k
             | (k, Inr current_count) \<Rightarrow>
                 (case (if current_count = 1 then gs_expire S key (window + 1) k else ret () k) of
                    (k, Inl _) \<Rightarrow> call_next rq k
                  | (k, Inr _) \<Rightarrow>
                      if current_count > effective_limit then
                        let window_start = current_window * window;
                            retry_after = max (window_start + window - now) 1
                        in ret (rate_limit_headers effective_limit 0 (window_start + window)
                             (json_response 429 (Detail ''Rate limit exceeded'')
                               \<lparr>rp_headers := [(''Retry-After'', int_str retry_after)]\<rparr>)) k
                      else case call_next rq k of
                        (k, Inl _) \<Rightarrow> call_next rq k
                      | (k, Inr r) \<Rightarrow>
                          ret (rate_limit_headers effective_limit (max (effective_limit - current_count) 0)
                                (current_window * window + window) r) k))"

text \<open>Requests served one after the other; the statuses of the responses, 500 for an exception.\<close>

fun serve :: "'k handler \<Rightarrow> request list \<Rightarrow> 'k \<Rightarrow> 'k \<times> nat list" where
  "serve h [] k = (k, [])"
| "serve h (rq # rqs) k =
     (case h rq k of (k, r) \<Rightarrow> (case serve h rqs k of (k, ss) \<Rightarrow>
        (k, (case r of Inl _ \<Rightarrow> 500 | Inr r \<Rightarrow> rp_status r) # ss)))"

subsection \<open>The stack\<close>

text \<open>
  The order of \<open>main.py\<close>: the layer added last is the outermost. The request logger only counts and
  logs, and hands request and response through.
\<close>

definition gateway :: "codec \<Rightarrow> (json \<Rightarrow> string) \<Rightarrow> jwt_decode \<Rightarrow> gw_settings \<Rightarrow> 'k gw_server \<Rightarrow> (nat \<Rightarrow> uuid) \<Rightarrow>
    nat \<Rightarrow> int \<Rightarrow> 'k handler \<Rightarrow> request \<Rightarrow> 'k \<Rightarrow> 'k \<times> response" where
  "gateway c fmt decode cfg S uuid4 n now routes =
     error_handler (\<lambda>rq. Some (choose_correlation_id uuid4 n rq))
       (correlation_id uuid4 n (authentication c decode S (rate_limiter fmt cfg S now routes)))"

subsection \<open>Tokens and users\<close>

text \<open>\<open>jwt.encode\<close> is an argument; \<open>create_token\<close> adds the two time claims.\<close>

definition create_token :: "(json_object \<Rightarrow> string) \<Rightarrow> int \<Rightarrow> json_object \<Rightarrow> int \<Rightarrow> string" where
  "create_token encode now payload expires_minutes =
     encode (dset ''exp'' (JInt (now + 60 * expires_minutes)) (dset ''iat'' (JInt now) payload))"

definition token_payload :: "string \<Rightarrow> string \<Rightarrow> string \<Rightarrow> json_object" where
  "token_payload sub role kind = [(''sub'', JStr sub), (''role'', JStr role), (''type'', JStr kind)]"

definition create_access_token :: "(json_object \<Rightarrow> string) \<Rightarrow> gw_settings \<Rightarrow> int \<Rightarrow> string \<times> string \<Rightarrow> string" where
  "create_access_token encode cfg now = (\<lambda>(sub, role).
     create_token encode now (token_payload sub role ''access'') (st_jwt_expiration_minutes cfg))"

definition create_refresh_token :: "(json_object \<Rightarrow> string) \<Rightarrow> gw_settings \<Rightarrow> int \<Rightarrow> string \<times> string \<Rightarrow> string" where
  "create_refresh_token encode cfg now = (\<lambda>(sub, role).
     create_token encode now (token_payload sub role ''refresh'') (st_jwt_refresh_minutes cfg))"

definition DEV_USERS :: "(string \<Rightarrow> string) \<Rightarrow> (string, string \<times> string) dict" where
  "DEV_USERS sha256 = [(''admin'', sha256 ''admin'', ''admin''), (''operator'', sha256 ''operator'', ''user''),
     (''device-service'', sha256 ''device-service'', ''device'')]"

definition authenticate_user :: "(string \<Rightarrow> string) \<Rightarrow> string \<Rightarrow> string \<Rightarrow> (string \<times> string) option" where
  "authenticate_user sha256 username password =
     (case dget (DEV_USERS sha256) username of
        None \<Rightarrow> None
      | Some (password_hash, role) \<Rightarrow>
          if sha256 password = password_hash then Some (username, role) else None)"

definition login :: "(string \<Rightarrow> string) \<Rightarrow> (json_object \<Rightarrow> string) \<Rightarrow> gw_settings \<Rightarrow> int \<Rightarrow> string \<Rightarrow> string \<Rightarrow>
    http_error + string \<times> string" where
  "login sha256 encode cfg now username password =
     (case authenticate_user sha256 username password of
        None \<Rightarrow> Inl (HTTPError 401)
      | Some user \<Rightarrow> Inr (create_access_token encode cfg now user, create_refresh_token encode cfg now user))"

text \<open>A missing subject is a \<open>KeyError\<close>, which the outer layer answers with 400.\<close>

definition refresh_token :: "jwt_decode \<Rightarrow> (json_object \<Rightarrow> string) \<Rightarrow> gw_settings \<Rightarrow> int \<Rightarrow> string \<Rightarrow>
    http_error + string" where
  "refresh_token decode encode cfg now token =
     (case decode token of
        None \<Rightarrow> Inl (HTTPError 401)
      | Some payload \<Rightarrow>
          if dget payload ''type'' \<noteq> Some (JStr ''refresh'') then Inl (HTTPError 401)
          else case dget payload ''sub'' of
            None \<Rightarrow> Inl (HTTPError 400)
          | Some sub \<Rightarrow>
              Inr (create_token encode now
                [(''sub'', sub), (''role'', dget_or payload ''role'' (JStr ''user'')), (''type'', JStr ''access'')]
                (st_jwt_expiration_minutes cfg)))"

subsection \<open>API keys\<close>

definition require_admin :: "request \<Rightarrow> bool" where
  "require_admin rq = (case rq_user rq of None \<Rightarrow> False | Some user \<Rightarrow> us_role user = JStr ''admin'')"

definition create_api_key :: "(json \<Rightarrow> string) \<Rightarrow> 'k gw_server \<Rightarrow> string \<Rightarrow> string \<Rightarrow> string \<Rightarrow> string \<Rightarrow>
    ('k, redis_error, string) action" where
  "create_api_key dumps S key_id raw_key name role =
     ebind (gs_set S (API_KEY_PREFIX @ raw_key)
              (dumps (JObj [(''key_id'', JStr key_id), (''name'', JStr name), (''role'', JStr role)])))
       (\<lambda>_. ebind (gs_set S (API_KEY_INDEX_PREFIX @ key_id) raw_key) (\<lambda>_. ret raw_key))"

definition verify_api_key :: "codec \<Rightarrow> 'k gw_server \<Rightarrow> string \<Rightarrow> ('k, redis_error, json option) action" where
  "verify_api_key c S api_key =
     ebind (gs_get S (API_KEY_PREFIX @ api_key))
       (\<lambda>data. ret (Option.bind data (cd_loads c)))"

definition revoke_api_key :: "'k gw_server \<Rightarrow> string \<Rightarrow> ('k, redis_error, bool) action" where
  "revoke_api_key S key_id =
     ebind (gs_get S (API_KEY_INDEX_PREFIX @ key_id))
       (\<lambda>found. case found of
          None \<Rightarrow> ret False
        | Some raw_key \<Rightarrow>
            ebind (gs_delete S [API_KEY_PREFIX @ raw_key, API_KEY_INDEX_PREFIX @ key_id]) (\<lambda>_. ret True))"

definition revoke_endpoint :: "'k gw_server \<Rightarrow> request \<Rightarrow> string \<Rightarrow> 'k \<Rightarrow> 'k \<times> nat" where
  "revoke_endpoint S rq key_id k =
     (if \<not> require_admin rq then (k, 403)
      else case revoke_api_key S key_id k of
        (k, Inl _) \<Rightarrow> (k, 500) | (k, Inr False) \<Rightarrow> (k, 404) | (k, Inr True) \<Rightarrow> (k, 200))"

subsection \<open>Reverse proxy\<close>

definition HOP_BY_HOP_HEADERS :: "string list" where
  "HOP_BY_HOP_HEADERS = [''host'', ''connection'', ''keep-alive'', ''proxy-authenticate'',
     ''proxy-authorization'', ''te'', ''trailers'', ''transfer-encoding'', ''upgrade'']"

definition excluded_response_headers :: "string list" where
  "excluded_response_headers = [''content-encoding'', ''content-length'', ''transfer-encoding'']"

record upstream_request =
  up_method :: string
  up_url :: string
  up_headers :: "(string, string) dict"
  up_content :: "string option"

definition proxy_url :: "request \<Rightarrow> string \<Rightarrow> string \<Rightarrow> string" where
  "proxy_url rq base path =
     (let url = base @ ''/api/v1/'' @ path
      in if rq_query rq \<noteq> [] then url @ ''?'' @ rq_query rq else url)"

definition proxy_headers :: "request \<Rightarrow> (string, string) dict" where
  "proxy_headers rq =
     (let headers = [(k, v) \<leftarrow> rq_headers rq. k \<notin> set HOP_BY_HOP_HEADERS];
          headers = (case rq_correlation_id rq of
                       Some (x # xs) \<Rightarrow> dset ''X-Correlation-ID'' (x # xs) headers | _ \<Rightarrow> headers);
          client_host = (case rq_client rq of Some h \<Rightarrow> h | None \<Rightarrow> ''unknown'');
          existing_forwarded = dget_or headers ''X-Forwarded-For'' ''''
      in dset ''X-Forwarded-For''
           (if existing_forwarded \<noteq> [] then existing_forwarded @ '', '' @ client_host else client_host)
           headers)"

text \<open>The upstream's answer is handed back but for three headers.\<close>

definition proxy :: "(upstream_request \<Rightarrow> ('k, exn, response) action) \<Rightarrow> string \<Rightarrow> string \<Rightarrow> 'k handler" where
  "proxy send base path rq k =
     (case send \<lparr>up_method = rq_method rq, up_url = proxy_url rq base path, up_headers = proxy_headers rq,
             up_content = (if rq_body rq = [] then None else Some (rq_body rq))\<rparr> k of
        (k, Inl e) \<Rightarrow> raise e k
      | (k, Inr r) \<Rightarrow>
          ret (r\<lparr>rp_headers := [(h, v) \<leftarrow> rp_headers r. h \<notin> set excluded_response_headers]\<rparr>) k)"

definition proxy_devices :: "(upstream_request \<Rightarrow> ('k, exn, response) action) \<Rightarrow> string \<Rightarrow> string \<Rightarrow> 'k handler" where
  "proxy_devices send base path = proxy send base (''devices/'' @ path)"

definition proxy_telemetry :: "(upstream_request \<Rightarrow> ('k, exn, response) action) \<Rightarrow> string \<Rightarrow> string \<Rightarrow> 'k handler" where
  "proxy_telemetry send base path = proxy send base (''telemetry/'' @ path)"

definition proxy_inference :: "(upstream_request \<Rightarrow> ('k, exn, response) action) \<Rightarrow> string \<Rightarrow> string \<Rightarrow> 'k handler" where
  "proxy_inference send base path = proxy send base (''inference/'' @ path)"

definition proxy_scheduler :: "(upstream_request \<Rightarrow> ('k, exn, response) action) \<Rightarrow> string \<Rightarrow> string \<Rightarrow> 'k handler" where
  "proxy_scheduler send base path = proxy send base (''scheduler/'' @ path)"

subsection \<open>The server's commands\<close>

text \<open>
  The documented behaviour of INCR, EXPIRE, GET, SET and DEL the gateway relies on. \<open>kv\<close> is the value of
  a key and \<open>cnt\<close> the number INCR last returned for it (zero for a free key).
\<close>

locale gw_laws =
  fixes S :: "'k gw_server" and kv :: "'k \<Rightarrow> string \<Rightarrow> string option" and cnt :: "'k \<Rightarrow> string \<Rightarrow> int"
  assumes incr: "gs_incr S key k = (k', Inr n) \<Longrightarrow> n = cnt k key + 1 \<and> cnt k' = (cnt k)(key := n)"
    and expire: "gs_expire S key w k = (k', q) \<Longrightarrow> cnt k' = cnt k"
    and get: "gs_get S key k = (k', Inr v) \<Longrightarrow> v = kv k key \<and> kv k' = kv k"
    and set: "gs_set S key val k = (k', Inr u) \<Longrightarrow> kv k' = (kv k)(key := Some val)"
    and delete: "gs_delete S keys k = (k', Inr d) \<Longrightarrow>
      kv k' = (\<lambda>key. if key \<in> List.set keys then None else kv k key)"
begin

lemma set_twice:
  assumes "ebind (gs_set S a v) (\<lambda>_. ebind (gs_set S b w) (\<lambda>_. ret x)) k = (k', Inr r)"
  shows "r = x \<and> kv k' = (kv k)(a := Some v, b := Some w)"
proof -
  obtain k1 q where q: "gs_set S a v k = (k1, q)" by fastforce
  obtain k2 p where p: "gs_set S b w k1 = (k2, p)" by fastforce
  obtain u where u: "q = Inr u" using assms q by (cases q) (simp_all add: ebind_def)
  obtain u' where u': "p = Inr u'" using assms q u p by (cases p) (simp_all add: ebind_def)
  have "r = x" "k' = k2" using assms q p u u' by (simp_all add: ebind_def)
  then show ?thesis using set[OF q[unfolded u]] set[OF p[unfolded u']] by simp
qed

lemma created_key:
  assumes "create_api_key dumps S key_id raw_key name role k = (k', Inr r)"
  shows "r = raw_key \<and> kv k' = (kv k)(API_KEY_PREFIX @ raw_key :=
      Some (dumps (JObj [(''key_id'', JStr key_id), (''name'', JStr name), (''role'', JStr role)])),
    API_KEY_INDEX_PREFIX @ key_id := Some raw_key)"
  using assms unfolding create_api_key_def by (rule set_twice)

lemma key_lookup:
  assumes "kv k (API_KEY_PREFIX @ key) = Some data" "cd_loads c data = Some (JObj meta)"
    and "validate_api_key c S key k = (k', r)" "\<not> (\<exists>e. snd (gs_get S (API_KEY_PREFIX @ key) k) = Inl e)"
  shows "r = Some \<lparr>us_sub = dget_or meta ''name'' (JStr ''api-key-user''),
      us_role = dget_or meta ''role'' (JStr ''device''), us_auth_method = ''api_key''\<rparr>"
proof -
  obtain k1 q where q: "gs_get S (API_KEY_PREFIX @ key) k = (k1, q)" by fastforce
  then obtain v where "q = Inr v" using assms(4) by (cases q) auto
  then show ?thesis using get[of "API_KEY_PREFIX @ key" k k1 v] q assms(1-3)
    by (auto simp: validate_api_key_def json_dict_Some)
qed

lemma no_key:
  assumes "kv k (API_KEY_PREFIX @ key) = None"
  shows "snd (validate_api_key c S key k) = None"
proof -
  obtain k1 q where q: "gs_get S (API_KEY_PREFIX @ key) k = (k1, q)" by fastforce
  show ?thesis
  proof (cases q)
    case (Inr v)
    then show ?thesis using get[of "API_KEY_PREFIX @ key" k k1 v] q assms by (simp add: validate_api_key_def)
  next
    case (Inl e)
    then show ?thesis using q by (simp add: validate_api_key_def)
  qed
qed

lemma revoked:
  assumes "kv k (API_KEY_INDEX_PREFIX @ key_id) = Some raw_key" "revoke_api_key S key_id k = (k', Inr b)"
  shows "b \<and> kv k' = (\<lambda>key. if key \<in> {API_KEY_PREFIX @ raw_key, API_KEY_INDEX_PREFIX @ key_id} then None else kv k key)"
proof -
  obtain k1 v where k1: "gs_get S (API_KEY_INDEX_PREFIX @ key_id) k = (k1, Inr v)"
    and 2: "(case v of None \<Rightarrow> ret False | Some raw_key \<Rightarrow>
      ebind (gs_delete S [API_KEY_PREFIX @ raw_key, API_KEY_INDEX_PREFIX @ key_id]) (\<lambda>_. ret True)) k1 = (k', Inr b)"
    using ebind_InrD[OF assms(2)[unfolded revoke_api_key_def]] by blast
  note g = get[OF k1]
  then have v: "v = Some raw_key" using assms(1) by simp
  obtain k2 n where k2: "gs_delete S [API_KEY_PREFIX @ raw_key, API_KEY_INDEX_PREFIX @ key_id] k1 = (k2, Inr n)"
      "k' = k2" "b = True"
    using ebind_InrD[OF 2[unfolded v option.case]] by auto
  show ?thesis using delete[OF k2(1)] k2(2,3) g by auto
qed

text \<open>One rate-limited request, when no command raises and the inner layers answer.\<close>

lemma limited_request:
  assumes "rq_path rq \<notin> List.set RATE_LIMIT_EXCLUDED" "role_multiplier (client_role rq) = Some m"
    and lim: "lmt = py_trunc (of_int (st_rate_limit_requests cfg) * m)"
    and key: "key = rate_key (client_id fmt rq) (now div st_rate_limit_window cfg)"
    and up: "up k" "\<And>k. up k \<Longrightarrow> \<exists>k' n. gs_incr S key k = (k', Inr n) \<and> up k'"
      "\<And>k w. up k \<Longrightarrow> \<exists>k'. gs_expire S key w k = (k', Inr ()) \<and> up k'"
    and inner: "\<And>k. up k \<Longrightarrow>
      \<exists>k' r. call_next rq k = (k', Inr r) \<and> rp_status r \<noteq> 429 \<and> cnt k' key = cnt k key \<and> up k'"
  shows "\<exists>k' r. rate_limiter fmt cfg S now call_next rq k = (k', Inr r) \<and> up k' \<and>
    cnt k' key = cnt k key + 1 \<and> (rp_status r = 429 \<longleftrightarrow> cnt k key + 1 > lmt)"
proof -
  obtain k1 n where k1: "gs_incr S key k = (k1, Inr n)" "up k1" using up(1,2) by blast
  have n: "n = cnt k key + 1" "cnt k1 key = n" using incr[OF k1(1)] by simp_all
  obtain k2 where k2: "(if n = 1 then gs_expire S key (st_rate_limit_window cfg + 1) k1 else ret () k1) = (k2, Inr ())"
      "cnt k2 key = n" "up k2"
  proof (cases "n = 1")
    case True
    obtain k2 where k2: "gs_expire S key (st_rate_limit_window cfg + 1) k1 = (k2, Inr ())" "up k2"
      using up(3) k1(2) by blast
    show ?thesis using that[of k2] True k2 expire[OF k2(1)] n(2) by simp
  next
    case False
    then show ?thesis using that[of k1] n(2) k1(2) by simp
  qed
  show ?thesis
  proof (cases "n > lmt")
    case True
    then show ?thesis using assms(1,2) k1 k2 n
      unfolding rate_limiter_def Let_def
      by (cases "cnt k key = 0") (simp_all add: key[symmetric] lim[symmetric] rate_limit_headers_def json_response_def)
  next
    case False
    obtain k3 r where r: "call_next rq k2 = (k3, Inr r)" "rp_status r \<noteq> 429" "cnt k3 key = n" "up k3"
      using inner[OF k2(3)] k2(2) by auto
    then show ?thesis using assms(1,2) k1 k2 n False
      unfolding rate_limiter_def Let_def
      by (cases "cnt k key = 0") (simp_all add: key[symmetric] lim[symmetric] rate_limit_headers_def)
  qed
qed

text \<open>Requests of one client in one window: the first ones pass, the rest is refused.\<close>

lemma limited_requests:
  assumes rqs: "\<And>rq. rq \<in> List.set rqs \<Longrightarrow> rq_path rq \<notin> List.set RATE_LIMIT_EXCLUDED \<and>
      role_multiplier (client_role rq) = Some m \<and> client_id fmt rq = cid"
    and lim: "lmt = py_trunc (of_int (st_rate_limit_requests cfg) * m)"
    and key: "key = rate_key cid (now div st_rate_limit_window cfg)"
    and up: "up k" "\<And>k. up k \<Longrightarrow> \<exists>k' n. gs_incr S key k = (k', Inr n) \<and> up k'"
      "\<And>k w. up k \<Longrightarrow> \<exists>k'. gs_expire S key w k = (k', Inr ()) \<and> up k'"
    and inner: "\<And>k rq. up k \<Longrightarrow> rq \<in> List.set rqs \<Longrightarrow>
      \<exists>k' r. call_next rq k = (k', Inr r) \<and> rp_status r \<noteq> 429 \<and> cnt k' key = cnt k key \<and> up k'"
    and "i < length rqs"
  shows "snd (serve (rate_limiter fmt cfg S now call_next) rqs k) ! i = 429 \<longleftrightarrow> cnt k key + int i + 1 > lmt"
  using rqs up(1) inner assms(8)
proof (induction rqs arbitrary: k i)
  case (Cons rq rqs)
  have c: "rq_path rq \<notin> List.set RATE_LIMIT_EXCLUDED" "role_multiplier (client_role rq) = Some m"
    "key = rate_key (client_id fmt rq) (now div st_rate_limit_window cfg)"
    using Cons.prems(1)[of rq] key by simp_all
  obtain k' r where r: "rate_limiter fmt cfg S now call_next rq k = (k', Inr r)" "up k'"
    "cnt k' key = cnt k key + 1" "rp_status r = 429 \<longleftrightarrow> cnt k key + 1 > lmt"
    using limited_request[OF c(1,2) lim c(3) Cons.prems(2) up(2,3), where call_next = call_next]
      Cons.prems(3) by (metis list.set_intros(1))
  obtain k'' ss where ss: "serve (rate_limiter fmt cfg S now call_next) rqs k' = (k'', ss)" by fastforce
  show ?case
  proof (cases i)
    case 0
    then show ?thesis using r ss by simp
  next
    case (Suc j)
    have "snd (serve (rate_limiter fmt cfg S now call_next) rqs k') ! j = 429 \<longleftrightarrow> cnt k' key + int j + 1 > lmt"
      using Cons.prems Suc r(2) by (intro Cons.IH) simp_all
    then show ?thesis using r ss Suc by simp
  qed
qed simp

end

subsection \<open>A reference server\<close>

record gw_store =
  gt_up :: bool
  gt_kv :: "(string, string) dict"
  gt_cnt :: "(string, int) dict"

definition ref_gw :: "gw_store gw_server" where
  "ref_gw =
     \<lparr>gs_incr = (\<lambda>key k. if \<not> gt_up k then raise ConnectionError k
        else let n = dget_or (gt_cnt k) key 0 + 1 in ret n (k\<lparr>gt_cnt := dset key n (gt_cnt k)\<rparr>)),
      gs_expire = (\<lambda>key w k. if gt_up k then ret () k else raise ConnectionError k),
      gs_get = (\<lambda>key k. if gt_up k then ret (dget (gt_kv k) key) k else raise ConnectionError k),
      gs_set = (\<lambda>key v k. if gt_up k then ret () (k\<lparr>gt_kv := dset key v (gt_kv k)\<rparr>) else raise ConnectionError k),
      gs_delete = (\<lambda>keys k. if gt_up k then ret (int (length keys)) (k\<lparr>gt_kv := fold ddel keys (gt_kv k)\<rparr>)
        else raise ConnectionError k)\<rparr>"

lemma fold_ddel_get: "dget (fold ddel ks d) k = (if k \<in> set ks then None else dget d k)"
  by (induction ks arbitrary: d) auto

interpretation ref_gw: gw_laws ref_gw "\<lambda>k. dget (gt_kv k)" "\<lambda>k key. dget_or (gt_cnt k) key 0"
  by unfold_locales
    (auto simp: ref_gw_def Let_def fun_eq_iff fold_ddel_get split: if_splits)

subsection \<open>Authentication\<close>

text \<open>
  A credential that the layer accepts: a token that decodes, or a key that the server knows.
\<close>

definition authenticated :: "codec \<Rightarrow> jwt_decode \<Rightarrow> 'k gw_server \<Rightarrow> request \<Rightarrow> 'k \<Rightarrow> bool" where
  "authenticated c decode S rq k \<longleftrightarrow>
     (\<exists>h. dget (rq_headers rq) ''authorization'' = Some h \<and>
        (starts_with ''Bearer '' h \<and> decode (drop 7 h) \<noteq> None \<or>
         starts_with ''ApiKey '' h \<and> snd (validate_api_key c S (drop 7 h) k) \<noteq> None))"

lemma authentication_refuses:
  assumes "\<not> auth_excluded (rq_path rq)" "\<not> authenticated c decode S rq k"
  shows "\<exists>k' d. authentication c decode S call_next rq k = (k', Inr (unauthorized d))"
proof (cases "dget (rq_headers rq) ''authorization''")
  case None
  then show ?thesis using assms by (auto simp: authentication_def)
next
  case (Some h)
  then show ?thesis using assms
    by (cases h) (auto simp: authentication_def authenticated_def validate_jwt_def
        split: option.split prod.split)
qed

lemma correlation_status:
  "correlation_id u n f rq k = (k', Inr r) \<Longrightarrow>
   \<exists>r'. f (rq\<lparr>rq_correlation_id := Some (choose_correlation_id u n rq)\<rparr>) k = (k', Inr r') \<and>
     rp_status r = rp_status r' \<and>
     dget (rp_headers r) ''X-Correlation-ID'' = Some (choose_correlation_id u n rq)"
  by (auto simp: correlation_id_def Let_def split: prod.splits sum.splits)

lemma gateway_refuses:
  assumes "\<not> auth_excluded (rq_path rq)" "\<not> authenticated c decode S rq k"
  shows "rp_status (snd (gateway c fmt decode cfg S u n now routes rq k)) = 401"
proof -
  let ?rq = "rq\<lparr>rq_correlation_id := Some (choose_correlation_id u n rq)\<rparr>"
  have "\<not> auth_excluded (rq_path ?rq)" "\<not> authenticated c decode S ?rq k"
    using assms by (simp_all add: authenticated_def)
  from authentication_refuses[OF this, of "rate_limiter fmt cfg S now routes"] show ?thesis
    by (auto simp: gateway_def error_handler_def correlation_id_def Let_def unauthorized_def json_response_def)
qed

subsection \<open>Keys of the limiter\<close>

lemma nat_str_chars: "set (nat_str n) \<subseteq> digit_char ` {..<10}"
proof (induction n rule: nat_str.induct)
  case (1 n)
  then show ?case by (cases "n < 10") (auto simp: nat_str.simps[of n])
qed

lemma digit_char_code: "d < 10 \<Longrightarrow> (of_char (digit_char d) :: nat) = 48 + d"
  by (simp add: digit_char_def)

lemma digit_not: "d < 10 \<Longrightarrow> digit_char d \<noteq> CHR '':'' \<and> digit_char d \<noteq> CHR ''-''"
  using digit_char_code[of d] by auto

lemma nat_str_plain: "CHR '':'' \<notin> set (nat_str n) \<and> CHR ''-'' \<notin> set (nat_str n)"
proof -
  have "c \<noteq> CHR '':'' \<and> c \<noteq> CHR ''-''" if c: "c \<in> set (nat_str n)" for c
  proof -
    obtain d where "d < 10" "c = digit_char d" using c nat_str_chars[of n] by auto
    then show ?thesis using digit_not by simp
  qed
  then show ?thesis by blast
qed

lemma no_colon: "CHR '':'' \<notin> set (int_str i)"
  by (simp add: int_str_def nat_str_plain)

lemma nat_str_same: "nat_str m = nat_str n \<longleftrightarrow> m = n"
  by (metis option.inject py_int_nat_str)

lemma minus_nat_str: "CHR ''-'' # xs \<noteq> nat_str n"
  using nat_str_plain[of n] by (metis list.set_intros(1))

lemma int_str_inj: "int_str i = int_str j \<longleftrightarrow> i = j"
  using minus_nat_str minus_nat_str[symmetric]
  by (cases "i < 0"; cases "j < 0") (auto simp: int_str_def nat_str_same)

lemma split_last_unique:
  "x \<notin> set ys \<Longrightarrow> x \<notin> set zs \<Longrightarrow> as @ x # ys = bs @ x # zs \<Longrightarrow> as = bs \<and> ys = zs"
proof (induction as arbitrary: bs)
  case Nil
  then show ?case by (cases bs) auto
next
  case (Cons a as)
  then show ?case by (cases bs) auto
qed

lemma rate_key_inj: "rate_key a v = rate_key b w \<longleftrightarrow> a = b \<and> v = w"
proof
  assume "rate_key a v = rate_key b w"
  then have "a @ CHR '':'' # int_str v = b @ CHR '':'' # int_str w" by (simp add: rate_key_def)
  from split_last_unique[OF no_colon no_colon this] show "a = b \<and> v = w" by (simp add: int_str_inj)
qed simp

subsection \<open>Further facts\<close>

text \<open>An exception of the inner layers is taken for an error of Redis: the request is run again.\<close>

lemma limiter_runs_twice:
  assumes "rq_path rq \<notin> set RATE_LIMIT_EXCLUDED" "role_multiplier (client_role rq) = Some m"
    and "gs_incr S (rate_key (client_id fmt rq) (now div st_rate_limit_window cfg)) k = (k1, Inr n)"
    and "n \<noteq> 1" "n \<le> py_trunc (of_int (st_rate_limit_requests cfg) * m)"
    and "call_next rq k1 = (k2, Inl e)"
  shows "rate_limiter fmt cfg S now call_next rq k = call_next rq k2"
  using assms by (simp add: rate_limiter_def Let_def)

text \<open>With Redis down the limiter hands the request on.\<close>

lemma limiter_fails_open:
  assumes "role_multiplier (client_role rq) \<noteq> None"
    and "gs_incr S (rate_key (client_id fmt rq) (now div st_rate_limit_window cfg)) k = (k1, Inl e)"
    and "rq_path rq \<notin> set RATE_LIMIT_EXCLUDED"
  shows "rate_limiter fmt cfg S now call_next rq k = call_next rq k1"
  using assms by (auto simp: rate_limiter_def Let_def)

lemma proxy_hop_by_hop:
  "k \<in> set (dkeys (proxy_headers rq)) \<Longrightarrow> k \<notin> set HOP_BY_HOP_HEADERS"
proof -
  let ?h = "[(k, v) \<leftarrow> rq_headers rq. k \<notin> set HOP_BY_HOP_HEADERS]"
  assume "k \<in> set (dkeys (proxy_headers rq))"
  then have "k = ''X-Forwarded-For'' \<or> k = ''X-Correlation-ID'' \<or> k \<in> set (dkeys ?h)"
    unfolding proxy_headers_def Let_def
    by (auto simp: dkeys_dset split: option.splits list.splits if_splits)
  then show ?thesis by (auto simp: HOP_BY_HOP_HEADERS_def)
qed

text \<open>The names of the request are in lower case, so the header the code looks up is never there.\<close>

lemma proxy_forwarded:
  assumes "''X-Forwarded-For'' \<notin> set (dkeys (rq_headers rq))"
  shows "dget (proxy_headers rq) ''X-Forwarded-For'' =
    Some (case rq_client rq of Some h \<Rightarrow> h | None \<Rightarrow> ''unknown'')"
proof -
  let ?h = "[(k, v) \<leftarrow> rq_headers rq. k \<notin> set HOP_BY_HOP_HEADERS]"
  have "''X-Forwarded-For'' \<notin> set (dkeys ?h)" using assms by auto
  then have "dget_or (case rq_correlation_id rq of
      Some (x # xs) \<Rightarrow> dset ''X-Correlation-ID'' (x # xs) ?h | _ \<Rightarrow> ?h) ''X-Forwarded-For'' [] = []"
    by (auto simp: dget_or_None map_of_eq_None_iff split: option.split list.split)
  then show ?thesis unfolding proxy_headers_def Let_def by simp
qed

lemma prefixes_differ: "API_KEY_PREFIX @ a \<noteq> API_KEY_INDEX_PREFIX @ b"
  by (simp add: API_KEY_PREFIX_def API_KEY_INDEX_PREFIX_def)

end
