(* ===== verification/GatewayProps.thy ===== *)
theory GatewayProps imports Gateway begin

section \<open>Properties of the API gateway\<close>

text \<open>
  Authentication, rate limiting, API keys, tokens and the proxy. A law of the Redis server is the
  hypothesis \<open>gw_laws S kv cnt\<close>; the witnesses use the reference server.
\<close>

subsection \<open>Authentication\<close>

lemma refused_alike:
  assumes "\<not> auth_excluded (rq_path rq)" "\<not> authenticated c decode S rq k"
  shows "authentication c decode S f rq k = authentication c decode S g rq k"
proof (cases "dget (rq_headers rq) ''authorization''")
  case (Some h)
  show ?thesis
  proof (cases h)
    case (Cons x xs)
    have "starts_with ''Bearer '' h \<Longrightarrow> validate_jwt decode (drop 7 h) = None"
      using assms(2) Some by (auto simp: authenticated_def validate_jwt_def)
    moreover have "starts_with ''ApiKey '' h \<Longrightarrow> \<exists>k'. validate_api_key c S (drop 7 h) k = (k', None)"
      using assms(2) Some by (cases "validate_api_key c S (drop 7 h) k") (auto simp: authenticated_def)
    ultimately show ?thesis
      using assms(1) Some Cons by (auto simp: authentication_def split: list.split)
  qed (use assms(1) Some in \<open>simp add: authentication_def\<close>)
qed (use assms(1) in \<open>simp add: authentication_def\<close>)


definition plain_request :: "string \<Rightarrow> (string, string) dict \<Rightarrow> request" where
  "plain_request path headers = \<lparr>rq_method = ''GET'', rq_path = path, rq_query = '''', rq_headers = headers,
     rq_client = Some ''10.0.0.1'', rq_body = '''', rq_user = None, rq_correlation_id = None\<rparr>"

definition no_codec :: codec where
  "no_codec = \<lparr>cd_loads = (\<lambda>_. None), cd_dumps = (\<lambda>_. ''{}''), cd_isoformat = (\<lambda>_. ''''),
     cd_fromisoformat = (\<lambda>_. None), cd_uuid = (\<lambda>_. None), cd_datetime = (\<lambda>_. None),
     cd_float_str = (\<lambda>_. ''''), cd_float = (\<lambda>_. None)\<rparr>"

definition empty_gw :: gw_store where
  "empty_gw = \<lparr>gt_up = True, gt_kv = [], gt_cnt = []\<rparr>"

definition small_settings :: gw_settings where
  "small_settings = \<lparr>st_rate_limit_requests = 2, st_rate_limit_window = 60, st_jwt_expiration_minutes = 60,
     st_jwt_refresh_minutes = 1440\<rparr>"

definition hello :: "gw_store handler" where
  "hello = (\<lambda>rq. ret (json_response 200 (Text ''hello'')))"


definition claims :: "int \<Rightarrow> int \<Rightarrow> string \<Rightarrow> string \<Rightarrow> string \<Rightarrow> json_object" where
  "claims now minutes sub role kind =
     dset ''exp'' (JInt (now + 60 * minutes)) (dset ''iat'' (JInt now) (token_payload sub role kind))"

text \<open>A refresh token is accepted as an access credential: the authentication layer does not look at
  the type of a token. The refresh endpoint does look:
  it takes the refresh token and refuses the access token.\<close>

theorem refresh_token_authenticates:
  assumes "authenticate_user sha256 name password = Some (sub, role)"
    and "login sha256 encode cfg now name password = Inr (access, refresh)"
    and "\<forall>p \<in> {claims now (st_jwt_expiration_minutes cfg) sub role ''access'',
      claims now (st_jwt_refresh_minutes cfg) sub role ''refresh''}. decode (encode p) = Some p"
    and "\<not> auth_excluded (rq_path rq)" "dget (rq_headers rq) ''authorization'' = Some (''Bearer '' @ refresh)"
  shows "authentication c decode S call_next rq k =
      call_next (rq\<lparr>rq_user := Some \<lparr>us_sub = JStr sub, us_role = JStr role, us_auth_method = ''jwt''\<rparr>\<rparr>) k \<and>
    (\<exists>token. refresh_token decode encode cfg later refresh = Inr token) \<and>
    refresh_token decode encode cfg later access = Inl (HTTPError 401)"
proof -
  have d: "decode access = Some (claims now (st_jwt_expiration_minutes cfg) sub role ''access'')"
    "decode refresh = Some (claims now (st_jwt_refresh_minutes cfg) sub role ''refresh'')"
    using assms(1,2,3) by (auto simp: login_def create_access_token_def create_refresh_token_def
        create_token_def claims_def)
  then have "validate_jwt decode refresh = Some \<lparr>us_sub = JStr sub, us_role = JStr role, us_auth_method = ''jwt''\<rparr>"
    by (simp add: validate_jwt_def claims_def token_payload_def dget_or_def)
  then show ?thesis
    using assms(4,5) d by (simp add: authentication_def starts_with_def refresh_token_def claims_def token_payload_def)
qed

theorem refresh_token_authenticates_witness:
  "let encode = (\<lambda>p :: json_object. if dget p ''type'' = Some (JStr ''refresh'') then ''r'' else ''a'');
       decode = (\<lambda>t. Some (if t = ''r'' then claims 0 1440 ''admin'' ''admin'' ''refresh''
                          else claims 0 60 ''admin'' ''admin'' ''access''))
   in login id encode small_settings 0 ''admin'' ''admin'' = Inr (''a'', ''r'') \<and>
      snd (authentication no_codec decode ref_gw hello
        (plain_request ''/api/v1/devices/x'' [(''authorization'', ''Bearer r'')]) empty_gw) =
      Inr (json_response 200 (Text ''hello''))"
proof -
  let ?encode = "\<lambda>p :: json_object. if dget p ''type'' = Some (JStr ''refresh'') then ''r'' else ''a''"
  let ?decode = "\<lambda>t. Some (if t = ''r'' then claims 0 1440 ''admin'' ''admin'' ''refresh''
                          else claims 0 60 ''admin'' ''admin'' ''access'')"
  let ?rq = "plain_request ''/api/v1/devices/x'' [(''authorization'', ''Bearer r'')]"
  have l: "login id ?encode small_settings 0 ''admin'' ''admin'' = Inr (''a'', ''r'')"
    by (simp add: login_def authenticate_user_def DEV_USERS_def create_access_token_def create_refresh_token_def
        create_token_def token_payload_def)
  have "authentication no_codec ?decode ref_gw hello ?rq empty_gw =
      hello (?rq\<lparr>rq_user := Some \<lparr>us_sub = JStr ''admin'', us_role = JStr ''admin'', us_auth_method = ''jwt''\<rparr>\<rparr>) empty_gw"
    by (rule conjunct1[OF refresh_token_authenticates[OF _ l]])
      (simp_all add: authenticate_user_def DEV_USERS_def plain_request_def auth_excluded_def EXCLUDED_PATHS_def
        EXCLUDED_PREFIXES_def starts_with_def small_settings_def claims_def token_payload_def)
  with l show ?thesis by (simp add: hello_def)
qed

subsection \<open>Rate limiting\<close>



text \<open>The limiter takes an exception of the inner layers for a failure of Redis and runs the request
  again: what the first run changed stays, and the answer is that of the second.\<close>

theorem failed_request_runs_twice:
  assumes "rq_path rq \<notin> set RATE_LIMIT_EXCLUDED" "role_multiplier (client_role rq) = Some m"
    and "gs_incr S (rate_key (client_id fmt rq) (now div st_rate_limit_window cfg)) k = (k1, Inr n)"
    and "n \<noteq> 1" "n \<le> py_trunc (of_int (st_rate_limit_requests cfg) * m)"
    and "call_next rq k1 = (k2, Inl e)"
  shows "rate_limiter fmt cfg S now call_next rq k = call_next rq k2"
  by (rule limiter_runs_twice[where m = m and n = n and e = e]) (fact assms)+

text \<open>A handler that books something and then fails the first time.\<close>

definition flaky :: "gw_store handler" where
  "flaky = (\<lambda>rq k. (let k' = k\<lparr>gt_kv := dset ''booked'' (dget_or (gt_kv k) ''booked'' '''' @ ''x'') (gt_kv k)\<rparr>
     in if dhas (gt_kv k) ''booked'' then ret (json_response 200 (Text ''ok'')) k' else raise TimeoutErr k'))"

theorem failed_request_runs_twice_witness:
  "dget (gt_kv (fst (rate_limiter (\<lambda>_. '''') small_settings ref_gw 0 flaky (plain_request ''/api/v1/devices/x'' [])
     (empty_gw\<lparr>gt_cnt := [(rate_key ''ip:10.0.0.1'' 0, 1)]\<rparr>)))) ''booked'' = Some ''xx''"
proof -
  let ?rq = "plain_request ''/api/v1/devices/x'' []" and ?k = "empty_gw\<lparr>gt_cnt := [(rate_key ''ip:10.0.0.1'' 0, 1)]\<rparr>"
  let ?k1 = "empty_gw\<lparr>gt_cnt := [(rate_key ''ip:10.0.0.1'' 0, 2)]\<rparr>"
  have "rate_limiter (\<lambda>_. '''') small_settings ref_gw 0 flaky ?rq ?k = flaky ?rq (?k1\<lparr>gt_kv := [(''booked'', ''x'')]\<rparr>)"
    by (rule failed_request_runs_twice[where n = 2 and m = 1 and ?k1.0 = ?k1 and e = TimeoutErr])
      (simp_all add: plain_request_def RATE_LIMIT_EXCLUDED_def role_multiplier_def client_role_def client_id_def
        empty_gw_def ref_gw_def flaky_def small_settings_def py_trunc_def Let_def dhas_def dget_or_def)
  then show ?thesis by (simp add: flaky_def Let_def dhas_def dget_or_def)
qed

subsection \<open>API keys\<close>

text \<open>The life of an API key: once created it authenticates with the name and role it was created
  for, and once revoked it authenticates no more. The server holds the key itself, in the clear, and not
  only a hash of it.\<close>

theorem api_key_lifecycle:
  assumes laws: "gw_laws S kv cnt"
    and "meta = [(''key_id'', JStr key_id), (''name'', JStr name), (''role'', JStr role)]"
    and "cd_loads c (dumps (JObj meta)) = Some (JObj meta)"
    and create: "create_api_key dumps S key_id raw_key name role k = (k1, Inr r)"
    and check: "validate_api_key c S raw_key k1 = (k2, user)" "\<not> (\<exists>e. snd (gs_get S (API_KEY_PREFIX @ raw_key) k1) = Inl e)"
    and revoke: "revoke_api_key S key_id k2 = (k3, Inr b)"
  shows "r = raw_key \<and> kv k1 (API_KEY_INDEX_PREFIX @ key_id) = Some raw_key \<and>
    user = Some \<lparr>us_sub = JStr name, us_role = JStr role, us_auth_method = ''api_key''\<rparr> \<and>
    b \<and> snd (validate_api_key c S raw_key k3) = None"
proof -
  have k1: "r = raw_key" "kv k1 (API_KEY_INDEX_PREFIX @ key_id) = Some raw_key"
    "kv k1 (API_KEY_PREFIX @ raw_key) = Some (dumps (JObj meta))"
    using gw_laws.created_key[OF laws create] prefixes_differ[of raw_key key_id] by (auto simp: assms(2))
  have user: "user = Some \<lparr>us_sub = JStr name, us_role = JStr role, us_auth_method = ''api_key''\<rparr>"
    using gw_laws.key_lookup[OF laws k1(3) assms(3) check] by (simp add: assms(2) dget_or_def)
  obtain k' v where g: "gs_get S (API_KEY_PREFIX @ raw_key) k1 = (k', Inr v)"
    using check(2) by (metis old.sum.exhaust surjective_pairing)
  then have "k2 = k'" using check(1) by (auto simp: validate_api_key_def split: option.splits)
  then have "kv k2 = kv k1" using gw_laws.get[OF laws g] by simp
  then have "b \<and> kv k3 (API_KEY_PREFIX @ raw_key) = None"
    using gw_laws.revoked[OF laws _ revoke] k1(2) by simp
  then show ?thesis using k1 user gw_laws.no_key[OF laws] by blast
qed

theorem api_key_lifecycle_witness:
  "\<exists>k1 k2 k3. create_api_key (\<lambda>_. ''meta'') ref_gw ''id1'' ''secret'' ''probe'' ''device'' empty_gw = (k1, Inr ''secret'') \<and>
     revoke_api_key ref_gw ''id1'' k2 = (k3, Inr True) \<and>
     snd (validate_api_key (no_codec\<lparr>cd_loads := \<lambda>_. Some (JObj
       [(''key_id'', JStr ''id1''), (''name'', JStr ''probe''), (''role'', JStr ''device'')])\<rparr>) ref_gw ''secret'' k3) = None"
proof -
  let ?meta = "[(''key_id'', JStr ''id1''), (''name'', JStr ''probe''), (''role'', JStr ''device'')]"
  let ?c = "no_codec\<lparr>cd_loads := \<lambda>_. Some (JObj ?meta)\<rparr>"
  obtain k1 r where c: "create_api_key (\<lambda>_. ''meta'') ref_gw ''id1'' ''secret'' ''probe'' ''device'' empty_gw = (k1, Inr r)"
    by (simp add: create_api_key_def ref_gw_def empty_gw_def)
  have up: "gt_up k1" using c by (auto simp: create_api_key_def ref_gw_def empty_gw_def)
  obtain k2 user where v: "validate_api_key ?c ref_gw ''secret'' k1 = (k2, user)" by fastforce
  have k2: "k2 = k1" using v up by (auto simp: validate_api_key_def ref_gw_def split: option.splits)
  have ne: "\<not> (\<exists>e. snd (gs_get ref_gw (API_KEY_PREFIX @ ''secret'') k1) = Inl e)"
    using up by (simp add: ref_gw_def)
  have "\<exists>k3 b. revoke_api_key ref_gw ''id1'' k2 = (k3, Inr b)"
    using up k2 by (auto simp: revoke_api_key_def ref_gw_def ebind_def split: option.split)
  then obtain k3 b where r: "revoke_api_key ref_gw ''id1'' k2 = (k3, Inr b)" by blast
  show ?thesis
    using api_key_lifecycle[OF ref_gw.gw_laws_axioms refl _ c v ne r] c r
    by (intro exI[of _ k1] exI[of _ k2] exI[of _ k3]) simp
qed

subsection \<open>Proxy\<close>

text \<open>The proxied request carries no hop-by-hop header, and its \<open>X-Forwarded-For\<close> is the address of
  the peer alone: the framework delivers header names in lower case, so the chain a client or a proxy in
  front sent is passed on unchanged beside it and never extended.\<close>

theorem forwarded_chain_not_extended:
  assumes "\<forall>h \<in> set (dkeys (rq_headers rq)). h \<noteq> ''X-Forwarded-For'' \<and> h \<noteq> ''X-Correlation-ID''"
  shows "set (dkeys (proxy_headers rq)) \<inter> set HOP_BY_HOP_HEADERS = {} \<and>
    dget (proxy_headers rq) ''X-Forwarded-For'' = Some (case rq_client rq of Some h \<Rightarrow> h | None \<Rightarrow> ''unknown'') \<and>
    dget (proxy_headers rq) ''x-forwarded-for'' = dget (rq_headers rq) ''x-forwarded-for''"
proof (intro conjI)
  show "set (dkeys (proxy_headers rq)) \<inter> set HOP_BY_HOP_HEADERS = {}"
    using proxy_hop_by_hop by blast
  show "dget (proxy_headers rq) ''X-Forwarded-For'' = Some (case rq_client rq of Some h \<Rightarrow> h | None \<Rightarrow> ''unknown'')"
    using assms by (intro proxy_forwarded) auto
  have "dget [(k, v) \<leftarrow> d. k \<notin> set HOP_BY_HOP_HEADERS] ''x-forwarded-for'' = dget d ''x-forwarded-for''"
    for d :: "(string, string) dict"
    by (induction d) (auto simp: HOP_BY_HOP_HEADERS_def)
  then show "dget (proxy_headers rq) ''x-forwarded-for'' = dget (rq_headers rq) ''x-forwarded-for''"
    by (simp add: proxy_headers_def Let_def split: option.split list.split)
qed

theorem forwarded_chain_not_extended_witness:
  "dget (proxy_headers (plain_request ''/'' [(''x-forwarded-for'', ''203.0.113.7'')])) ''X-Forwarded-For'' = Some ''10.0.0.1''"
  by (subst forwarded_chain_not_extended[THEN conjunct2, THEN conjunct1]) (simp_all add: plain_request_def)

end
