(* ===== verification/Devices.thy ===== *)
theory Devices imports Telemetry begin

section \<open>Device manager\<close>

text \<open>
  The \<open>device-manager\<close> service: \<open>db/models.py\<close>, \<open>repositories/device_repo.py\<close>, the three services and
  the routers. The tables of \<open>db/models.py\<close> are dictionaries from the primary key to the row, the SQL
  statements of the code act on them; a statement the schema refuses raises. The stream server takes
  the events and may raise after the commit. A session hands out one object per row, so a row read
  before an update shows the new values after it.
\<close>

datatype device_status = REGISTERED | PROVISIONED | ACTIVE | INACTIVE | DECOMMISSIONED
datatype provisioning_status = PENDING | APPROVED | REJECTED

definition status_value :: "device_status \<Rightarrow> string" where
  "status_value s = (case s of REGISTERED \<Rightarrow> ''registered'' | PROVISIONED \<Rightarrow> ''provisioned''
     | ACTIVE \<Rightarrow> ''active'' | INACTIVE \<Rightarrow> ''inactive'' | DECOMMISSIONED \<Rightarrow> ''decommissioned'')"

definition all_statuses :: "device_status list" where
  "all_statuses = [REGISTERED, PROVISIONED, ACTIVE, INACTIVE, DECOMMISSIONED]"

definition parse_status :: "string \<Rightarrow> device_status option" where
  "parse_status s = List.find (\<lambda>x. status_value x = s) all_statuses"

record device =
  dv_id :: uuid
  dv_name :: string
  dv_device_type :: string
  dv_status :: device_status
  dv_firmware_version :: string
  dv_last_seen_at :: "time option"
  dv_metadata :: json
  dv_created_at :: time
  dv_updated_at :: time

record provisioning_request =
  pq_id :: uuid
  pq_device_id :: uuid
  pq_status :: provisioning_status
  pq_requested_at :: time
  pq_approved_at :: "time option"
  pq_approved_by :: "string option"

record firmware_version =
  fv_id :: uuid
  fv_version :: string
  fv_device_type :: string
  fv_checksum :: string
  fv_file_url :: string
  fv_release_notes :: "string option"
  fv_created_at :: time

record 's device_manager =
  dm_devices :: "(uuid, device) dict"
  dm_requests :: "(uuid, provisioning_request) dict"
  dm_firmware :: "(uuid, firmware_version) dict"
  dm_srv :: 's
  dm_active_gauge :: "(string, int) dict"
  dm_rollouts :: "(string, json) dict"

datatype dm_error = ValueError | DBError | RedisError | MultipleResults

text \<open>\<open>scalar_one_or_none\<close> of a query.\<close>

definition scalar_one_or_none :: "'a list \<Rightarrow> dm_error + 'a option" where
  "scalar_one_or_none rows = (case rows of [] \<Rightarrow> Inr None | [r] \<Rightarrow> Inr (Some r) | _ \<Rightarrow> Inl MultipleResults)"

subsection \<open>Repository\<close>

definition repo_get_device :: "uuid \<Rightarrow> 's device_manager \<Rightarrow> device option" where
  "repo_get_device device_id m = dget (dm_devices m) device_id"

text \<open>
  The two filters, the count before the pagination, the newest first. Rows with the same creation time
  keep the order of the table; SQL leaves it open. A filter that is no status makes the query raise.
\<close>

definition repo_list_devices :: "string option \<Rightarrow> string option \<Rightarrow> nat \<Rightarrow> nat \<Rightarrow> 's device_manager \<Rightarrow>
    dm_error + device list \<times> nat" where
  "repo_list_devices device_type status lmt off m =
     (case (case status of None \<Rightarrow> Inr None | Some s \<Rightarrow>
              (case parse_status s of None \<Rightarrow> Inl DBError | Some x \<Rightarrow> Inr (Some x))) of
        Inl e \<Rightarrow> Inl e
      | Inr st \<Rightarrow>
          let rows = [d \<leftarrow> dvalues (dm_devices m). (device_type = None \<or> device_type = Some (dv_device_type d))
                        \<and> (st = None \<or> st = Some (dv_status d))]
          in Inr (slice off lmt (sort_key (\<lambda>d. - dv_created_at d) rows), length rows))"

text \<open>The length limits of the columns.\<close>

definition column_ok :: "device \<Rightarrow> bool" where
  "column_ok d \<longleftrightarrow> length (dv_name d) \<le> 255 \<and> length (dv_device_type d) \<le> 100
     \<and> length (dv_firmware_version d) \<le> 50"

definition repo_create_device :: "uuid \<Rightarrow> time \<Rightarrow> string \<Rightarrow> string \<Rightarrow> string \<Rightarrow> json \<Rightarrow>
    ('s device_manager, dm_error, device) action" where
  "repo_create_device new_id now name device_type firmware metadata m =
     (let d = \<lparr>dv_id = new_id, dv_name = name, dv_device_type = device_type, dv_status = REGISTERED,
               dv_firmware_version = firmware, dv_last_seen_at = None, dv_metadata = metadata,
               dv_created_at = now, dv_updated_at = now\<rparr>
      in if column_ok d \<and> \<not> dhas (dm_devices m) new_id
         then ret d (m\<lparr>dm_devices := dset new_id d (dm_devices m)\<rparr>)
         else raise DBError m)"

text \<open>One column of \<open>values(**updates)\<close>; null is refused but for the JSON column.\<close>

definition set_column :: "string \<times> json \<Rightarrow> device \<Rightarrow> device option" where
  "set_column = (\<lambda>(col, v) d.
     if col = ''name'' then map_option (\<lambda>s. d\<lparr>dv_name := s\<rparr>) (json_str v)
     else if col = ''device_type'' then map_option (\<lambda>s. d\<lparr>dv_device_type := s\<rparr>) (json_str v)
     else if col = ''firmware_version'' then map_option (\<lambda>s. d\<lparr>dv_firmware_version := s\<rparr>) (json_str v)
     else if col = ''status'' then map_option (\<lambda>s. d\<lparr>dv_status := s\<rparr>) (Option.bind (json_str v) parse_status)
     else if col = ''metadata_'' then Some (d\<lparr>dv_metadata := v\<rparr>)
     else None)"

fun set_columns :: "json_object \<Rightarrow> device \<Rightarrow> device option" where
  "set_columns [] d = Some d"
| "set_columns (u # us) d = Option.bind (set_column u d) (set_columns us)"

definition repo_update_device :: "time \<Rightarrow> uuid \<Rightarrow> json_object \<Rightarrow>
    ('s device_manager, dm_error, device option) action" where
  "repo_update_device now device_id updates m =
     (case dget (dm_devices m) device_id of
        None \<Rightarrow> ret None m
      | Some d \<Rightarrow>
          (case set_columns updates d of
             None \<Rightarrow> raise DBError m
           | Some d' \<Rightarrow>
               if column_ok d' then
                 let d' = d'\<lparr>dv_updated_at := now\<rparr>
                 in ret (Some d') (m\<lparr>dm_devices := dset device_id d' (dm_devices m)\<rparr>)
               else raise DBError m))"

definition repo_delete_device :: "time \<Rightarrow> uuid \<Rightarrow> 's device_manager \<Rightarrow> 's device_manager \<times> bool" where
  "repo_delete_device now device_id m =
     (case dget (dm_devices m) device_id of
        None \<Rightarrow> (m, False)
      | Some d \<Rightarrow> (m\<lparr>dm_devices := dset device_id (d\<lparr>dv_status := DECOMMISSIONED, dv_updated_at := now\<rparr>)
                       (dm_devices m)\<rparr>, True))"

record device_stats =
  ds_by_type :: "(string, nat) dict"
  ds_by_status :: "(string, nat) dict"
  ds_total :: nat

text \<open>\<open>GROUP BY\<close>: one row per value that occurs, with the number of rows.\<close>

definition group_count :: "('a \<Rightarrow> 'b) \<Rightarrow> 'a list \<Rightarrow> ('b, nat) dict" where
  "group_count f rows = map (\<lambda>k. (k, length [r \<leftarrow> rows. f r = k])) (remdups (map f rows))"

definition repo_get_stats :: "'s device_manager \<Rightarrow> device_stats" where
  "repo_get_stats m =
     (let rows = dvalues (dm_devices m);
          by_type = group_count dv_device_type rows;
          by_status = map (\<lambda>(k, n). (status_value k, n)) (group_count dv_status rows)
      in \<lparr>ds_by_type = by_type, ds_by_status = by_status, ds_total = sum_list (dvalues by_type)\<rparr>)"

subsection \<open>Device service\<close>

definition DEVICE_EVENTS :: string where "DEVICE_EVENTS = ''device_events''"

definition emit :: "'s stream_server \<Rightarrow> fields \<Rightarrow> ('s device_manager, dm_error, unit) action" where
  "emit S data m =
     (case stream_add S DEVICE_EVENTS data (Some 100000) True (dm_srv m) of
        (s, Inl _) \<Rightarrow> raise RedisError (m\<lparr>dm_srv := s\<rparr>)
      | (s, Inr _) \<Rightarrow> ret () (m\<lparr>dm_srv := s\<rparr>))"

definition emit_device_event :: "codec \<Rightarrow> 's stream_server \<Rightarrow> time \<Rightarrow> string \<Rightarrow> uuid \<Rightarrow> json_object \<Rightarrow>
    ('s device_manager, dm_error, unit) action" where
  "emit_device_event c S now event_type device_id payload =
     emit S ([(''event_type'', event_type), (''device_id'', device_id), (''timestamp'', cd_isoformat c now)] @
       (if payload = [] then [] else [(''payload'', cd_dumps c (JObj payload))]))"

definition gauge_add :: "string \<Rightarrow> int \<Rightarrow> 's device_manager \<Rightarrow> 's device_manager" where
  "gauge_add t n m = m\<lparr>dm_active_gauge := dset t (dget_or (dm_active_gauge m) t 0 + n) (dm_active_gauge m)\<rparr>"

definition create_device :: "codec \<Rightarrow> 's stream_server \<Rightarrow> uuid \<Rightarrow> time \<Rightarrow> string \<Rightarrow> string \<Rightarrow> string \<Rightarrow> json \<Rightarrow>
    ('s device_manager, dm_error, device) action" where
  "create_device c S new_id now name device_type firmware metadata =
     ebind (repo_create_device new_id now name device_type firmware metadata) (\<lambda>d.
     ebind (emit_device_event c S now ''device_created'' (dv_id d)
              [(''name'', JStr (dv_name d)), (''device_type'', JStr (dv_device_type d))]) (\<lambda>_ m.
       ret d (gauge_add (dv_device_type d) 0 m)))"

text \<open>
  \<open>existing\<close> and \<open>device\<close> are one object: the last test of the status reads the value after the update.
\<close>

definition update_device :: "codec \<Rightarrow> 's stream_server \<Rightarrow> time \<Rightarrow> uuid \<Rightarrow> json_object \<Rightarrow>
    ('s device_manager, dm_error, device option) action" where
  "update_device c S now device_id updates m =
     (case repo_get_device device_id m of
        None \<Rightarrow> ret None m
      | Some existing \<Rightarrow>
          if dv_status existing = DECOMMISSIONED then raise ValueError m
          else ebind (repo_update_device now device_id updates) (\<lambda>r. case r of
              None \<Rightarrow> ret None
            | Some d \<Rightarrow> (\<lambda>m.
                let existing = d in
                ebind (emit_device_event c S now ''device_updated'' (dv_id d) updates) (\<lambda>_ m.
                  case dget updates ''status'' of
                    None \<Rightarrow> ret (Some d) m
                  | Some new_status \<Rightarrow>
                      if new_status = JNull then ret (Some d) m
                      else if new_status = JStr (status_value ACTIVE)
                      then ret (Some d) (gauge_add (dv_device_type d) 1 m)
                      else if dv_status existing = ACTIVE
                      then ret (Some d) (gauge_add (dv_device_type d) (-1) m)
                      else ret (Some d) m) m)) m)"

definition delete_device :: "codec \<Rightarrow> 's stream_server \<Rightarrow> time \<Rightarrow> uuid \<Rightarrow>
    ('s device_manager, dm_error, bool) action" where
  "delete_device c S now device_id m =
     (case repo_get_device device_id m of
        None \<Rightarrow> ret False m
      | Some existing \<Rightarrow>
          if dv_status existing = ACTIVE then raise ValueError m
          else if dv_status existing = DECOMMISSIONED then raise ValueError m
          else (case repo_delete_device now device_id m of
            (m, False) \<Rightarrow> ret False m
          | (m, True) \<Rightarrow> ebind (emit_device_event c S now ''device_decommissioned'' device_id []) (\<lambda>_. ret True) m))"

subsection \<open>Provisioning service\<close>

definition pending_for :: "uuid \<Rightarrow> 's device_manager \<Rightarrow> provisioning_request list" where
  "pending_for device_id m =
     [r \<leftarrow> dvalues (dm_requests m). pq_device_id r = device_id \<and> pq_status r = PENDING]"

definition request_provisioning :: "codec \<Rightarrow> 's stream_server \<Rightarrow> uuid \<Rightarrow> time \<Rightarrow> uuid \<Rightarrow>
    ('s device_manager, dm_error, provisioning_request) action" where
  "request_provisioning c S new_id now device_id m =
     (case dget (dm_devices m) device_id of
        None \<Rightarrow> raise ValueError m
      | Some d \<Rightarrow>
          if dv_status d \<noteq> REGISTERED then raise ValueError m
          else case scalar_one_or_none (pending_for device_id m) of
            Inl e \<Rightarrow> raise e m
          | Inr (Some _) \<Rightarrow> raise ValueError m
          | Inr None \<Rightarrow>
              if dhas (dm_requests m) new_id then raise DBError m
              else let r = \<lparr>pq_id = new_id, pq_device_id = device_id, pq_status = PENDING,
                            pq_requested_at = now, pq_approved_at = None, pq_approved_by = None\<rparr>
                in ebind (emit S [(''event_type'', ''provisioning_requested''), (''device_id'', device_id),
                       (''request_id'', pq_id r), (''timestamp'', cd_isoformat c now)]) (\<lambda>_. ret r)
                     (m\<lparr>dm_requests := dset new_id r (dm_requests m)\<rparr>))"

definition approve_provisioning :: "codec \<Rightarrow> 's stream_server \<Rightarrow> time \<Rightarrow> uuid \<Rightarrow> string \<Rightarrow>
    ('s device_manager, dm_error, provisioning_request) action" where
  "approve_provisioning c S now request_id approved_by m =
     (case dget (dm_requests m) request_id of
        None \<Rightarrow> raise ValueError m
      | Some r \<Rightarrow>
          if pq_status r \<noteq> PENDING then raise ValueError m
          else if length approved_by > 255 then raise DBError m
          else let r = r\<lparr>pq_status := APPROVED, pq_approved_at := Some now, pq_approved_by := Some approved_by\<rparr>;
                   m = m\<lparr>dm_requests := dset request_id r (dm_requests m),
                         dm_devices := dmodify (pq_device_id r)
                           (\<lambda>d. d\<lparr>dv_status := PROVISIONED, dv_updated_at := now\<rparr>) (dm_devices m)\<rparr>
            in ebind (emit S [(''event_type'', ''provisioning_approved''), (''device_id'', pq_device_id r),
                   (''request_id'', request_id), (''approved_by'', approved_by),
                   (''timestamp'', cd_isoformat c now)]) (\<lambda>_. ret r) m)"

definition get_provisioning_status :: "uuid \<Rightarrow> 's device_manager \<Rightarrow> provisioning_request option" where
  "get_provisioning_status device_id m =
     (case sort_key (\<lambda>r. - pq_requested_at r) [r \<leftarrow> dvalues (dm_requests m). pq_device_id r = device_id] of
        [] \<Rightarrow> None | r # _ \<Rightarrow> Some r)"

subsection \<open>Firmware service\<close>

definition register_firmware :: "uuid \<Rightarrow> time \<Rightarrow> string \<Rightarrow> string \<Rightarrow> string \<Rightarrow> string \<Rightarrow> string option \<Rightarrow>
    ('s device_manager, dm_error, firmware_version) action" where
  "register_firmware new_id now version device_type checksum file_url release_notes m =
     (case scalar_one_or_none [f \<leftarrow> dvalues (dm_firmware m). fv_version f = version \<and> fv_device_type f = device_type] of
        Inl e \<Rightarrow> raise e m
      | Inr (Some _) \<Rightarrow> raise ValueError m
      | Inr None \<Rightarrow>
          if length version > 50 \<or> length device_type > 100 \<or> length checksum > 128 \<or> dhas (dm_firmware m) new_id
          then raise DBError m
          else let f = \<lparr>fv_id = new_id, fv_version = version, fv_device_type = device_type,
                        fv_checksum = checksum, fv_file_url = file_url, fv_release_notes = release_notes,
                        fv_created_at = now\<rparr>
            in ret f (m\<lparr>dm_firmware := dset new_id f (dm_firmware m)\<rparr>))"

definition list_firmware :: "string option \<Rightarrow> 's device_manager \<Rightarrow> firmware_version list" where
  "list_firmware device_type m =
     [f \<leftarrow> sort_key (\<lambda>f. - fv_created_at f) (dvalues (dm_firmware m)).
        device_type = None \<or> device_type = Some (fv_device_type f)]"

text \<open>
  The rollout record is kept in Redis as JSON text for a day; \<open>dm_rollouts\<close> holds it as a JSON value and
  does not let it expire.
\<close>

definition start_rollout :: "codec \<Rightarrow> 's stream_server \<Rightarrow> string \<Rightarrow> time \<Rightarrow> uuid \<Rightarrow> string list \<Rightarrow>
    ('s device_manager, dm_error, json) action" where
  "start_rollout c S rollout_id now firmware_id target_devices m =
     (case dget (dm_firmware m) firmware_id of
        None \<Rightarrow> raise ValueError m
      | Some f \<Rightarrow>
          let targets = JArr (map JStr target_devices);
              rollout_record = JObj [(''rollout_id'', JStr rollout_id), (''firmware_id'', JStr firmware_id),
                (''firmware_version'', JStr (fv_version f)), (''device_type'', JStr (fv_device_type f)),
                (''target_devices'', targets), (''status'', JStr ''in_progress''),
                (''started_at'', JStr (cd_isoformat c now))]
          in ebind (emit S [(''event_type'', ''firmware_rollout_started''), (''rollout_id'', rollout_id),
                 (''firmware_id'', firmware_id), (''firmware_version'', fv_version f),
                 (''device_type'', fv_device_type f), (''target_devices'', cd_dumps c targets),
                 (''timestamp'', cd_isoformat c now)]) (\<lambda>_. ret rollout_record)
               (m\<lparr>dm_rollouts := dset (''firmware_rollout:'' @ rollout_id) rollout_record (dm_rollouts m)\<rparr>))"

definition get_rollout_status :: "string \<Rightarrow> 's device_manager \<Rightarrow> json option" where
  "get_rollout_status rollout_id m = dget (dm_rollouts m) (''firmware_rollout:'' @ rollout_id)"

subsection \<open>Endpoints\<close>

definition dm_status :: "nat \<Rightarrow> dm_error \<Rightarrow> http_error" where
  "dm_status for_value e = (case e of ValueError \<Rightarrow> HTTPError for_value | _ \<Rightarrow> HTTPError 500)"

definition lift_status :: "nat \<Rightarrow> ('s, dm_error, 'a) action \<Rightarrow> ('s, http_error, 'a) action" where
  "lift_status for_value f m = (case f m of (m, Inl e) \<Rightarrow> (m, Inl (dm_status for_value e)) | (m, Inr a) \<Rightarrow> (m, Inr a))"

text \<open>
  The body as the keys that were set; \<open>metadata\<close> is renamed to the attribute of the model and moves to
  the end.
\<close>

definition rename_metadata :: "json_object \<Rightarrow> json_object" where
  "rename_metadata updates =
     (case dget updates ''metadata'' of
        None \<Rightarrow> updates | Some v \<Rightarrow> dset ''metadata_'' v (ddel ''metadata'' updates))"

definition update_device_endpoint :: "codec \<Rightarrow> 's stream_server \<Rightarrow> time \<Rightarrow> uuid \<Rightarrow> json_object \<Rightarrow>
    ('s device_manager, http_error, device) action" where
  "update_device_endpoint c S now device_id updates =
     (if updates = [] then raise (HTTPError 400)
      else ebind (lift_status 409 (update_device c S now device_id (rename_metadata updates)))
        (\<lambda>r. case r of None \<Rightarrow> raise (HTTPError 404) | Some d \<Rightarrow> ret d))"

definition delete_device_endpoint :: "codec \<Rightarrow> 's stream_server \<Rightarrow> time \<Rightarrow> uuid \<Rightarrow>
    ('s device_manager, http_error, unit) action" where
  "delete_device_endpoint c S now device_id =
     ebind (lift_status 409 (delete_device c S now device_id))
       (\<lambda>success. if \<not> success then raise (HTTPError 404) else ret ())"

definition get_device_endpoint :: "uuid \<Rightarrow> 's device_manager \<Rightarrow> http_error + device" where
  "get_device_endpoint device_id m =
     (case repo_get_device device_id m of None \<Rightarrow> Inl (HTTPError 404) | Some d \<Rightarrow> Inr d)"

definition list_devices_endpoint :: "string option \<Rightarrow> string option \<Rightarrow> int \<Rightarrow> int \<Rightarrow> 's device_manager \<Rightarrow>
    http_error + device list \<times> nat" where
  "list_devices_endpoint device_type status lmt off m =
     (if \<not> (1 \<le> lmt \<and> lmt \<le> 500 \<and> 0 \<le> off) then Inl (HTTPError 422)
      else case repo_list_devices device_type status (nat lmt) (nat off) m of
        Inl _ \<Rightarrow> Inl (HTTPError 500) | Inr r \<Rightarrow> Inr r)"

definition request_provisioning_endpoint :: "codec \<Rightarrow> 's stream_server \<Rightarrow> uuid \<Rightarrow> time \<Rightarrow> uuid \<Rightarrow>
    ('s device_manager, http_error, provisioning_request) action" where
  "request_provisioning_endpoint c S new_id now device_id =
     lift_status 409 (request_provisioning c S new_id now device_id)"

definition approve_provisioning_endpoint :: "codec \<Rightarrow> 's stream_server \<Rightarrow> time \<Rightarrow> uuid \<Rightarrow> string \<Rightarrow>
    ('s device_manager, http_error, provisioning_request) action" where
  "approve_provisioning_endpoint c S now request_id approved_by =
     lift_status 409 (approve_provisioning c S now request_id approved_by)"

definition get_provisioning_status_endpoint :: "uuid \<Rightarrow> 's device_manager \<Rightarrow> http_error + provisioning_request" where
  "get_provisioning_status_endpoint device_id m =
     (case get_provisioning_status device_id m of None \<Rightarrow> Inl (HTTPError 404) | Some r \<Rightarrow> Inr r)"

definition register_firmware_endpoint :: "uuid \<Rightarrow> time \<Rightarrow> string \<Rightarrow> string \<Rightarrow> string \<Rightarrow> string \<Rightarrow> string option \<Rightarrow>
    ('s device_manager, http_error, firmware_version) action" where
  "register_firmware_endpoint new_id now version device_type checksum file_url release_notes =
     lift_status 409 (register_firmware new_id now version device_type checksum file_url release_notes)"

definition start_rollout_endpoint :: "codec \<Rightarrow> 's stream_server \<Rightarrow> string \<Rightarrow> time \<Rightarrow> uuid \<Rightarrow> string list \<Rightarrow>
    ('s device_manager, http_error, json) action" where
  "start_rollout_endpoint c S rollout_id now firmware_id target_devices =
     lift_status 404 (start_rollout c S rollout_id now firmware_id target_devices)"

definition get_rollout_status_endpoint :: "string \<Rightarrow> 's device_manager \<Rightarrow> http_error + json" where
  "get_rollout_status_endpoint rollout_id m =
     (case get_rollout_status rollout_id m of None \<Rightarrow> Inl (HTTPError 404) | Some r \<Rightarrow> Inr r)"

subsection \<open>Executions\<close>

datatype dm_op =
    OpCreate uuid time string string string json
  | OpUpdate time uuid json_object
  | OpDelete time uuid
  | OpRequest uuid time uuid
  | OpApprove time uuid string
  | OpRegister uuid time string string string string "string option"
  | OpRollout string time uuid "string list"

fun apply_op :: "codec \<Rightarrow> 's stream_server \<Rightarrow> dm_op \<Rightarrow> 's device_manager \<Rightarrow> 's device_manager" where
  "apply_op c S (OpCreate i now n t f md) m = fst (create_device c S i now n t f md m)"
| "apply_op c S (OpUpdate now i us) m = fst (update_device_endpoint c S now i us m)"
| "apply_op c S (OpDelete now i) m = fst (delete_device_endpoint c S now i m)"
| "apply_op c S (OpRequest i now d) m = fst (request_provisioning_endpoint c S i now d m)"
| "apply_op c S (OpApprove now i by) m = fst (approve_provisioning_endpoint c S now i by m)"
| "apply_op c S (OpRegister i now v t ch u rn) m = fst (register_firmware_endpoint i now v t ch u rn m)"
| "apply_op c S (OpRollout ri now i ts) m = fst (start_rollout_endpoint c S ri now i ts m)"

inductive dm_reachable :: "codec \<Rightarrow> 's stream_server \<Rightarrow> 's device_manager \<Rightarrow> 's device_manager \<Rightarrow> bool"
  for c :: codec and S :: "'s stream_server" and m0 :: "'s device_manager" where
  at_start: "dm_reachable c S m0 m0"
| op_step: "dm_reachable c S m0 m \<Longrightarrow> dm_reachable c S m0 (apply_op c S op m)"

definition dm_empty :: "'s \<Rightarrow> 's device_manager" where
  "dm_empty s = \<lparr>dm_devices = [], dm_requests = [], dm_firmware = [], dm_srv = s, dm_active_gauge = [], dm_rollouts = []\<rparr>"

definition dm_run :: "codec \<Rightarrow> 's stream_server \<Rightarrow> dm_op list \<Rightarrow> 's device_manager \<Rightarrow> 's device_manager" where
  "dm_run c S = fold (apply_op c S)"

subsection \<open>Tables\<close>

definition fw_key :: "firmware_version \<Rightarrow> string \<times> string" where
  "fw_key f = (fv_version f, fv_device_type f)"

definition dm_ok :: "'s device_manager \<Rightarrow> bool" where
  "dm_ok m \<longleftrightarrow> dall (\<lambda>k d. dv_id d = k) (dm_devices m) \<and> dall (\<lambda>k r. pq_id r = k) (dm_requests m) \<and>
     (\<forall>r \<in> set (dvalues (dm_requests m)). dhas (dm_devices m) (pq_device_id r)) \<and>
     (\<forall>d. length (pending_for d m) \<le> 1) \<and>
     distinct (map fw_key (dvalues (dm_firmware m)))"

lemma count_dset:
  "length [x \<leftarrow> dvalues (dset k v d). P x] \<le> length [x \<leftarrow> dvalues d. P x] + (if P v then 1 else 0)"
  by (induction d) auto

lemma dset_new: "\<not> dhas d k \<Longrightarrow> dset k v d = d @ [(k, v)]"
  by (induction d) (auto simp: dhas_def split: if_splits)

lemma dhas_dset: "dhas (dset k v d) j \<longleftrightarrow> j = k \<or> dhas d j"
  by (simp add: dhas_def)

lemma dhas_dmodify: "dhas (dmodify k f d) j \<longleftrightarrow> dhas d j"
  by (simp add: dhas_def)

lemma dmodify_all:
  "dall P d \<Longrightarrow> (\<And>k v. P k v \<Longrightarrow> P k (f v)) \<Longrightarrow> dall P (dmodify j f d)"
  by (rule dall_dmodify)

named_theorems dm_same "fields an operation leaves as they are"

lemma emit_same [dm_same]:
  "dm_devices (fst (emit S x m)) = dm_devices m" "dm_requests (fst (emit S x m)) = dm_requests m"
  "dm_firmware (fst (emit S x m)) = dm_firmware m" "dm_active_gauge (fst (emit S x m)) = dm_active_gauge m"
  by (simp_all add: emit_def split: prod.split sum.split)

lemma ebind_ret_fst [dm_same]: "fst (ebind f (\<lambda>_. ret x) m) = fst (f m)"
  by (simp add: ebind_def split: prod.split sum.split)

lemma lift_status_fst [dm_same]: "fst (lift_status n f m) = fst (f m)"
  by (simp add: lift_status_def split: prod.split sum.split)

lemma gauge_add_same [dm_same]:
  "dm_devices (gauge_add t n m) = dm_devices m" "dm_requests (gauge_add t n m) = dm_requests m"
  "dm_firmware (gauge_add t n m) = dm_firmware m"
  by (simp_all add: gauge_add_def)

text \<open>What each operation does to the tables: one of the listed writes, or nothing.\<close>

lemma create_tables:
  "(dm_devices (apply_op c S (OpCreate i now n t f md) m) = dm_devices m \<or>
    (\<not> dhas (dm_devices m) i \<and> (\<exists>d. dv_id d = i \<and> dv_status d = REGISTERED \<and>
       dm_devices (apply_op c S (OpCreate i now n t f md) m) = dset i d (dm_devices m)))) \<and>
   dm_requests (apply_op c S (OpCreate i now n t f md) m) = dm_requests m \<and>
   dm_firmware (apply_op c S (OpCreate i now n t f md) m) = dm_firmware m"
proof -
  define d where "d = \<lparr>dv_id = i, dv_name = n, dv_device_type = t, dv_status = REGISTERED,
               dv_firmware_version = f, dv_last_seen_at = None, dv_metadata = md,
               dv_created_at = now, dv_updated_at = now\<rparr>"
  show ?thesis
  proof (cases "column_ok d \<and> \<not> dhas (dm_devices m) i")
    case True
    let ?m = "m\<lparr>dm_devices := dset i d (dm_devices m)\<rparr>"
    let ?e = "emit_device_event c S now ''device_created'' (dv_id d)
              [(''name'', JStr (dv_name d)), (''device_type'', JStr (dv_device_type d))]"
    have "apply_op c S (OpCreate i now n t f md) m =
        fst (ebind ?e (\<lambda>_ m. ret d (gauge_add (dv_device_type d) 0 m)) ?m)"
      using True by (simp add: create_device_def repo_create_device_def Let_def d_def[symmetric])
    moreover obtain m' r where e: "?e ?m = (m', r)" by fastforce
    moreover have "dm_devices m' = dset i d (dm_devices m)" "dm_requests m' = dm_requests m" "dm_firmware m' = dm_firmware m"
      using e dm_same(1-3)[where m = ?m] by (auto simp: emit_device_event_def dest!: arg_cong[where f = fst])
    ultimately show ?thesis using True
      by (cases r) (auto simp: ebind_def gauge_add_same d_def intro!: exI[of _ d])
  next
    case False
    then have "repo_create_device i now n t f md m = (m, Inl DBError)"
      by (auto simp: repo_create_device_def Let_def d_def[symmetric])
    then show ?thesis by (simp add: create_device_def)
  qed
qed

lemma set_columns_id: "set_columns us d = Some d' \<Longrightarrow> dv_id d' = dv_id d"
proof (induction us arbitrary: d)
  case (Cons u us)
  then obtain e where "set_column u d = Some e" "set_columns us e = Some d'"
    by (auto simp: bind_eq_Some_conv)
  then show ?case using Cons.IH by (fastforce simp: set_column_def split: prod.splits if_splits)
qed simp

lemma set_columns_status:
  "set_columns us d = Some d' \<Longrightarrow> distinct (dkeys us) \<Longrightarrow>
   (case dget us ''status'' of None \<Rightarrow> dv_status d' = dv_status d
    | Some v \<Rightarrow> Option.bind (json_str v) parse_status = Some (dv_status d'))"
proof (induction us arbitrary: d)
  case (Cons u us)
  obtain col v where u: "u = (col, v)" by (cases u)
  obtain e where e: "set_column u d = Some e" "set_columns us e = Some d'"
    using Cons.prems(1) by (auto simp: bind_eq_Some_conv)
  show ?case
  proof (cases "col = ''status''")
    case True
    then have "dget us ''status'' = None" using Cons.prems(2) u by (simp add: map_of_eq_None_iff)
    then have "dv_status d' = dv_status e" using Cons.IH[OF e(2)] Cons.prems(2) by simp
    moreover have "Option.bind (json_str v) parse_status = Some (dv_status e)"
      using e(1) True u by (auto simp: set_column_def)
    ultimately show ?thesis using u True by simp
  next
    case False
    have eq: "dv_status e = dv_status d" using e(1) False u by (auto simp: set_column_def split: if_splits)
    have g: "dget (u # us) ''status'' = dget us ''status''" using u False by simp
    have d: "distinct (dkeys us)" using Cons.prems(2) by simp
    show ?thesis unfolding g eq[symmetric] by (rule Cons.IH[OF e(2) d])
  qed
qed simp

text \<open>The outcomes of an update.\<close>

lemma update_device_cases:
  obtains (same) r where "update_device c S now i us m = (m, r)"
      "r = Inr None \<and> dget (dm_devices m) i = None \<or> (\<exists>e. r = Inl e)"
    | (written) d d' s r where "dget (dm_devices m) i = Some d" "dv_status d \<noteq> DECOMMISSIONED"
        "set_columns us d = Some d'" "dm_devices (fst (update_device c S now i us m)) =
           dset i (d'\<lparr>dv_updated_at := now\<rparr>) (dm_devices m)"
        "dm_requests (fst (update_device c S now i us m)) = dm_requests m"
        "dm_firmware (fst (update_device c S now i us m)) = dm_firmware m"
        "dm_active_gauge (fst (update_device c S now i us m)) = dm_active_gauge m \<or>
         dm_active_gauge (fst (update_device c S now i us m)) =
             dset (dv_device_type d') (dget_or (dm_active_gauge m) (dv_device_type d') 0 + 1) (dm_active_gauge m) \<or>
         dv_status d' = ACTIVE \<and> (\<exists>v. dget us ''status'' = Some v \<and> v \<noteq> JStr (status_value ACTIVE))"
proof (cases "dget (dm_devices m) i")
  case None
  then have "update_device c S now i us m = (m, Inr None)" by (simp add: update_device_def repo_get_device_def)
  then show ?thesis using same None by blast
next
  case (Some d)
  show ?thesis
  proof (cases "dv_status d = DECOMMISSIONED")
    case True
    then have "update_device c S now i us m = (m, Inl ValueError)"
      using Some by (simp add: update_device_def repo_get_device_def)
    then show ?thesis using same by blast
  next
    case live: False
    show ?thesis
    proof (cases "\<exists>d'. set_columns us d = Some d' \<and> column_ok d'")
      case False
      then have "repo_update_device now i us m = (m, Inl DBError)"
        using Some by (auto simp: repo_update_device_def split: option.split)
      then have "update_device c S now i us m = (m, Inl DBError)"
        using Some live by (simp add: update_device_def repo_get_device_def)
      then show ?thesis using same by blast
    next
      case True
      then obtain d' where d': "set_columns us d = Some d'" "column_ok d'" by blast
      define x where "x = d'\<lparr>dv_updated_at := now\<rparr>"
      define m1 where "m1 = m\<lparr>dm_devices := dset i x (dm_devices m)\<rparr>"
      have r: "repo_update_device now i us m = (m1, Inr (Some x))"
        using Some d' by (simp add: repo_update_device_def Let_def x_def m1_def)
      obtain m2 q where q: "emit_device_event c S now ''device_updated'' (dv_id x) us m1 = (m2, q)" by fastforce
      have t: "dm_devices m2 = dset i x (dm_devices m)" "dm_requests m2 = dm_requests m"
        "dm_firmware m2 = dm_firmware m" "dm_active_gauge m2 = dm_active_gauge m"
        using arg_cong[OF q, of "\<lambda>p. dm_devices (fst p)"] arg_cong[OF q, of "\<lambda>p. dm_requests (fst p)"]
          arg_cong[OF q, of "\<lambda>p. dm_firmware (fst p)"] arg_cong[OF q, of "\<lambda>p. dm_active_gauge (fst p)"]
        by (simp_all add: emit_device_event_def emit_same m1_def)
      have y: "dv_status x = dv_status d'" "dv_device_type x = dv_device_type d'" by (simp_all add: x_def)
      have u: "fst (update_device c S now i us m) = (case q of Inl _ \<Rightarrow> m2 | Inr _ \<Rightarrow>
          (case dget us ''status'' of
                    None \<Rightarrow> m2
                  | Some new_status \<Rightarrow>
                      if new_status = JNull then m2
                      else if new_status = JStr (status_value ACTIVE)
                      then gauge_add (dv_device_type x) 1 m2
                      else if dv_status x = ACTIVE
                      then gauge_add (dv_device_type x) (-1) m2
                      else m2))"
        using Some live r q
        by (cases q) (simp_all add: update_device_def repo_get_device_def Let_def split: option.split)
      show ?thesis
        by (rule written[OF Some live d'(1)]; cases q)
          (auto simp: u t y gauge_add_def x_def[symmetric] split: option.split)
    qed
  qed
qed

lemma update_endpoint_fst:
  "fst (update_device_endpoint c S now i us m) =
     (if us = [] then m else fst (update_device c S now i (rename_metadata us) m))"
  by (auto simp: update_device_endpoint_def ebind_def lift_status_def split: prod.split sum.split option.split)

lemma delete_endpoint_fst:
  "fst (delete_device_endpoint c S now i m) = fst (delete_device c S now i m)"
  by (auto simp: delete_device_endpoint_def ebind_def lift_status_def split: prod.split sum.split)

lemma delete_tables:
  "(dm_devices (fst (delete_device c S now i m)) = dm_devices m \<or>
    (\<exists>d. dget (dm_devices m) i = Some d \<and> dv_status d \<noteq> ACTIVE \<and> dm_devices (fst (delete_device c S now i m)) =
       dset i (d\<lparr>dv_status := DECOMMISSIONED, dv_updated_at := now\<rparr>) (dm_devices m))) \<and>
   dm_requests (fst (delete_device c S now i m)) = dm_requests m \<and>
   dm_firmware (fst (delete_device c S now i m)) = dm_firmware m \<and>
   dm_active_gauge (fst (delete_device c S now i m)) = dm_active_gauge m"
  by (auto simp: delete_device_def repo_get_device_def repo_delete_device_def emit_device_event_def
      emit_same ebind_ret_fst split: option.split)

lemma request_tables:
  "dm_devices (fst (request_provisioning c S i now d m)) = dm_devices m \<and>
   dm_firmware (fst (request_provisioning c S i now d m)) = dm_firmware m \<and>
   dm_active_gauge (fst (request_provisioning c S i now d m)) = dm_active_gauge m \<and>
   (dm_requests (fst (request_provisioning c S i now d m)) = dm_requests m \<or>
    (\<exists>r. dhas (dm_devices m) d \<and> pending_for d m = [] \<and> pq_id r = i \<and> pq_device_id r = d \<and> \<not> dhas (dm_requests m) i \<and>
       dm_requests (fst (request_provisioning c S i now d m)) = dset i r (dm_requests m)))"
  by (auto simp: request_provisioning_def scalar_one_or_none_def Let_def ebind_ret_fst emit_same dhas_def
      split: option.split list.split
      intro!: exI[of _ "\<lparr>pq_id = i, pq_device_id = d, pq_status = PENDING, pq_requested_at = now,
        pq_approved_at = None, pq_approved_by = None\<rparr>"])

lemma approve_tables:
  "dm_firmware (fst (approve_provisioning c S now i a m)) = dm_firmware m \<and>
   dm_active_gauge (fst (approve_provisioning c S now i a m)) = dm_active_gauge m \<and>
   (dm_requests (fst (approve_provisioning c S now i a m)) = dm_requests m \<and>
    dm_devices (fst (approve_provisioning c S now i a m)) = dm_devices m \<or>
    (\<exists>r. dget (dm_requests m) i = Some r \<and> pq_status r = PENDING \<and>
       dm_requests (fst (approve_provisioning c S now i a m)) =
         dset i (r\<lparr>pq_status := APPROVED, pq_approved_at := Some now, pq_approved_by := Some a\<rparr>) (dm_requests m) \<and>
       dm_devices (fst (approve_provisioning c S now i a m)) =
         dmodify (pq_device_id r) (\<lambda>d. d\<lparr>dv_status := PROVISIONED, dv_updated_at := now\<rparr>) (dm_devices m)))"
  by (auto simp: approve_provisioning_def Let_def ebind_ret_fst emit_same split: option.split)

lemma register_tables:
  "dm_devices (fst (register_firmware i now v t ch u rn m)) = dm_devices m \<and>
   dm_requests (fst (register_firmware i now v t ch u rn m)) = dm_requests m \<and>
   dm_active_gauge (fst (register_firmware i now v t ch u rn m)) = dm_active_gauge m \<and>
   (dm_firmware (fst (register_firmware i now v t ch u rn m)) = dm_firmware m \<or>
    (\<exists>f. fw_key f = (v, t) \<and> (v, t) \<notin> fw_key ` set (dvalues (dm_firmware m)) \<and> \<not> dhas (dm_firmware m) i \<and>
       dm_firmware (fst (register_firmware i now v t ch u rn m)) = dset i f (dm_firmware m)))"
  by (auto simp: register_firmware_def scalar_one_or_none_def Let_def fw_key_def filter_empty_conv
      split: option.split list.split
      intro!: exI[of _ "\<lparr>fv_id = i, fv_version = v, fv_device_type = t, fv_checksum = ch,
        fv_file_url = u, fv_release_notes = rn, fv_created_at = now\<rparr>"])

lemma rollout_tables:
  "dm_devices (fst (start_rollout c S ri now i ts m)) = dm_devices m \<and>
   dm_requests (fst (start_rollout c S ri now i ts m)) = dm_requests m \<and>
   dm_firmware (fst (start_rollout c S ri now i ts m)) = dm_firmware m \<and>
   dm_active_gauge (fst (start_rollout c S ri now i ts m)) = dm_active_gauge m"
  by (auto simp: start_rollout_def Let_def ebind_ret_fst emit_same split: option.split)

subsection \<open>Invariant\<close>

lemma requests_exist:
  assumes "\<forall>r \<in> set (dvalues rq). dhas dv (pq_device_id r)" "dhas dv (pq_device_id x)"
  shows "\<forall>r \<in> set (dvalues (dset k x rq)). dhas dv (pq_device_id r)"
  using assms dset_values_subset[of k x rq] by blast

lemma dm_ok_step: "dm_ok m \<Longrightarrow> dm_ok (apply_op c S op m)"
proof (induction op)
  case (OpCreate i now n t f md)
  then show ?case using create_tables[of c S i now n t f md m]
    by (auto simp: dm_ok_def pending_for_def dhas_dset intro!: dall_dset simp del: apply_op.simps)
next
  case (OpUpdate now i us)
  show ?case
  proof (cases "us = []")
    case True
    then show ?thesis using OpUpdate by (simp add: update_endpoint_fst)
  next
    case False
    show ?thesis
    proof (rule update_device_cases[of c S now i "rename_metadata us" m])
      fix r assume "update_device c S now i (rename_metadata us) m = (m, r)"
      then show ?thesis using OpUpdate False by (simp add: update_endpoint_fst)
    next
      fix d d' assume d: "dget (dm_devices m) i = Some d" "set_columns (rename_metadata us) d = Some d'"
        and t: "dm_devices (fst (update_device c S now i (rename_metadata us) m)) = dset i (d'\<lparr>dv_updated_at := now\<rparr>) (dm_devices m)"
          "dm_requests (fst (update_device c S now i (rename_metadata us) m)) = dm_requests m"
          "dm_firmware (fst (update_device c S now i (rename_metadata us) m)) = dm_firmware m"
      have "dv_id d' = i" using set_columns_id[OF d(2)] d(1) OpUpdate by (auto simp: dm_ok_def dest: dall_get)
      then show ?thesis using OpUpdate False t
        by (auto simp: update_endpoint_fst dm_ok_def pending_for_def dhas_dset intro!: dall_dset)
    qed
  qed
next
  case (OpDelete now i)
  have i: "dv_id d = i" if "dget (dm_devices m) i = Some d" for d
    using that OpDelete dall_get[of "\<lambda>k d. dv_id d = k" "dm_devices m" i d] by (simp add: dm_ok_def)
  have "dm_devices (apply_op c S (OpDelete now i) m) = dm_devices m \<or>
    (\<exists>d. dget (dm_devices m) i = Some d \<and> dm_devices (apply_op c S (OpDelete now i) m) =
       dset i (d\<lparr>dv_status := DECOMMISSIONED, dv_updated_at := now\<rparr>) (dm_devices m))"
    "dm_requests (apply_op c S (OpDelete now i) m) = dm_requests m"
    "dm_firmware (apply_op c S (OpDelete now i) m) = dm_firmware m"
    using delete_tables[of c S now i m] by (auto simp: delete_endpoint_fst)
  then show ?case using OpDelete
    by (auto simp: dm_ok_def pending_for_def dhas_dset i intro!: dall_dset simp del: apply_op.simps)
next
  case (OpRequest i now d)
  let ?m = "apply_op c S (OpRequest i now d) m"
  have t: "dm_devices ?m = dm_devices m" "dm_firmware ?m = dm_firmware m"
    using request_tables[of c S i now d m] by (simp_all add: request_provisioning_endpoint_def lift_status_fst)
  have "dm_requests ?m = dm_requests m \<or>
    (\<exists>r. dhas (dm_devices m) d \<and> pending_for d m = [] \<and> pq_id r = i \<and> pq_device_id r = d \<and>
       dm_requests ?m = dset i r (dm_requests m))"
    using request_tables[of c S i now d m] by (auto simp: request_provisioning_endpoint_def lift_status_fst)
  then show ?case
  proof
    assume "dm_requests ?m = dm_requests m"
    then show ?thesis using OpRequest t by (simp add: dm_ok_def pending_for_def del: apply_op.simps)
  next
    assume "\<exists>r. dhas (dm_devices m) d \<and> pending_for d m = [] \<and> pq_id r = i \<and> pq_device_id r = d \<and>
       dm_requests ?m = dset i r (dm_requests m)"
    then obtain r where r: "dhas (dm_devices m) d" "pending_for d m = []" "pq_id r = i" "pq_device_id r = d"
      "dm_requests ?m = dset i r (dm_requests m)" by blast
    have "length (pending_for e ?m) \<le> 1" for e
    proof (cases "e = d")
      case True
      have "length (pending_for d ?m) \<le> length (pending_for d m) + 1"
        using count_dset[of "\<lambda>x. pq_device_id x = d \<and> pq_status x = PENDING" i r "dm_requests m"]
        unfolding pending_for_def r(5) by (auto split: if_splits)
      then show ?thesis using True r(2) by simp
    next
      case False
      then have "length (pending_for e ?m) \<le> length (pending_for e m)"
        using count_dset[of "\<lambda>x. pq_device_id x = e \<and> pq_status x = PENDING" i r "dm_requests m"] r
        by (simp add: pending_for_def del: apply_op.simps)
      then show ?thesis using OpRequest by (auto simp: dm_ok_def simp del: apply_op.simps intro: le_trans)
    qed
    then have p: "\<forall>d. length (pending_for d ?m) \<le> 1" by blast
    have a: "dall (\<lambda>k d. dv_id d = k) (dm_devices m)" and b: "dall (\<lambda>k r. pq_id r = k) (dm_requests m)"
      and q: "\<forall>r \<in> set (dvalues (dm_requests m)). dhas (dm_devices m) (pq_device_id r)"
      and f: "distinct (map fw_key (dvalues (dm_firmware m)))"
      using OpRequest unfolding dm_ok_def by blast+
    have "dhas (dm_devices m) (pq_device_id r)" using r(1,4) by simp
    from requests_exist[OF q this] dall_dset[of "\<lambda>k r. pq_id r = k", OF b r(3)] a p f
    show ?thesis unfolding dm_ok_def t r(5) by blast
  qed
next
  case (OpApprove now i a)
  let ?m = "apply_op c S (OpApprove now i a) m"
  have e: "?m = fst (approve_provisioning c S now i a m)"
    by (simp add: approve_provisioning_endpoint_def lift_status_fst)
  show ?case
  proof (cases "dm_requests ?m = dm_requests m \<and> dm_devices ?m = dm_devices m")
    case True
    then show ?thesis using OpApprove approve_tables[of c S now i a m] e
      by (simp add: dm_ok_def pending_for_def del: apply_op.simps)
  next
    case False
    then obtain r where r: "dget (dm_requests m) i = Some r"
        "dm_requests ?m = dset i (r\<lparr>pq_status := APPROVED, pq_approved_at := Some now, pq_approved_by := Some a\<rparr>) (dm_requests m)"
        "dm_devices ?m = dmodify (pq_device_id r) (\<lambda>d. d\<lparr>dv_status := PROVISIONED, dv_updated_at := now\<rparr>) (dm_devices m)"
        "dm_firmware ?m = dm_firmware m"
      using approve_tables[of c S now i a m] unfolding e by blast
    let ?r = "r\<lparr>pq_status := APPROVED, pq_approved_at := Some now, pq_approved_by := Some a\<rparr>"
    have "length (pending_for d ?m) \<le> length (pending_for d m)" for d
      using count_dset[of "\<lambda>x. pq_device_id x = d \<and> pq_status x = PENDING" i ?r "dm_requests m"] r
      by (simp add: pending_for_def del: apply_op.simps)
    then have p: "\<forall>d. length (pending_for d ?m) \<le> 1"
      using OpApprove by (auto simp: dm_ok_def simp del: apply_op.simps intro: le_trans)
    have "r \<in> set (dvalues (dm_requests m))" "pq_id r = i"
      using r(1) OpApprove by (auto simp: dm_ok_def dest: dget_in_values dall_get)
    have a: "dall (\<lambda>k d. dv_id d = k) (dm_devices m)" and b: "dall (\<lambda>k r. pq_id r = k) (dm_requests m)"
      and q: "\<forall>r \<in> set (dvalues (dm_requests m)). dhas (dm_devices m) (pq_device_id r)"
      and f: "distinct (map fw_key (dvalues (dm_firmware m)))"
      using OpApprove unfolding dm_ok_def by blast+
    from q have "dhas (dm_devices m) (pq_device_id ?r)"
      using \<open>r \<in> set (dvalues (dm_requests m))\<close> by (simp del: set_map)
    from requests_exist[OF q this, of i] have x:
      "\<forall>q \<in> set (dvalues (dset i ?r (dm_requests m))). dhas (dm_devices m) (pq_device_id q)" "pq_id ?r = i"
      using \<open>pq_id r = i\<close> by simp_all
    have "dall (\<lambda>k d. dv_id d = k)
        (dmodify (pq_device_id r) (\<lambda>d. d\<lparr>dv_status := PROVISIONED, dv_updated_at := now\<rparr>) (dm_devices m))"
      using a by (rule dall_dmodify) simp
    with dall_dset[of "\<lambda>k r. pq_id r = k", OF b x(2)] x(1) p f
    show ?thesis unfolding dm_ok_def r(2-4) dhas_dmodify by blast
  qed
next
  case (OpRegister i now v t ch u rn)
  let ?m = "apply_op c S (OpRegister i now v t ch u rn) m"
  have e: "?m = fst (register_firmware i now v t ch u rn m)"
    by (simp add: register_firmware_endpoint_def lift_status_fst)
  show ?case using OpRegister register_tables[of i now v t ch u rn m]
    unfolding dm_ok_def e pending_for_def by (auto simp: dset_new) (metis image_eqI snd_conv)
next
  case (OpRollout ri now i ts)
  have e: "apply_op c S (OpRollout ri now i ts) m = fst (start_rollout c S ri now i ts m)"
    by (simp add: start_rollout_endpoint_def lift_status_fst)
  show ?case using OpRollout rollout_tables[of c S ri now i ts m]
    unfolding dm_ok_def e pending_for_def by simp
qed

lemma dm_ok_empty: "dm_ok (dm_empty s)"
  by (simp add: dm_ok_def dm_empty_def pending_for_def)

lemma dm_ok_reachable: "dm_reachable c S m0 m \<Longrightarrow> dm_ok m0 \<Longrightarrow> dm_ok m"
  by (induction rule: dm_reachable.induct) (auto simp: dm_ok_step simp del: apply_op.simps)

subsection \<open>The life cycle\<close>

text \<open>A decommissioned device leaves that status only through the approval of a pending request.\<close>

definition revives :: "dm_op \<Rightarrow> uuid \<Rightarrow> 's device_manager \<Rightarrow> bool" where
  "revives op d m = (case op of OpApprove now i a \<Rightarrow>
     (case dget (dm_requests m) i of None \<Rightarrow> False | Some r \<Rightarrow> pq_device_id r = d \<and> pq_status r = PENDING) | _ \<Rightarrow> False)"

lemma decommissioned_stays:
  assumes "dget (dm_devices m) d = Some x" "dv_status x = DECOMMISSIONED" "\<not> revives op d m"
  shows "\<exists>y. dget (dm_devices (apply_op c S op m)) d = Some y \<and> dv_status y = DECOMMISSIONED"
proof (cases op)
  case (OpCreate i now n t f md)
  then show ?thesis using create_tables[of c S i now n t f md m] assms
    by (auto simp: dhas_def simp del: apply_op.simps)
next
  case (OpUpdate now i us)
  show ?thesis
  proof (cases "us = []")
    case False
    show ?thesis
      by (rule update_device_cases[of c S now i "rename_metadata us" m])
        (use OpUpdate False assms in \<open>auto simp: update_endpoint_fst\<close>)
  qed (use OpUpdate assms in \<open>simp add: update_endpoint_fst\<close>)
next
  case (OpDelete now i)
  then show ?thesis using delete_tables[of c S now i m] assms by (auto simp: delete_endpoint_fst)
next
  case (OpRequest i now e)
  then show ?thesis using request_tables[of c S i now e m] assms
    by (simp add: request_provisioning_endpoint_def lift_status_fst)
next
  case (OpApprove now i a)
  then show ?thesis using approve_tables[of c S now i a m] assms
    by (auto simp: approve_provisioning_endpoint_def lift_status_fst revives_def)
next
  case (OpRegister i now v t ch u rn)
  then show ?thesis using register_tables[of i now v t ch u rn m] assms
    by (simp add: register_firmware_endpoint_def lift_status_fst)
next
  case (OpRollout ri now i ts)
  then show ?thesis using rollout_tables[of c S ri now i ts m] assms
    by (simp add: start_rollout_endpoint_def lift_status_fst)
qed

lemma parse_status_value: "parse_status (status_value s) = Some s"
  by (cases s) (simp_all add: parse_status_def all_statuses_def status_value_def)

lemma parse_status_active: "parse_status s = Some ACTIVE \<Longrightarrow> s = status_value ACTIVE"
  by (auto simp: parse_status_def dest!: find_Some_in)

lemma rename_distinct: "distinct (dkeys us) \<Longrightarrow> distinct (dkeys (rename_metadata us))"
  by (auto simp: rename_metadata_def split: option.split)

text \<open>The gauge of active devices only grows: the branch that decrements it is never taken.\<close>

lemma gauge_update:
  assumes "distinct (dkeys us)"
  shows "dget_or (dm_active_gauge m) t 0 \<le> dget_or (dm_active_gauge (fst (update_device c S now i us m))) t 0"
proof (rule update_device_cases[of c S now i us m])
  fix d d' assume d: "set_columns us d = Some d'"
    and g: "dm_active_gauge (fst (update_device c S now i us m)) = dm_active_gauge m \<or>
         dm_active_gauge (fst (update_device c S now i us m)) =
             dset (dv_device_type d') (dget_or (dm_active_gauge m) (dv_device_type d') 0 + 1) (dm_active_gauge m) \<or>
         dv_status d' = ACTIVE \<and> (\<exists>v. dget us ''status'' = Some v \<and> v \<noteq> JStr (status_value ACTIVE))"
  have "\<not> (dv_status d' = ACTIVE \<and> (\<exists>v. dget us ''status'' = Some v \<and> v \<noteq> JStr (status_value ACTIVE)))"
  proof
    assume a: "dv_status d' = ACTIVE \<and> (\<exists>v. dget us ''status'' = Some v \<and> v \<noteq> JStr (status_value ACTIVE))"
    then obtain v where v: "dget us ''status'' = Some v" "v \<noteq> JStr (status_value ACTIVE)" by blast
    have "Option.bind (json_str v) parse_status = Some ACTIVE"
      using set_columns_status[OF d assms] v(1) a by simp
    then show False using v(2) parse_status_active by (auto simp: bind_eq_Some_conv json_str_Some)
  qed
  with g show ?thesis by auto
qed simp

text \<open>Stats: the total is the number of devices.\<close>

lemma filter_insert_length:
  "k \<notin> K \<Longrightarrow> length [r \<leftarrow> rows. f r \<in> insert k K] = length [r \<leftarrow> rows. f r = k] + length [r \<leftarrow> rows. f r \<in> K]"
  by (induction rows) auto

lemma group_sum:
  "distinct ks \<Longrightarrow> sum_list (map (\<lambda>k. length [r \<leftarrow> rows. f r = k]) ks) = length [r \<leftarrow> rows. f r \<in> set ks]"
proof (induction ks)
  case (Cons k ks)
  then show ?case using filter_insert_length[of k "set ks" f rows] by simp
qed simp

lemma group_count_total: "sum_list (dvalues (group_count f rows)) = length rows"
proof -
  have "sum_list (dvalues (group_count f rows)) = length [r \<leftarrow> rows. f r \<in> f ` set rows]"
    using group_sum[of "remdups (map f rows)" f rows] by (simp add: group_count_def comp_def)
  also have "[r \<leftarrow> rows. f r \<in> f ` set rows] = rows" by (simp add: filter_id_conv)
  finally show ?thesis .
qed

lemma group_count_get:
  "dget (group_count f rows) k = (if k \<in> f ` set rows then Some (length [r \<leftarrow> rows. f r = k]) else None)"
proof -
  have "map_of (map (\<lambda>k. (k, g k)) xs) k = (if k \<in> set xs then Some (g k) else None)" for g :: "_ \<Rightarrow> nat" and xs
    by (induction xs) auto
  then show ?thesis by (simp add: group_count_def)
qed

end
