(* ===== verification/DeviceProps.thy ===== *)
theory DeviceProps imports Devices begin

section \<open>Properties of the device manager\<close>

text \<open>
  The tables in every reachable state, the end of a device's life, and the gauge of active devices.
  Operations are executed one after the other, each with its own transaction.
\<close>

definition test_codec :: codec where
  "test_codec = \<lparr>cd_loads = (\<lambda>_. None), cd_dumps = (\<lambda>_. ''{}''), cd_isoformat = (\<lambda>_. ''t''),
     cd_fromisoformat = (\<lambda>_. None), cd_uuid = (\<lambda>_. None), cd_datetime = (\<lambda>_. None),
     cd_float_str = (\<lambda>_. ''''), cd_float = (\<lambda>_. None)\<rparr>"

subsection \<open>Tables\<close>


definition life_of_d :: "dm_op list" where
  "life_of_d = [OpCreate ''d'' 0 ''pump'' ''pressure_sensor'' ''1.0'' (JObj []), OpRequest ''r'' 1 ''d'',
     OpDelete 2 ''d'']"

lemma dm_run_reachable: "dm_reachable c S m0 m \<Longrightarrow> dm_reachable c S m0 (dm_run c S ops m)"
  by (induction ops arbitrary: m) (auto simp: dm_run_def intro: dm_reachable.op_step)


subsection \<open>Decommissioned devices\<close>

definition is_decommissioned :: "uuid \<Rightarrow> 's device_manager \<Rightarrow> bool" where
  "is_decommissioned d m \<longleftrightarrow> map_option dv_status (dget (dm_devices m) d) = Some DECOMMISSIONED"

lemma request_refused:
  "is_decommissioned d m \<Longrightarrow> apply_op c S (OpRequest i now d) m = m"
  by (auto simp: is_decommissioned_def request_provisioning_endpoint_def lift_status_def request_provisioning_def)

lemma pending_write:
  "pending_for d m = [] \<Longrightarrow> dm_requests m' = dset k r (dm_requests m) \<Longrightarrow>
   pq_device_id r \<noteq> d \<or> pq_status r \<noteq> PENDING \<Longrightarrow> pending_for d m' = []"
proof -
  assume a: "pending_for d m = []" "dm_requests m' = dset k r (dm_requests m)" "pq_device_id r \<noteq> d \<or> pq_status r \<noteq> PENDING"
  let ?P = "\<lambda>r. pq_device_id r = d \<and> pq_status r = PENDING"
  have "length (pending_for d m') \<le> length (pending_for d m) + (if ?P r then 1 else 0)"
    unfolding pending_for_def a(2) by (rule count_dset)
  then show ?thesis using a(1,3) by (auto split: if_splits)
qed

lemma pending_same: "dm_requests m' = dm_requests m \<Longrightarrow> pending_for d m' = pending_for d m"
  by (simp add: pending_for_def)

lemma no_new_pending:
  assumes "is_decommissioned d m" "pending_for d m = []"
  shows "pending_for d (apply_op c S op m) = []"
proof (cases op)
  case (OpCreate i now n t f md)
  then show ?thesis using create_tables[of c S i now n t f md m] assms pending_same by metis
next
  case (OpUpdate now i us)
  have "dm_requests (apply_op c S (OpUpdate now i us) m) = dm_requests m"
    by (rule update_device_cases[of c S now i "rename_metadata us" m]) (auto simp: update_endpoint_fst)
  then show ?thesis using OpUpdate assms pending_same by metis
next
  case (OpDelete now i)
  then show ?thesis using delete_tables[of c S now i m] assms(2)
    by (simp add: delete_endpoint_fst pending_for_def)
next
  case (OpRequest i now e)
  show ?thesis
  proof (cases "e = d")
    case True
    then show ?thesis using request_refused[OF assms(1)] OpRequest assms(2) by simp
  next
    case False
    have "dm_requests (apply_op c S op m) = dm_requests m \<or>
      (\<exists>r. pq_device_id r = e \<and> dm_requests (apply_op c S op m) = dset i r (dm_requests m))"
      using request_tables[of c S i now e m] OpRequest
      by (auto simp: request_provisioning_endpoint_def lift_status_fst)
    then show ?thesis using assms(2) False pending_same pending_write by metis
  qed
next
  case (OpApprove now i a)
  have "dm_requests (apply_op c S op m) = dm_requests m \<or>
    (\<exists>r. pq_status r = APPROVED \<and> dm_requests (apply_op c S op m) = dset i r (dm_requests m))"
  proof -
    have "dm_requests (apply_op c S op m) = dm_requests (fst (approve_provisioning c S now i a m))"
      using OpApprove by (simp add: approve_provisioning_endpoint_def lift_status_fst)
    moreover have "pq_status (r\<lparr>pq_status := APPROVED, pq_approved_at := x, pq_approved_by := y\<rparr>) = APPROVED" for r x y
      by simp
    ultimately show ?thesis using approve_tables[of c S now i a m] by metis
  qed
  then show ?thesis using assms(2) pending_same pending_write provisioning_status.distinct(1) by metis
next
  case (OpRegister i now v t ch u rn)
  then show ?thesis using register_tables[of i now v t ch u rn m] assms(2)
    by (simp add: register_firmware_endpoint_def lift_status_fst pending_for_def)
next
  case (OpRollout ri now i ts)
  then show ?thesis using rollout_tables[of c S ri now i ts m] assms(2)
    by (simp add: start_rollout_endpoint_def lift_status_fst pending_for_def)
qed

lemma nothing_pending:
  assumes "dall (\<lambda>k r. pq_id r = k) (dm_requests m)" "pending_for d m = []" shows "\<not> revives op d m"
proof -
  have "pq_device_id r \<noteq> d \<or> pq_status r \<noteq> PENDING" if "dget (dm_requests m) i = Some r" for i r
    using assms(2) dget_in_values[OF that] by (auto simp: pending_for_def filter_empty_conv)
  then show ?thesis by (auto simp: revives_def split: dm_op.split option.split)
qed

text \<open>A decommissioned device without a pending provisioning request is decommissioned for good:
  whatever operations follow, on it or on other devices, it keeps its row and that status.\<close>

theorem decommissioned_for_good:
  assumes "dm_reachable c S (dm_empty s) m" "is_decommissioned d m" "pending_for d m = []"
  shows "is_decommissioned d (dm_run c S ops m)"
  using assms
proof (induction ops arbitrary: m)
  case (Cons op ops)
  have "dall (\<lambda>k r. pq_id r = k) (dm_requests m)"
    using dm_ok_reachable[OF Cons.prems(1) dm_ok_empty] by (simp add: dm_ok_def)
  then have "\<not> revives op d m" using Cons.prems(3) by (rule nothing_pending)
  then have "is_decommissioned d (apply_op c S op m)"
    using decommissioned_stays[of m d _ op c S] Cons.prems(2) by (fastforce simp: is_decommissioned_def)
  then show ?case
    using Cons.IH[OF dm_reachable.op_step[OF Cons.prems(1)] _ no_new_pending[OF Cons.prems(2,3)]]
    by (simp add: dm_run_def)
qed (simp add: dm_run_def)

lemmas run_defs = dm_run_def dm_empty_def create_device_def repo_create_device_def column_ok_def
  emit_device_event_def emit_def gauge_add_def stream_add_def ref_streams_def rs_add_def streams_empty_def
  delete_device_endpoint_def delete_device_def repo_get_device_def repo_delete_device_def
  request_provisioning_endpoint_def request_provisioning_def approve_provisioning_endpoint_def
  approve_provisioning_def lift_status_def pending_for_def scalar_one_or_none_def ebind_def dhas_def
  dmodify_def Let_def

theorem decommissioned_for_good_witness:
  "is_decommissioned ''d'' (dm_run test_codec ref_streams [OpRequest ''r'' 3 ''d'', OpApprove 4 ''r'' ''root'']
     (dm_run test_codec ref_streams [OpCreate ''d'' 0 ''pump'' ''pressure_sensor'' ''1.0'' (JObj []), OpDelete 2 ''d'']
        (dm_empty streams_empty)))"
proof (rule decommissioned_for_good[OF dm_run_reachable[OF dm_reachable.at_start]])
  let ?m = "dm_run test_codec ref_streams [OpCreate ''d'' 0 ''pump'' ''pressure_sensor'' ''1.0'' (JObj []), OpDelete 2 ''d'']
        (dm_empty streams_empty)"
  show "is_decommissioned ''d'' ?m" "pending_for ''d'' ?m = []"
    by (simp_all add: run_defs is_decommissioned_def)
qed

text \<open>A request that was pending when the device was decommissioned can still be approved, and the
  approval puts the device back to PROVISIONED: the code checks the status of the request only.\<close>

theorem approval_revives_decommissioned:
  "is_decommissioned ''d'' (dm_run test_codec ref_streams life_of_d (dm_empty streams_empty)) \<and>
   map_option dv_status (dget (dm_devices (dm_run test_codec ref_streams (life_of_d @ [OpApprove 3 ''r'' ''root''])
     (dm_empty streams_empty))) ''d'') = Some PROVISIONED"
  by (simp add: run_defs life_of_d_def is_decommissioned_def)

subsection \<open>The gauge\<close>

lemma create_gauge:
  "dget_or (dm_active_gauge (fst (create_device c S i now n t f md m))) u 0 = dget_or (dm_active_gauge m) u 0"
proof -
  define d where "d = \<lparr>dv_id = i, dv_name = n, dv_device_type = t, dv_status = REGISTERED,
               dv_firmware_version = f, dv_last_seen_at = None, dv_metadata = md,
               dv_created_at = now, dv_updated_at = now\<rparr>"
  show ?thesis
  proof (cases "column_ok d \<and> \<not> dhas (dm_devices m) i")
    case True
    let ?m = "m\<lparr>dm_devices := dset i d (dm_devices m)\<rparr>"
    let ?e = "emit_device_event c S now ''device_created'' (dv_id d)
              [(''name'', JStr (dv_name d)), (''device_type'', JStr (dv_device_type d))]"
    have run: "create_device c S i now n t f md m = ebind ?e (\<lambda>_ m. ret d (gauge_add (dv_device_type d) 0 m)) ?m"
      using True by (simp add: create_device_def repo_create_device_def Let_def d_def[symmetric])
    obtain m' r where e: "?e ?m = (m', r)" by fastforce
    then have "dm_active_gauge m' = dm_active_gauge m"
      using emit_same(4)[where m = ?m] by (auto simp: emit_device_event_def dest!: arg_cong[where f = fst])
    then show ?thesis unfolding run using e by (cases r) (simp_all add: gauge_add_def)
  next
    case False
    then have "repo_create_device i now n t f md m = raise DBError m"
      unfolding repo_create_device_def Let_def d_def[symmetric] by (rule if_not_P)
    then show ?thesis by (simp add: create_device_def)
  qed
qed

text \<open>The gauge of active devices never goes down, whatever operations are executed: the branch of
  \<open>update_device\<close> that would decrement it compares the new status with itself.\<close>

theorem active_gauge_never_falls:
  assumes "\<forall>op \<in> set ops. case op of OpUpdate now i us \<Rightarrow> distinct (dkeys us) | _ \<Rightarrow> True"
  shows "dget_or (dm_active_gauge m) t 0 \<le> dget_or (dm_active_gauge (dm_run c S ops m)) t 0"
  using assms
proof (induction ops arbitrary: m)
  case (Cons op ops)
  have "dget_or (dm_active_gauge m) t 0 \<le> dget_or (dm_active_gauge (apply_op c S op m)) t 0"
  proof (cases op)
    case (OpCreate i now n t' f md)
    then show ?thesis using create_gauge[of c S i now n t' f md m t] by simp
  next
    case (OpUpdate now i us)
    then show ?thesis using gauge_update[of "rename_metadata us" m t c S now i] rename_distinct[of us] Cons.prems
      by (simp add: update_endpoint_fst)
  next
    case (OpDelete now i)
    then show ?thesis using delete_tables[of c S now i m] by (simp add: delete_endpoint_fst)
  next
    case (OpRequest i now e)
    then show ?thesis using request_tables[of c S i now e m]
      by (simp add: request_provisioning_endpoint_def lift_status_fst)
  next
    case (OpApprove now i a)
    then show ?thesis using approve_tables[of c S now i a m]
      by (simp add: approve_provisioning_endpoint_def lift_status_fst)
  next
    case (OpRegister i now v t' ch u rn)
    then show ?thesis using register_tables[of i now v t' ch u rn m]
      by (simp add: register_firmware_endpoint_def lift_status_fst)
  next
    case (OpRollout ri now i ts)
    then show ?thesis using rollout_tables[of c S ri now i ts m]
      by (simp add: start_rollout_endpoint_def lift_status_fst)
  qed
  moreover have "dget_or (dm_active_gauge (apply_op c S op m)) t 0 \<le>
      dget_or (dm_active_gauge (dm_run c S ops (apply_op c S op m))) t 0"
    using Cons.IH Cons.prems by simp
  ultimately show ?case by (simp add: dm_run_def)
qed (simp add: dm_run_def)

theorem active_gauge_never_falls_witness:
  "1 \<le> dget_or (dm_active_gauge (dm_run test_codec ref_streams
      [OpUpdate 2 ''d'' [(''status'', JStr ''inactive'')], OpDelete 3 ''d'']
      ((dm_empty streams_empty)\<lparr>dm_active_gauge := [(''pressure_sensor'', 1)]\<rparr>))) ''pressure_sensor'' 0"
  using active_gauge_never_falls[of "[OpUpdate 2 ''d'' [(''status'', JStr ''inactive'')], OpDelete 3 ''d'']"
      "(dm_empty streams_empty)\<lparr>dm_active_gauge := [(''pressure_sensor'', 1)]\<rparr>" "''pressure_sensor''"
      test_codec ref_streams] by (simp add: dget_or_def)

subsection \<open>Statistics\<close>

text \<open>The statistics count every device once: the total is the number of rows, and the entry of a
  type is the number of devices of that type.\<close>

theorem stats_count_devices:
  "ds_total (repo_get_stats m) = length (dm_devices m) \<and>
   dget_or (ds_by_type (repo_get_stats m)) t 0 = length [d \<leftarrow> dvalues (dm_devices m). dv_device_type d = t]"
proof
  show "ds_total (repo_get_stats m) = length (dm_devices m)"
    by (simp add: repo_get_stats_def Let_def group_count_total)
  let ?ds = "dvalues (dm_devices m)"
  have "dget_or (group_count dv_device_type ds) t 0 = length [d \<leftarrow> ds. dv_device_type d = t]" for ds :: "device list"
  proof (cases "t \<in> dv_device_type ` set ds")
    case False
    then have "[d \<leftarrow> ds. dv_device_type d = t] = []" by (auto simp: filter_empty_conv)
    then show ?thesis using False by (simp only: dget_or_def group_count_get if_False option.case list.size)
  qed (simp add: dget_or_def group_count_get)
  then show "dget_or (ds_by_type (repo_get_stats m)) t 0 = length [d \<leftarrow> ?ds. dv_device_type d = t]"
    by (simp only: repo_get_stats_def Let_def device_stats.simps)
qed

end
