(* ===== verification/PipelineProps.thy ===== *)
theory PipelineProps imports Ingestion Persistence Detector begin

section \<open>Properties of the telemetry pipeline\<close>

text \<open>
  From the MQTT subscriber to the table and to the alerts. The stream server and the database are
  arguments; their laws are the hypotheses \<open>stream_laws\<close> and \<open>transactions\<close>, and the witnesses use the
  reference server and database. \<open>demo_codec\<close> is a concrete codec for readings with an empty payload.
\<close>

definition demo_codec :: codec where
  "demo_codec = \<lparr>cd_loads = (\<lambda>s. if s = ''p'' then Some (JObj [(''payload'', JObj [])])
       else if s = ''m'' then Some (JObj [(''metadata'', JObj [])]) else None),
     cd_dumps = (\<lambda>j. case j of JObj ((k, _) # _) \<Rightarrow> take 1 k | _ \<Rightarrow> ''''),
     cd_isoformat = (\<lambda>t. nat_str (nat \<lfloor>t\<rfloor>)), cd_fromisoformat = (\<lambda>s. map_option of_nat (py_int s)),
     cd_uuid = json_str, cd_datetime = (\<lambda>_. None), cd_float_str = (\<lambda>_. ''''), cd_float = (\<lambda>_. None)\<rparr>"

definition demo_reading :: "string \<Rightarrow> telemetry_reading" where
  "demo_reading d = \<lparr>tr_device_id = d, tr_device_type = ''pressure_sensor'', tr_timestamp = 5,
     tr_payload = [], tr_metadata = []\<rparr>"

lemma demo_codec_ok: "reading_codec_ok demo_codec (demo_reading d)"
  by (simp add: reading_codec_ok_def demo_codec_def demo_reading_def json_str_def)

lemma demo_round_trip [simp]:
  "from_stream_dict demo_codec (to_stream_dict demo_codec (demo_reading d)) = Some (demo_reading d)"
  by (rule stream_dict_round_trip[OF demo_codec_ok])

subsection \<open>Reconnection\<close>

text \<open>A subscriber that keeps failing to connect waits 1, 2, 4, ... seconds between its attempts, and
  never more than a minute.\<close>

theorem reconnect_backoff:
  assumes "list_all failed_attempt as"
  shows "ms_sleeps (mqtt_run c S ml as (mqtt_new g)) = map (\<lambda>i. min (2 ^ i) 60) [0..<length as]"
  using failed_sleeps[OF assms, of "mqtt_new g" 0 c S ml] by (simp add: mqtt_new_def BASE_RECONNECT_DELAY_def)

definition no_ingest :: "streams ingest" where
  "no_ingest = \<lparr>ig_srv = streams_empty, ig_monitor = sm_new, ig_received = [], ig_published = 0\<rparr>"

theorem reconnect_backoff_witness:
  "ms_sleeps (mqtt_run demo_codec ref_streams 10
     (replicate 8 \<lparr>ma_connects = False, ma_events = [], ma_end = EndError\<rparr>) (mqtt_new no_ingest)) =
   [1, 2, 4, 8, 16, 32, 60, 60]"
  by (subst reconnect_backoff) (simp_all add: failed_attempt_def list_all_iff upt_rec)

subsection \<open>Active devices\<close>

text \<open>What happens to the monitor: a device reports, or the gauges are recomputed.\<close>

datatype monitor_event = Report time string string | Recompute time

fun monitor_step :: "monitor_event \<Rightarrow> stream_monitor \<Rightarrow> stream_monitor" where
  "monitor_step (Report now d t) m = record_device now d t m"
| "monitor_step (Recompute now) m = update_active_devices now m"

definition gauges_known :: "stream_monitor \<Rightarrow> bool" where
  "gauges_known m \<longleftrightarrow> sm_ok m \<and> (\<forall>t. dget (sm_active_devices m) t \<noteq> None \<longrightarrow> t \<in> set (sm_known_types m))"

lemma gauges_known_update: "gauges_known m \<Longrightarrow> gauges_known (update_active_devices now m)"
  unfolding gauges_known_def
proof (intro conjI allI impI)
  assume m: "sm_ok m \<and> (\<forall>t. dget (sm_active_devices m) t \<noteq> None \<longrightarrow> t \<in> set (sm_known_types m))"
  then show "sm_ok (update_active_devices now m)" by (simp add: sm_ok_update)
  fix t assume t: "dget (sm_active_devices (update_active_devices now m)) t \<noteq> None"
  show "t \<in> set (sm_known_types (update_active_devices now m))"
  proof (rule ccontr)
    assume n: "t \<notin> set (sm_known_types (update_active_devices now m))"
    then have "dget (sm_active_devices (update_active_devices now m)) t = dget (sm_active_devices m) t"
      by (simp add: update_active_devices_def Let_def fold_gauge_get)
    then show False using t m n known_types_grow[of m now] by auto
  qed
qed

lemma gauges_known_step: "gauges_known m \<Longrightarrow> gauges_known (monitor_step e m)"
  by (cases e) (simp_all add: gauges_known_update, simp add: gauges_known_def sm_ok_record, simp add: record_device_def)

lemma gauges_known_run: "gauges_known m \<Longrightarrow> gauges_known (fold monitor_step es m)"
  by (induction es arbitrary: m) (simp_all add: gauges_known_step)

text \<open>After any history of reports and recomputations, a recomputation leaves in the gauge of a device
  type exactly the number of devices whose last report was of that type and is at most a minute old:
  zero, not a stale number, for a type whose devices have all gone silent.\<close>

theorem active_devices_gauge:
  "let m = fold monitor_step es sm_new
   in dget_or (sm_active_devices (update_active_devices now m)) t 0 =
      length [(d, ty, seen) \<leftarrow> sm_last_seen m. ty = t \<and> now - seen \<le> 60]"
proof -
  define m where "m = fold monitor_step es sm_new"
  have "gauges_known sm_new" by (simp add: gauges_known_def sm_ok_new) (simp add: sm_new_def)
  then have m: "gauges_known m" unfolding m_def by (rule gauges_known_run)
  have cnt: "active_count now t m = length [(d, ty, seen) \<leftarrow> sm_last_seen m. ty = t \<and> now - seen \<le> 60]"
    by (simp add: active_count_def ACTIVE_WINDOW_SECONDS_def diff_le_eq le_diff_eq add.commute)
  have "dget_or (sm_active_devices (update_active_devices now m)) t 0 = active_count now t m"
  proof (cases "t \<in> set (sm_known_types (update_active_devices now m))")
    case True
    then show ?thesis using active_gauge[of m t now] m by (simp add: gauges_known_def dget_or_def)
  next
    case False
    then have "active_count now t m = 0" using active_known[of m now t] m by (auto simp: gauges_known_def)
    moreover have "dget (sm_active_devices (update_active_devices now m)) t = None"
      using False gauges_known_update[OF m, of now] by (auto simp: gauges_known_def)
    ultimately show ?thesis by (simp add: dget_or_def)
  qed
  then show ?thesis using cnt by (simp add: m_def)
qed

subsection \<open>Persistence\<close>


definition one_entry :: streams where
  "one_entry = fst (rs_add RAW_TELEMETRY (to_stream_dict demo_codec (demo_reading ''d1'')) None True streams_empty)"

definition demo_settings :: worker_settings where
  "demo_settings = \<lparr>ws_batch_size = 1, ws_flush_interval = 5, ws_consumer_name = ''w''\<rparr>"

definition empty_db :: ref_state where
  "empty_db = \<lparr>rd_rows = [], rd_open = []\<rparr>"

definition demo_run :: "(streams, ref_state) worker" where
  "demo_run = stream_to_postgres demo_codec (\<lambda>_. ''id'') ref_streams (ref_db schema_accepts) demo_settings 0
     [\<lparr>ce_cancelled = False, ce_now = 1, ce_after = 1\<rparr>] one_entry empty_db"

lemmas worker_defs = stream_to_postgres_def worker_new_def worker_cycle_def stream_read_group_def ref_streams_def
  rs_read_def rs_ack_def rs_add_def streams_empty_def stream_ack_def telemetry_to_record_def accumulate_def
  wk_emit_def should_flush_def flush_and_ack_def flush_in_session_def flush_def ref_db_def schema_accepts_def
  ack_pending_def shutdown_flush_def RAW_TELEMETRY_def DATA_PERSISTENCE_def Let_def

lemma nat_str_1: "nat_str (Suc 0) = ''1''"
  by code_simp

lemma demo_run_log: "acked (wk_log demo_run) = [''1'']"
  by (simp add: demo_run_def one_entry_def demo_settings_def empty_db_def worker_defs)
    (simp add: demo_reading_def acked_def nat_str_1)


text \<open>No entry is taken twice: in a run of the worker the ids that became records are distinct, and
  none of them was also dropped as malformed.\<close>

theorem no_entry_taken_twice:
  assumes "stream_laws S good entries delivered" "good s"
    and "w = stream_to_postgres c uuid4 S D cfg now envs s d"
  shows "distinct (map fst (buffered (wk_log w))) \<and> set (map fst (buffered (wk_log w))) \<inter> set (dropped (wk_log w)) = {}"
  using stream_laws.fresh_worker[OF assms(1,2), of c uuid4 D cfg now envs d] handled_distinct
  unfolding assms(3) stream_laws.fresh_def[OF assms(1)] by blast

lemma one_entry_good: "rs_good one_entry"
  by (simp add: one_entry_def rs_good_def rs_add_def streams_empty_def)

theorem no_entry_taken_twice_witness: "distinct (map fst (buffered (wk_log demo_run)))"
  using no_entry_taken_twice[OF rs.stream_laws_axioms one_entry_good demo_run_def] by blast

text \<open>A record that the database refuses blocks the worker: as long as it is in the buffer, no
  iteration writes a row or acknowledges a batch any more, whatever else arrives.\<close>

theorem poison_record_blocks:
  assumes "transactions D rows open_rows idle"
    and "\<forall>rs d. r \<in> set rs \<longrightarrow> (\<exists>d' e. db_execute D rs d = (d', Inl e))" "r \<in> set (wk_buffer w)"
  shows "rows (wk_db (worker_loop c uuid4 S D cfg envs w)) = rows (wk_db w) \<and>
    acked (wk_log (worker_loop c uuid4 S D cfg envs w)) = acked (wk_log w)"
  using transactions.refused_loop[OF assms(1) _ assms(3)] assms(2) by blast

definition long_type_record :: telemetry_record where
  "long_type_record = \<lparr>tc_id = ''id'', tc_device_id = ''d'', tc_device_type = replicate 51 (CHR ''x''),
     tc_timestamp = 0, tc_payload = [], tc_metadata = []\<rparr>"

theorem poison_record_blocks_witness:
  "rd_rows (wk_db (worker_loop demo_codec (\<lambda>_. ''id'') ref_streams (ref_db schema_accepts) demo_settings
     [\<lparr>ce_cancelled = False, ce_now = 1, ce_after = 1\<rparr>]
     ((worker_new one_entry empty_db 0)\<lparr>wk_buffer := [long_type_record]\<rparr>))) = []"
proof -
  have "\<forall>rs d. long_type_record \<in> set rs \<longrightarrow> (\<exists>d' e. db_execute (ref_db schema_accepts) rs d = (d', Inl e))"
    by (force simp: ref_db_def list_all_iff schema_accepts_def long_type_record_def)
  then show ?thesis
    using poison_record_blocks[OF ref_db.transactions_axioms[of schema_accepts], of long_type_record
        "(worker_new one_entry empty_db 0)\<lparr>wk_buffer := [long_type_record]\<rparr>"]
    by (simp add: worker_new_def empty_db_def del: worker_loop.simps)
qed

text \<open>C26. When the acknowledgement of a malformed entry raises, the entries read behind it in the same
  batch are lost: they count as delivered, and no later iteration or shutdown flush ever handles them.\<close>

theorem failed_ack_loses_entries:
  assumes "stream_laws S good entries delivered" "good s"
    and "w = worker_loop c uuid4 S D cfg envs (worker_new s d now)"
    and "stream_read_group S RAW_TELEMETRY DATA_PERSISTENCE (ws_consumer_name cfg) (ws_batch_size cfg) (wk_srv w) =
      (s1, Inr ((i, data) # es))"
    and "from_stream_dict c data = None" "stream_ack S RAW_TELEMETRY DATA_PERSISTENCE [i] s1 = (s2, Inl e)"
    and "x \<in> set (map fst es)"
  shows "x \<notin> set (handled (wk_log (shutdown_flush S D
    (worker_loop c uuid4 S D cfg envs' (worker_cycle c uuid4 S D cfg env w)))))"
proof -
  note L = assms(1)
  have "stream_laws.fresh good delivered (worker_new s d now)"
    using assms(2) by (simp add: stream_laws.fresh_def[OF L] worker_new_def)
  then have f: "stream_laws.fresh good delivered w"
    unfolding assms(3) by (rule stream_laws.fresh_loop[OF L])
  then have g: "good (wk_srv w)" by (simp add: stream_laws.fresh_def[OF L])
  have "stream_laws.skipped good delivered x (worker_cycle c uuid4 S D cfg env w)"
    by (rule stream_laws.failed_ack_skips[OF L g f assms(4-7)])
  then have "stream_laws.skipped good delivered x (shutdown_flush S D
    (worker_loop c uuid4 S D cfg envs' (worker_cycle c uuid4 S D cfg env w)))"
    by (intro stream_laws.skipped_shutdown[OF L] stream_laws.skipped_loop[OF L])
  then show ?thesis by (simp add: stream_laws.skipped_def[OF L])
qed

text \<open>A server whose acknowledgements always fail keeps the other laws.\<close>

definition no_ack_streams :: "streams stream_server" where
  "no_ack_streams = ref_streams\<lparr>sv_xack := (\<lambda>st g ids s. raise ConnectionError s)\<rparr>"

lemma no_ack_same:
  "stream_add no_ack_streams = stream_add ref_streams" "stream_read_group no_ack_streams = stream_read_group ref_streams"
  by (simp_all add: no_ack_streams_def stream_add_def stream_read_group_def fun_eq_iff)

interpretation no_ack: stream_laws no_ack_streams rs_good rs_view rs_delivered
proof (unfold_locales, goal_cases)
  case (1 s st f m ap s' i) then show ?case unfolding no_ack_same by (rule rs.add_ok)
next
  case (2 s st f ml ap s' r) then show ?case unfolding no_ack_same by (rule rs.add_keeps)
next
  case (3 s st g c n s' es) then show ?case unfolding no_ack_same by (rule rs.read_ok)
next
  case (4 s st g c n s' q) then show ?case unfolding no_ack_same by (rule rs.read_keeps)
next
  case (5 s st g ids s' a) then show ?case by (simp add: no_ack_streams_def stream_ack_def)
qed

definition bad_then_good :: streams where
  "bad_then_good = fst (rs_add RAW_TELEMETRY (to_stream_dict demo_codec (demo_reading ''d1'')) None True
     (fst (rs_add RAW_TELEMETRY [] None True streams_empty)))"

theorem failed_ack_loses_entries_witness:
  "''2'' \<notin> set (handled (wk_log (shutdown_flush no_ack_streams (ref_db schema_accepts)
     (worker_loop demo_codec (\<lambda>_. ''id'') no_ack_streams (ref_db schema_accepts) (demo_settings\<lparr>ws_batch_size := 9\<rparr>)
        [\<lparr>ce_cancelled = False, ce_now = 2, ce_after = 2\<rparr>]
        (worker_cycle demo_codec (\<lambda>_. ''id'') no_ack_streams (ref_db schema_accepts) (demo_settings\<lparr>ws_batch_size := 9\<rparr>)
           \<lparr>ce_cancelled = False, ce_now = 1, ce_after = 1\<rparr> (worker_new bad_then_good empty_db 0))))))"
proof -
  have good: "rs_good bad_then_good"
    by (auto simp: bad_then_good_def rs_good_def rs_add_def streams_empty_def)
  have n2: "nat_str 2 = ''2''" by code_simp
  obtain s1 where read: "stream_read_group no_ack_streams RAW_TELEMETRY DATA_PERSISTENCE ''w'' 9 bad_then_good =
      (s1, Inr ((''1'', []) # [(''2'', to_stream_dict demo_codec (demo_reading ''d1''))]))"
    by (simp add: no_ack_same bad_then_good_def worker_defs numeral_2_eq_2[symmetric] nat_str_1 n2)
  show ?thesis
    by (rule failed_ack_loses_entries[OF no_ack.stream_laws_axioms good, where envs = "[]" and d = empty_db
          and now = 0 and i = "''1''" and data = "[]" and ?s2.0 = s1 and e = ConnectionError
          and es = "[(''2'', to_stream_dict demo_codec (demo_reading ''d1''))]"])
      (use read in \<open>simp_all add: worker_new_def demo_settings_def from_stream_dict_def no_ack_streams_def stream_ack_def\<close>)
qed

subsection \<open>Features\<close>

lemma clip_mono: "x \<le> y \<Longrightarrow> clip x \<le> clip y"
  by (simp add: clip_def max.coboundedI2 min.coboundedI2)

text \<open>The deviation of a reading from the history of its device cannot be moved by a minority of
  outliers: with a full history of which more than half of the first values lie in an interval, the third
  feature is between the scaled distances to the ends of the interval. The row has its fixed length and
  every entry is clipped.\<close>

theorem deviation_feature_robust:
  assumes "extract_row c r x = (x', Some row)" "fx_values c r = Some (a, b)"
    and "fx_scale x (tr_device_type r) 0 = Some (m, s)"
    and "hist = map fst (dget_or (fx_windows x) (tr_device_id r) [])" "MIN_HISTORY \<le> length hist"
    and "2 * length [v \<leftarrow> hist. \<not> (l \<le> v \<and> v \<le> u)] < length hist"
  shows "clip ((a - u) / s) \<le> row ! 2 \<and> row ! 2 \<le> clip ((a - l) / s) \<and>
    length row = 7 \<and> (\<forall>v \<in> set row. \<bar>v\<bar> \<le> 1000)"
proof -
  have med: "l \<le> median hist \<and> median hist \<le> u" using assms(6) by (rule median_robust)
  have s: "0 < s" using assms(3) by (rule scale_positive)
  obtain m' s' where "fx_scale x (tr_device_type r) 1 = Some (m', s')"
    using assms(1) by (auto simp: extract_row_def Let_def assms(2,3) split: option.splits prod.splits)
  then have "row ! 2 = clip ((a - median hist) / s)"
    using assms(1,5) by (auto simp: extract_row_def Let_def assms(2-4))
  moreover have "(a - u) / s \<le> (a - median hist) / s" "(a - median hist) / s \<le> (a - l) / s"
    using med s by (simp_all add: divide_le_cancel)
  moreover have "row_ok row" using assms(1) by (rule extract_row_shape)
  ultimately show ?thesis using clip_mono
    by (auto simp: row_ok_def N_FEATURES_def DEVICE_TYPES_def SENSOR_FIELDS_def FEATURE_CLIP_def abs_le_iff)
qed

definition seen_five :: feature_extractor where
  "seen_five = (fx_new 20 None)\<lparr>fx_windows := [(''d1'', [(1, 0), (2, 0), (900, 0), (2, 0), (1, 0)])]\<rparr>"

lemma demo_values: "fx_values demo_codec (demo_reading d) = Some (0, 0)"
  by (simp add: fx_values_def demo_reading_def SENSOR_FIELDS_def numeral_2_eq_2 Let_def)

lemma demo_scale: "fx_stats x = JObj [] \<Longrightarrow> fx_scale x (tr_device_type (demo_reading d)) i = Some (0, 1)"
  by (simp add: fx_scale_def json_dict_def demo_reading_def SENSOR_FIELDS_def falsy_def)

lemma demo_row:
  assumes "fx_stats x = JObj []" obtains x' row where "extract_row demo_codec (demo_reading d) x = (x', Some row)"
  using that by (simp add: extract_row_def demo_values demo_scale[OF assms] Let_def)

lemma demo_stats: "fx_stats (fx_new 20 None) = JObj []" "fx_stats seen_five = JObj []"
  by (simp_all add: fx_new_def seen_five_def)

theorem deviation_feature_robust_witness:
  "let row = the (snd (extract_row demo_codec (demo_reading ''d1'') seen_five)) in - 2 \<le> row ! 2 \<and> row ! 2 \<le> - 1"
proof -
  obtain x' row where run: "extract_row demo_codec (demo_reading ''d1'') seen_five = (x', Some row)"
    by (rule demo_row[OF demo_stats(2)])
  have "clip ((0 - 2) / 1) \<le> row ! 2 \<and> row ! 2 \<le> clip ((0 - 1) / 1) \<and> length row = 7 \<and> (\<forall>v \<in> set row. \<bar>v\<bar> \<le> 1000)"
    by (rule deviation_feature_robust[OF run demo_values demo_scale[OF demo_stats(2)] refl])
      (simp_all add: seen_five_def demo_reading_def MIN_HISTORY_def dget_or_def)
  then show ?thesis by (simp add: run clip_def FEATURE_CLIP_def)
qed

subsection \<open>Anomaly detection\<close>

text \<open>C11. The score of a calibrated model: every reconstruction error gets a score in the unit interval,
  below one, and the score passes one half exactly when the error passes the calibrated threshold.\<close>

theorem score_calibrated:
  assumes "predict e rows = Inr errors" "0 < ie_error_threshold e" "list_all (\<lambda>x. 0 \<le> x) errors"
  shows "\<exists>scores. score e rows = Inr (map Num scores) \<and> length scores = length errors \<and>
    (\<forall>i < length errors. 0 \<le> scores ! i \<and> scores ! i < 1 \<and>
       (1 / 2 < scores ! i \<longleftrightarrow> ie_error_threshold e < errors ! i))"
proof -
  let ?scores = "map (anomaly_score (ie_error_threshold e)) errors"
  have "score e rows = Inr (map Num ?scores)" using score_eq[OF assms] by (simp add: o_def)
  moreover have "\<forall>i < length errors. 0 \<le> errors ! i" using assms(3) by (simp add: list_all_length)
  then have "0 \<le> ?scores ! i \<and> ?scores ! i < 1 \<and> (1 / 2 < ?scores ! i \<longleftrightarrow> ie_error_threshold e < errors ! i)"
    if "i < length errors" for i
    using anomaly_score_unit[OF _ assms(2)] anomaly_score_half[OF _ assms(2)] that by (simp only: nth_map)
  ultimately show ?thesis by (intro exI[of _ ?scores]) auto
qed

definition demo_engine :: inference_engine where
  "demo_engine = engine_init\<lparr>ie_session := Some (\<lambda>rows. Some (replicate (length rows) 3)),
     ie_model_version := JStr ''7'', ie_error_threshold := 1\<rparr>"

lemma demo_predict: "predict demo_engine rows = Inr (replicate (length rows) 3)"
  by (simp add: predict_def demo_engine_def engine_init_def)

theorem score_calibrated_witness:
  "\<exists>v. score demo_engine [[0]] = Inr [Num v] \<and> 1 / 2 < v \<and> v < 1"
proof -
  obtain scores where "score demo_engine [[0]] = Inr (map Num scores)" "length scores = 1"
    "0 \<le> scores ! 0" "scores ! 0 < 1" "1 / 2 < scores ! 0"
    using score_calibrated[OF demo_predict[of "[[0]]"]] by (auto simp: demo_engine_def)
  then show ?thesis by (cases scores) auto
qed

text \<open>C10. A batch whose scores are in the unit interval is answered with one pipeline: an alert for each
  reading whose score is above the threshold, in the order of the batch, critical above 0.9 and a warning
  else, then the acknowledgement of every entry of the batch, the malformed ones included.\<close>

theorem batch_sends_expected_alerts:
  assumes "extract_batch c es (dt_extractor d) = (x, rs)"
    and "rs \<noteq> [] \<longrightarrow> score (dt_engine d) (map snd rs) = Inr (map Num vs)"
    and "length vs = length rs" "\<forall>v \<in> set vs. 0 \<le> v \<and> v \<le> 1"
    and "ie_model_version (dt_engine d) = JStr version"
  shows "dt_srv (fst (process_batch c uuid4 S cfg now es d)) =
    fst (pipe_run S (expected_alerts c uuid4 now cfg version (dt_uuids d) (zip (map fst rs) vs) @
      [PXack RAW_TELEMETRY ML_INFERENCE (map fst es)]) (dt_srv d))"
  using process_batch_sends[OF assms(1) _ assms(3-5), of uuid4 S cfg now] assms(2) by blast

definition demo_detector :: "streams detector" where
  "demo_detector = \<lparr>dt_srv = streams_empty, dt_engine = demo_engine, dt_extractor = fx_new 20 None, dt_running = True,
     dt_uuids = 0, dt_anomalies = [], dt_consumed = 0\<rparr>"

definition demo_cfg :: detector_settings where
  "demo_cfg = \<lparr>ds_anomaly_threshold = 1/2, ds_alerts_stream_max_len = 100, ds_batch_size = 10, ds_consumer_name = ''c''\<rparr>"

theorem batch_sends_expected_alerts_witness:
  "length (sr_log (dt_srv (fst (process_batch demo_codec (\<lambda>_. ''id'') ref_streams demo_cfg 5
     [(''1'', to_stream_dict demo_codec (demo_reading ''d1'')), (''2'', [])] demo_detector))) ALERTS) = 1"
proof -
  let ?r = "demo_reading ''d1''"
  let ?es = "[(''1'', to_stream_dict demo_codec ?r), (''2'', [])]"
  obtain x row where run: "extract_row demo_codec ?r (fx_new 20 None) = (x, Some row)"
    by (rule demo_row[OF demo_stats(1)])
  have b: "extract_batch demo_codec ?es (dt_extractor demo_detector) = (x, [(?r, row)])"
    by (simp add: demo_detector_def run from_stream_dict_def[of _ "[]"])
  have "score (dt_engine demo_detector) [row] = Inr [Num (3/4)]"
    using score_eq[OF demo_predict, of "[row]"] by (simp add: demo_detector_def demo_engine_def anomaly_score_def)
  then have "dt_srv (fst (process_batch demo_codec (\<lambda>_. ''id'') ref_streams demo_cfg 5 ?es demo_detector)) =
    fst (pipe_run ref_streams (expected_alerts demo_codec (\<lambda>_. ''id'') 5 demo_cfg ''7'' (dt_uuids demo_detector)
        (zip (map fst [(?r, row)]) [3/4]) @ [PXack RAW_TELEMETRY ML_INFERENCE (map fst ?es)]) (dt_srv demo_detector))"
    by (intro batch_sends_expected_alerts[OF b]) (simp_all add: demo_detector_def demo_engine_def)
  then show ?thesis
    by (simp add: demo_cfg_def demo_detector_def ref_streams_def rs_add_def rs_ack_def streams_empty_def keep_last_def)
qed

text \<open>A batch that fails before its pipeline is executed (no model, a failing session, an alert that
  does not validate) leaves the server as it was: no alert of it is sent and none of its entries is
  acknowledged.\<close>

theorem failed_batch_sends_nothing:
  assumes "process_batch c uuid4 S cfg now es d = (d', Inl e)" "e \<noteq> StoreError"
  shows "dt_srv d' = dt_srv d"
  using process_batch_error[OF assms] .

theorem failed_batch_sends_nothing_witness:
  "dt_srv (fst (process_batch demo_codec (\<lambda>_. ''id'') ref_streams demo_cfg 5
     [(''1'', to_stream_dict demo_codec (demo_reading ''d1''))] (demo_detector\<lparr>dt_engine := engine_init\<rparr>))) = streams_empty"
proof -
  let ?r = "demo_reading ''d1''" and ?d = "demo_detector\<lparr>dt_engine := engine_init\<rparr>"
  obtain x row where run: "extract_row demo_codec ?r (fx_new 20 None) = (x, Some row)"
    by (rule demo_row[OF demo_stats(1)])
  obtain d' where b: "process_batch demo_codec (\<lambda>_. ''id'') ref_streams demo_cfg 5
     [(''1'', to_stream_dict demo_codec ?r)] ?d = (d', Inl NoModelLoaded)"
    by (simp add: process_batch_def demo_detector_def run score_def predict_def engine_init_def)
  show ?thesis using failed_batch_sends_nothing[OF b] b by (simp add: demo_detector_def)
qed

text \<open>A hot swap is not atomic: when the sidecar of the new model has no usable error threshold, the
  swap reports a failure but the new session is already in place, scored with the old threshold and
  reported under the old version.\<close>

theorem failed_swap_mixes_models:
  assumes "me_session E w p = Some s" "me_read_metadata E w (sidecar p) = Some (JObj m)"
    and "Option.bind (dget m ''error_threshold'') (to_float c) = None" "hot_swap c E w now p e = (e', r)"
  shows "r = Inl LoadError \<and> ie_session e' = Some s \<and> ie_error_threshold e' = ie_error_threshold e \<and>
    ie_model_version e' = ie_model_version e"
  using assms by (auto simp: hot_swap_def load_model_def json_dict_def)

definition bad_sidecar :: "unit model_env" where
  "bad_sidecar = \<lparr>me_read_metadata = (\<lambda>_ _. Some (JObj [])), me_session = (\<lambda>_ _. Some (\<lambda>_. None)),
     me_onnx_files = (\<lambda>_ _. []), me_exists = (\<lambda>_ _. True), me_latest = raise (), me_download = (\<lambda>_ _. raise ()),
     me_str = (\<lambda>_. [])\<rparr>"

theorem failed_swap_mixes_models_witness:
  "predict (fst (hot_swap demo_codec bad_sidecar () 0 ''m.onnx'' demo_engine)) [[0]] = Inl SessionError \<and>
   predict demo_engine [[0]] = Inr [3]"
  using failed_swap_mixes_models[of bad_sidecar "()" "''m.onnx''" "\<lambda>_. None" "[]" demo_codec 0 demo_engine, OF _ _ _ surjective_pairing]
  by (simp add: bad_sidecar_def predict_def[of "fst _"] demo_predict)

end
