(* ===== verification/CsvText.thy ===== *)
theory CsvText imports Telemetry begin

section \<open>CSV text\<close>

text \<open>
  What \<open>batch_analytics/services/result_store.py\<close> uses of Python's \<open>csv\<close> module: rows with the default
  dialect (a comma, minimal quoting, doubled quotes, CR LF at the end), \<open>DictWriter\<close> with its check
  for unknown keys, and \<open>str\<close> of a value. A reader for the same format is the specification of the
  writer. The texts of floats and of nested containers are the argument \<open>repr\<close>.
\<close>

abbreviation COMMA :: char where "COMMA \<equiv> CHR 0x2C"
abbreviation QUOTE :: char where "QUOTE \<equiv> CHR 0x22"
abbreviation CR :: char where "CR \<equiv> CHR 0x0D"
abbreviation LF :: char where "LF \<equiv> CHR 0x0A"

definition csv_special :: "char \<Rightarrow> bool" where
  "csv_special c \<longleftrightarrow> c = COMMA \<or> c = QUOTE \<or> c = CR \<or> c = LF"

fun csv_escape :: "string \<Rightarrow> string" where
  "csv_escape [] = []"
| "csv_escape (c # cs) = (if c = QUOTE then [QUOTE, QUOTE] else [c]) @ csv_escape cs"

definition csv_field :: "string \<Rightarrow> string" where
  "csv_field s = (if list_ex csv_special s then QUOTE # csv_escape s @ [QUOTE] else s)"

fun csv_join :: "string list \<Rightarrow> string" where
  "csv_join [] = []"
| "csv_join [s] = csv_field s"
| "csv_join (s # t # ts) = csv_field s @ COMMA # csv_join (t # ts)"

text \<open>A record of one empty field is written as two quotes, to tell it from an empty line.\<close>

definition csv_line :: "string list \<Rightarrow> string" where
  "csv_line fs = (if fs = [[]] then [QUOTE, QUOTE] else csv_join fs) @ [CR, LF]"

definition csv_lines :: "string list list \<Rightarrow> string" where
  "csv_lines rows = concat (map csv_line rows)"

subsection \<open>The reader\<close>

datatype csv_mode = Start_row | Start_field | In_field | In_quotes | Quote_seen

fun csv_parse :: "csv_mode \<Rightarrow> string \<Rightarrow> string list \<Rightarrow> string \<Rightarrow> string list list" where
  "csv_parse m f r [] = (if m = Start_row then [] else [rev (rev f # r)])"
| "csv_parse m f r (c # cs) =
     (if m = In_quotes then
        if c = QUOTE then csv_parse Quote_seen f r cs else csv_parse In_quotes (c # f) r cs
      else if c = CR then csv_parse m f r cs
      else if c = LF then (if m = Start_row then [] else rev (rev f # r)) # csv_parse Start_row [] [] cs
      else if c = COMMA then csv_parse Start_field [] (rev f # r) cs
      else if c = QUOTE \<and> m = Quote_seen then csv_parse In_quotes (c # f) r cs
      else if c = QUOTE \<and> m \<noteq> In_field then csv_parse In_quotes f r cs
      else csv_parse In_field (c # f) r cs)"

definition csv_read :: "string \<Rightarrow> string list list" where
  "csv_read s = csv_parse Start_row [] [] s"

lemma csv_parse_plain:
  assumes "\<not> list_ex csv_special s" and "m \<noteq> In_quotes" and "m \<noteq> Quote_seen" and "s \<noteq> []"
  shows "csv_parse m f r (s @ t) = csv_parse In_field (rev s @ f) r t"
  using assms
proof (induction s arbitrary: m f)
  case (Cons c cs)
  have "csv_parse m f r ((c # cs) @ t) = csv_parse In_field (c # f) r (cs @ t)"
    using Cons.prems by (simp add: csv_special_def)
  also have "\<dots> = csv_parse In_field (rev (c # cs) @ f) r t"
    using Cons by (cases "cs = []") (simp_all add: csv_special_def)
  finally show ?case .
qed simp

lemma csv_parse_quoted: "csv_parse In_quotes f r (csv_escape s @ t) = csv_parse In_quotes (rev s @ f) r t"
  by (induction s arbitrary: f) auto

lemma csv_parse_field:
  assumes "m = Start_row \<or> m = Start_field"
  shows "\<exists>m'. csv_parse m [] r (csv_field s @ t) = csv_parse m' (rev s) r t \<and>
    m' \<noteq> In_quotes \<and> (m' = Start_row \<longrightarrow> m = Start_row \<and> s = [])"
proof (cases "list_ex csv_special s")
  case True
  have "csv_parse m [] r (csv_field s @ t) = csv_parse In_quotes [] r (csv_escape s @ QUOTE # t)"
    using True assms by (auto simp: csv_field_def)
  also have "\<dots> = csv_parse Quote_seen (rev s) r t" by (simp add: csv_parse_quoted)
  finally show ?thesis by blast
next
  case False
  then show ?thesis
    using assms csv_parse_plain[OF False, of m "[]" r t]
    by (cases "s = []") (auto simp: csv_field_def)
qed

lemma csv_parse_join:
  assumes "m = Start_row \<or> m = Start_field" and "fs \<noteq> []" and "m = Start_row \<longrightarrow> fs \<noteq> [[]]"
  shows "csv_parse m [] r (csv_join fs @ CR # LF # t) = (rev r @ fs) # csv_parse Start_row [] [] t"
  using assms
proof (induction fs arbitrary: m r rule: csv_join.induct)
  case (2 s)
  obtain m' where m': "csv_parse m [] r (csv_field s @ CR # LF # t) = csv_parse m' (rev s) r (CR # LF # t)"
    "m' \<noteq> In_quotes" "m' = Start_row \<longrightarrow> m = Start_row \<and> s = []"
    using csv_parse_field[OF 2(1)] by blast
  then have "m' \<noteq> Start_row" using 2(3) by auto
  then show ?case using m' by simp
next
  case (3 s u us)
  obtain m' where m': "csv_parse m [] r (csv_field s @ COMMA # csv_join (u # us) @ CR # LF # t) =
      csv_parse m' (rev s) r (COMMA # csv_join (u # us) @ CR # LF # t)" "m' \<noteq> In_quotes"
    using csv_parse_field[OF 3(2)] by blast
  then show ?case using 3(1)[of Start_field "s # r"] by simp
qed simp

lemma csv_parse_line: "csv_parse Start_row [] [] (csv_line fs @ t) = fs # csv_parse Start_row [] [] t"
proof (cases "fs = [] \<or> fs = [[]]")
  case True
  then show ?thesis by (auto simp: csv_line_def)
next
  case False
  then show ?thesis using csv_parse_join[of Start_row fs "[]" t] by (simp add: csv_line_def)
qed

lemma csv_read_lines [simp]: "csv_read (csv_lines rows) = rows"
  unfolding csv_read_def csv_lines_def by (induction rows) (simp_all add: csv_parse_line)

subsection \<open>Values and dictionaries\<close>

definition py_str :: "(json \<Rightarrow> string) \<Rightarrow> json \<Rightarrow> string" where
  "py_str repr v = (case v of JNull \<Rightarrow> ''None'' | JBool b \<Rightarrow> (if b then ''True'' else ''False'')
     | JInt i \<Rightarrow> (if i < 0 then CHR ''-'' # nat_str (nat (- i)) else nat_str (nat i)) | JStr s \<Rightarrow> s
     | _ \<Rightarrow> repr v)"

definition csv_text :: "(json \<Rightarrow> string) \<Rightarrow> json \<Rightarrow> string" where
  "csv_text repr v = (case v of JNull \<Rightarrow> [] | _ \<Rightarrow> py_str repr v)"

text \<open>
  \<open>DictWriter.writerow\<close>: an object that is no dict or has a key outside the field names raises; a
  missing key is written as the empty string.
\<close>

datatype csv_error = NotADict | ExtraKeys

definition dict_row :: "(json \<Rightarrow> string) \<Rightarrow> string list \<Rightarrow> json \<Rightarrow> csv_error + string list" where
  "dict_row repr fieldnames v = (case v of
     JObj d \<Rightarrow> if list_all (\<lambda>k. k \<in> set fieldnames) (dkeys d)
       then Inr (map (\<lambda>k. case dget d k of None \<Rightarrow> [] | Some x \<Rightarrow> csv_text repr x) fieldnames)
       else Inl ExtraKeys
   | _ \<Rightarrow> Inl NotADict)"

fun dict_rows :: "(json \<Rightarrow> string) \<Rightarrow> string list \<Rightarrow> json list \<Rightarrow> csv_error + string list list" where
  "dict_rows repr fieldnames [] = Inr []"
| "dict_rows repr fieldnames (v # vs) =
     (case dict_row repr fieldnames v of Inl e \<Rightarrow> Inl e
      | Inr r \<Rightarrow> (case dict_rows repr fieldnames vs of Inl e \<Rightarrow> Inl e | Inr rs \<Rightarrow> Inr (r # rs)))"

definition dict_csv :: "(json \<Rightarrow> string) \<Rightarrow> string list \<Rightarrow> json list \<Rightarrow> csv_error + string" where
  "dict_csv repr fieldnames vs =
     map_sum id (\<lambda>rs. csv_lines (fieldnames # rs)) (dict_rows repr fieldnames vs)"

lemma dict_rows_uniform:
  assumes "\<forall>d \<in> set ds. set (dkeys d) \<subseteq> set fieldnames"
  shows "dict_rows repr fieldnames (map JObj ds) =
    Inr (map (\<lambda>d. map (\<lambda>k. case dget d k of None \<Rightarrow> [] | Some x \<Rightarrow> csv_text repr x) fieldnames) ds)"
  using assms by (induction ds) (auto simp: dict_row_def list_all_iff)

end
