(* ===== verification/BatchJobs.thy ===== *)
theory BatchJobs imports Jobs CsvText begin

section \<open>Batch jobs\<close>

text \<open>
  \<open>batch_analytics/services/job_runner.py\<close>, \<open>services/result_store.py\<close> and the endpoints of
  \<open>routers/jobs.py\<close> and \<open>routers/results.py\<close>. \<open>_execute_job\<close> runs in a pool thread while the endpoints
  run in the event loop: the thread of a job is a program counter, and each of its assignments to the
  shared job object or to the store is one step. A cancellation is two steps, the endpoint's test of
  the status and the write of \<open>cancel_job\<close>. The four Spark modules are an argument.
\<close>

record spark_job =
  sj_job_id :: string
  sj_job_type :: string
  sj_status :: job_status
  sj_params :: json_object
  sj_result_summary :: "json option"
  sj_created_at :: time
  sj_completed_at :: "time option"
  sj_error_message :: "string option"
  sj_rows_processed :: json

record spark_modules =
  run_sensor_aggregation :: "json_object \<Rightarrow> string + json_object"
  run_anomaly_report :: "json_object \<Rightarrow> string + json_object"
  run_device_health :: "json_object \<Rightarrow> string + json_object"
  run_trend_analysis :: "json_object \<Rightarrow> string + json_object"

text \<open>Where the thread of a job is.\<close>

datatype thread = Queued | Computing | Returned json_object | Storing json_object | Summarising json_object
  | Counting json_object | Completing | Raised string | Failing string | Explaining string | Stamping | Ended

record job_service =
  js_jobs :: "(string, spark_job) dict"
  js_results :: "(string, json_object) dict"
  js_threads :: "(string, thread) dict"
  js_cancelling :: "string list"
  js_ids :: nat

definition job_service_new :: job_service where
  "job_service_new = \<lparr>js_jobs = [], js_results = [], js_threads = [], js_cancelling = [], js_ids = 0\<rparr>"

subsection \<open>Submission\<close>

definition VALID_JOB_TYPES :: "string list" where
  "VALID_JOB_TYPES = [''sensor_aggregation'', ''anomaly_report'', ''device_health'', ''trend_analysis'']"

definition submit_job :: "(nat \<Rightarrow> string) \<Rightarrow> time \<Rightarrow> string \<Rightarrow> json_object \<Rightarrow> job_service \<Rightarrow> job_service \<times> spark_job" where
  "submit_job uuid4 now job_type params s =
     (let j = uuid4 (js_ids s);
          job = \<lparr>sj_job_id = j, sj_job_type = job_type, sj_status = Pending, sj_params = params,
                 sj_result_summary = None, sj_created_at = now, sj_completed_at = None,
                 sj_error_message = None, sj_rows_processed = JInt 0\<rparr>
      in (s\<lparr>js_jobs := dset j job (js_jobs s), js_threads := dset j Queued (js_threads s),
            js_ids := js_ids s + 1\<rparr>, job))"

definition submit_job_endpoint :: "(nat \<Rightarrow> string) \<Rightarrow> time \<Rightarrow> string \<Rightarrow> json_object \<Rightarrow>
    (job_service, http_error, spark_job) action" where
  "submit_job_endpoint uuid4 now job_type params s =
     (if job_type \<notin> set VALID_JOB_TYPES then raise (HTTPError 400) s
      else case submit_job uuid4 now job_type params s of (s, job) \<Rightarrow> ret job s)"

subsection \<open>Execution\<close>

definition dispatch :: "spark_modules \<Rightarrow> string \<Rightarrow> json_object \<Rightarrow> string + json_object" where
  "dispatch mods job_type params =
     (if job_type = ''sensor_aggregation'' then run_sensor_aggregation mods params
      else if job_type = ''anomaly_report'' then run_anomaly_report mods params
      else if job_type = ''device_health'' then run_device_health mods params
      else if job_type = ''trend_analysis'' then run_trend_analysis mods params
      else Inl (''Unknown job type: '' @ job_type))"

definition with_job :: "string \<Rightarrow> (spark_job \<Rightarrow> spark_job) \<Rightarrow> job_service \<Rightarrow> job_service" where
  "with_job j f s = s\<lparr>js_jobs := dmodify j f (js_jobs s)\<rparr>"

definition goto :: "string \<Rightarrow> thread \<Rightarrow> job_service \<Rightarrow> job_service" where
  "goto j pc s = s\<lparr>js_threads := dset j pc (js_threads s)\<rparr>"

definition store_result :: "string \<Rightarrow> json_object \<Rightarrow> job_service \<Rightarrow> job_service" where
  "store_result j r s = s\<lparr>js_results := dset j r (js_results s)\<rparr>"

text \<open>What the thread does next, given its job object.\<close>

definition execute_step :: "spark_modules \<Rightarrow> time \<Rightarrow> string \<Rightarrow> spark_job \<Rightarrow> thread \<Rightarrow> job_service \<Rightarrow> job_service" where
  "execute_step mods now j job pc s = (case pc of
     Queued \<Rightarrow> goto j Computing (with_job j (sj_status_update (\<lambda>_. Running)) s)
   | Computing \<Rightarrow>
       goto j (case dispatch mods (sj_job_type job) (sj_params job) of Inr r \<Rightarrow> Returned r | Inl e \<Rightarrow> Raised e) s
   | Returned r \<Rightarrow> goto j (if sj_status job = Cancelled then Ended else Storing r) s
   | Storing r \<Rightarrow> goto j (Summarising r) (store_result j r s)
   | Summarising r \<Rightarrow>
       goto j (Counting r) (with_job j (sj_result_summary_update (\<lambda>_. Some (dget_or r ''summary'' (JObj r)))) s)
   | Counting r \<Rightarrow>
       goto j Completing (with_job j (sj_rows_processed_update (\<lambda>_. dget_or r ''rows_processed'' (JInt 0))) s)
   | Completing \<Rightarrow> goto j Stamping (with_job j (sj_status_update (\<lambda>_. Completed)) s)
   | Raised e \<Rightarrow> goto j (if sj_status job = Cancelled then Ended else Failing e) s
   | Failing e \<Rightarrow> goto j (Explaining e) (with_job j (sj_status_update (\<lambda>_. Failed)) s)
   | Explaining e \<Rightarrow> goto j Stamping (with_job j (sj_error_message_update (\<lambda>_. Some e)) s)
   | Stamping \<Rightarrow> goto j Ended (with_job j (sj_completed_at_update (\<lambda>_. Some now)) s)
   | Ended \<Rightarrow> s)"

definition execute_job :: "spark_modules \<Rightarrow> time \<Rightarrow> string \<Rightarrow> job_service \<Rightarrow> job_service" where
  "execute_job mods now j s = (case (dget (js_jobs s) j, dget (js_threads s) j) of
     (Some job, Some pc) \<Rightarrow> execute_step mods now j job pc s
   | _ \<Rightarrow> s)"

subsection \<open>Cancellation and queries\<close>

definition cancel_job :: "time \<Rightarrow> string \<Rightarrow> job_service \<Rightarrow> job_service" where
  "cancel_job now j s = with_job j (\<lambda>job. job\<lparr>sj_status := Cancelled, sj_completed_at := Some now\<rparr>) s"

text \<open>The endpoint up to its call of \<open>cancel_job\<close>.\<close>

definition cancel_job_endpoint :: "string \<Rightarrow> (job_service, http_error, unit) action" where
  "cancel_job_endpoint j s = (case dget (js_jobs s) j of
     None \<Rightarrow> raise (HTTPError 404) s
   | Some job \<Rightarrow> if sj_status job \<notin> {Pending, Running} then raise (HTTPError 409) s
       else ret () (s\<lparr>js_cancelling := j # js_cancelling s\<rparr>))"

definition list_jobs :: "job_service \<Rightarrow> spark_job list" where
  "list_jobs s = newest_first sj_created_at (dvalues (js_jobs s))"

definition get_job_endpoint :: "string \<Rightarrow> job_service \<Rightarrow> http_error + spark_job" where
  "get_job_endpoint j s = (case dget (js_jobs s) j of None \<Rightarrow> Inl (HTTPError 404) | Some job \<Rightarrow> Inr job)"

text \<open>\<open>ResultStore.to_csv\<close>: None without results; the inner sum is what the writer raises.\<close>

definition results_csv :: "(json \<Rightarrow> string) \<Rightarrow> json_object \<Rightarrow> csv_error + string" where
  "results_csv repr results = (case dget results ''rows'' of
     Some (JArr (JObj d # rows)) \<Rightarrow> dict_csv repr (dkeys d) (JObj d # rows)
   | Some (JArr (v # rows)) \<Rightarrow> Inr (csv_lines ([''value''] # map (\<lambda>x. [csv_text repr x]) (v # rows)))
   | _ \<Rightarrow> (case dget_or results ''summary'' (JObj results) of
       JObj d \<Rightarrow> dict_csv repr (dkeys d) [JObj d]
     | v \<Rightarrow> Inr (csv_lines [[''result''], [py_str repr v]])))"

definition to_csv :: "(json \<Rightarrow> string) \<Rightarrow> (string, json_object) dict \<Rightarrow> string \<Rightarrow> (csv_error + string) option" where
  "to_csv repr store j = map_option (results_csv repr) (dget store j)"

definition delete_results :: "string \<Rightarrow> (string, json_object) dict \<Rightarrow> (string, json_object) dict \<times> bool" where
  "delete_results j store = (if dhas store j then (ddel j store, True) else (store, False))"

text \<open>A \<open>ValueError\<close> of the writer is a 500.\<close>

definition completed_job :: "string \<Rightarrow> job_service \<Rightarrow> http_error + spark_job" where
  "completed_job j s = (case dget (js_jobs s) j of
     None \<Rightarrow> Inl (HTTPError 404)
   | Some job \<Rightarrow> if sj_status job \<noteq> Completed then Inl (HTTPError 409) else Inr job)"

definition get_results :: "string \<Rightarrow> job_service \<Rightarrow> http_error + (string \<times> string \<times> json \<times> json_object)" where
  "get_results j s = (case completed_job j s of Inl e \<Rightarrow> Inl e
   | Inr job \<Rightarrow> (case dget (js_results s) j of None \<Rightarrow> Inl (HTTPError 404)
       | Some results \<Rightarrow> Inr (j, sj_job_type job, sj_rows_processed job, results)))"

definition download_results :: "(json \<Rightarrow> string) \<Rightarrow> string \<Rightarrow> job_service \<Rightarrow> http_error + (string \<times> string)" where
  "download_results repr j s = (case completed_job j s of Inl e \<Rightarrow> Inl e
   | Inr job \<Rightarrow> (case to_csv repr (js_results s) j of None \<Rightarrow> Inl (HTTPError 404)
       | Some (Inl _) \<Rightarrow> Inl (HTTPError 500)
       | Some (Inr csv_content) \<Rightarrow> Inr (sj_job_type job @ ''_'' @ j @ ''.csv'', csv_content)))"

subsection \<open>The running service\<close>

text \<open>Requests and steps of threads in any order; a rejected request leaves the state as it is.\<close>

datatype job_event = Submit time string json_object | Thread time string spark_modules
  | CancelRequest string | CancelWrite time string

definition job_event :: "(nat \<Rightarrow> string) \<Rightarrow> job_event \<Rightarrow> job_service \<Rightarrow> job_service" where
  "job_event uuid4 e s = (case e of
     Submit now ty params \<Rightarrow> fst (submit_job_endpoint uuid4 now ty params s)
   | Thread now j mods \<Rightarrow> execute_job mods now j s
   | CancelRequest j \<Rightarrow> fst (cancel_job_endpoint j s)
   | CancelWrite now j \<Rightarrow> if j \<in> set (js_cancelling s)
       then cancel_job now j (s\<lparr>js_cancelling := remove1 j (js_cancelling s)\<rparr>) else s)"

definition job_run :: "(nat \<Rightarrow> string) \<Rightarrow> job_event list \<Rightarrow> job_service \<Rightarrow> job_service" where
  "job_run uuid4 es s = fold (job_event uuid4) es s"

lemma job_run_simps [simp]:
  "job_run u [] s = s" "job_run u (e # es) s = job_run u es (job_event u e s)"
  "job_run u (es @ fs) s = job_run u fs (job_run u es s)"
  by (simp_all add: job_run_def)

subsection \<open>Invariant\<close>

definition holds_result :: "json_object option \<Rightarrow> spark_job \<Rightarrow> bool" where
  "holds_result ro job \<longleftrightarrow> (\<exists>r. ro = Some r \<and> sj_result_summary job = Some (dget_or r ''summary'' (JObj r)) \<and>
     sj_rows_processed job = dget_or r ''rows_processed'' (JInt 0))"

text \<open>What a job's thread has done for the stored result \<open>ro\<close> of the job.\<close>

definition thread_inv :: "json_object option \<Rightarrow> spark_job \<Rightarrow> thread \<Rightarrow> bool" where
  "thread_inv ro job pc \<longleftrightarrow>
     (case pc of Summarising r \<Rightarrow> ro = Some r
      | Counting r \<Rightarrow> ro = Some r \<and> sj_result_summary job = Some (dget_or r ''summary'' (JObj r))
      | Completing \<Rightarrow> holds_result ro job | Stamping \<Rightarrow> True | Ended \<Rightarrow> True | _ \<Rightarrow> ro = None) \<and>
     (sj_status job = Completed \<longrightarrow> pc \<in> {Stamping, Ended} \<and> holds_result ro job)"

definition job_inv :: "(nat \<Rightarrow> string) \<Rightarrow> job_service \<Rightarrow> bool" where
  "job_inv u s \<longleftrightarrow> (\<forall>j. case dget (js_jobs s) j of
     None \<Rightarrow> dget (js_results s) j = None
   | Some job \<Rightarrow> (\<exists>n < js_ids s. j = u n) \<and> sj_job_id job = j \<and> sj_job_type job \<in> set VALID_JOB_TYPES \<and>
       (\<exists>pc. dget (js_threads s) j = Some pc \<and> thread_inv (dget (js_results s) j) job pc))"

lemma job_invD:
  "job_inv u s \<Longrightarrow> dget (js_jobs s) j = Some job \<Longrightarrow>
   (\<exists>n < js_ids s. j = u n) \<and> sj_job_id job = j \<and> sj_job_type job \<in> set VALID_JOB_TYPES \<and>
   (\<exists>pc. dget (js_threads s) j = Some pc \<and> thread_inv (dget (js_results s) j) job pc)"
  unfolding job_inv_def by (drule spec[where x = j]) simp

lemma job_inv_noneD: "job_inv u s \<Longrightarrow> dget (js_jobs s) j = None \<Longrightarrow> dget (js_results s) j = None"
  unfolding job_inv_def by (drule spec[where x = j]) simp

lemma job_inv_cancelling [simp]: "job_inv u (s\<lparr>js_cancelling := xs\<rparr>) = job_inv u s"
  by (simp add: job_inv_def cong: option.case_cong)

text \<open>A step that touches one job keeps the invariant when it keeps it for that job.\<close>

lemma job_inv_change:
  assumes "job_inv u s" and "js_ids s \<le> js_ids s'"
    and "\<And>k. k \<noteq> j \<Longrightarrow> dget (js_jobs s') k = dget (js_jobs s) k \<and> dget (js_threads s') k = dget (js_threads s) k \<and>
      dget (js_results s') k = dget (js_results s) k"
    and "dget (js_jobs s') j = Some job" and "\<exists>n < js_ids s'. j = u n" and "sj_job_id job = j"
    and "sj_job_type job \<in> set VALID_JOB_TYPES" and "dget (js_threads s') j = Some pc"
    and "thread_inv (dget (js_results s') j) job pc"
  shows "job_inv u s'"
  unfolding job_inv_def
proof (rule allI)
  fix k
  show "case dget (js_jobs s') k of None \<Rightarrow> dget (js_results s') k = None
   | Some job \<Rightarrow> (\<exists>n < js_ids s'. k = u n) \<and> sj_job_id job = k \<and> sj_job_type job \<in> set VALID_JOB_TYPES \<and>
       (\<exists>pc. dget (js_threads s') k = Some pc \<and> thread_inv (dget (js_results s') k) job pc)"
  proof (cases "k = j")
    case True
    then show ?thesis using assms by simp
  next
    case False
    note eq = assms(3)[OF False]
    show ?thesis
    proof (cases "dget (js_jobs s) k")
      case (Some job')
      then have "\<exists>n < js_ids s'. k = u n" using job_invD[OF assms(1) Some] assms(2) by (meson order_less_le_trans)
      then show ?thesis using job_invD[OF assms(1) Some] eq Some by simp
    qed (simp add: eq job_inv_noneD[OF assms(1)])
  qed
qed

text \<open>The three shapes of a step: an assignment, none, and the write to the store.\<close>

lemma job_inv_assign:
  assumes "job_inv u s" and "dget (js_jobs s) j = Some job" and "thread_inv (dget (js_results s) j) (f job) pc"
    and "sj_job_id (f job) = sj_job_id job" and "sj_job_type (f job) = sj_job_type job"
  shows "job_inv u (goto j pc (with_job j f s))"
  using job_invD[OF assms(1,2)] assms(2-)
  by (intro job_inv_change[OF assms(1), where j = j and job = "f job" and pc = pc])
    (simp_all add: goto_def with_job_def)

lemma job_inv_goto:
  assumes "job_inv u s" and "dget (js_jobs s) j = Some job" and "thread_inv (dget (js_results s) j) job pc"
  shows "job_inv u (goto j pc s)"
  using job_invD[OF assms(1,2)] assms(2-)
  by (intro job_inv_change[OF assms(1), where j = j and job = job and pc = pc]) (simp_all add: goto_def)

lemma job_inv_store:
  assumes "job_inv u s" and "dget (js_jobs s) j = Some job" and "thread_inv (Some r) job pc"
  shows "job_inv u (goto j pc (store_result j r s))"
  using job_invD[OF assms(1,2)] assms(2-)
  by (intro job_inv_change[OF assms(1), where j = j and job = job and pc = pc])
    (simp_all add: goto_def store_result_def)

lemma execute_step_inv:
  assumes inv: "job_inv u s" and j: "dget (js_jobs s) j = Some job" and pc: "dget (js_threads s) j = Some pc"
  shows "job_inv u (execute_step mods now j job pc s)"
proof -
  have t: "thread_inv (dget (js_results s) j) job pc" using job_invD[OF inv j] pc by auto
  note intros = job_inv_assign[OF inv j] job_inv_goto[OF inv j] job_inv_store[OF inv j]
  show ?thesis
    using t inv
    by (cases pc) (auto simp: execute_step_def thread_inv_def holds_result_def split: sum.splits intro!: intros)
qed

lemma job_event_inv:
  assumes "inj u" and inv: "job_inv u s"
  shows "job_inv u (job_event u e s)"
proof (cases e)
  case (Submit now ty params)
  have fresh: "dget (js_jobs s) (u (js_ids s)) = None"
    using job_invD[OF inv] \<open>inj u\<close> by (cases "dget (js_jobs s) (u (js_ids s))") (auto dest: injD)
  let ?job = "\<lparr>sj_job_id = u (js_ids s), sj_job_type = ty, sj_status = Pending, sj_params = params,
    sj_result_summary = None, sj_created_at = now, sj_completed_at = None, sj_error_message = None,
    sj_rows_processed = JInt 0\<rparr>"
  have "job_inv u (fst (submit_job u now ty params s))" if "ty \<in> set VALID_JOB_TYPES"
    using that job_inv_noneD[OF inv fresh]
    by (intro job_inv_change[OF inv, where j = "u (js_ids s)" and job = ?job and pc = Queued])
      (auto simp: submit_job_def Let_def thread_inv_def)
  then show ?thesis using inv Submit
    by (auto simp: job_event_def submit_job_endpoint_def split: prod.splits)
next
  case (Thread now j mods)
  then show ?thesis
    using inv execute_step_inv[OF inv]
    by (auto simp: job_event_def execute_job_def split: option.splits)
next
  case (CancelRequest j)
  then show ?thesis
    using inv by (auto simp: job_event_def cancel_job_endpoint_def split: option.splits)
next
  case (CancelWrite now j)
  let ?s = "s\<lparr>js_cancelling := remove1 j (js_cancelling s)\<rparr>"
  have inv': "job_inv u ?s" using inv by simp
  have "job_inv u (cancel_job now j ?s)"
  proof (cases "dget (js_jobs s) j")
    case None
    then show ?thesis using inv' by (simp add: cancel_job_def with_job_def dmodify_def)
  next
    case (Some job)
    obtain pc where "dget (js_threads s) j = Some pc" "thread_inv (dget (js_results s) j) job pc"
      using job_invD[OF inv Some] by blast
    then show ?thesis
      using job_invD[OF inv Some] Some
      by (intro job_inv_change[OF inv', where j = j and pc = pc
            and job = "job\<lparr>sj_status := Cancelled, sj_completed_at := Some now\<rparr>"])
        (auto simp: cancel_job_def with_job_def thread_inv_def holds_result_def split: thread.splits)
  qed
  then show ?thesis using inv CancelWrite by (simp add: job_event_def)
qed

lemma job_run_inv: "inj u \<Longrightarrow> job_inv u s \<Longrightarrow> job_inv u (job_run u es s)"
  by (induction es arbitrary: s) (auto intro: job_event_inv)

lemma threads_have_jobs:
  assumes "inj u" and "dget (js_threads (job_run u es job_service_new)) j = Some pc"
  shows "\<exists>job. dget (js_jobs (job_run u es job_service_new)) j = Some job"
proof -
  have step: "dget (js_jobs (job_event u e s)) j \<noteq> None \<or> dget (js_threads (job_event u e s)) j = None"
    if "dget (js_jobs s) j \<noteq> None \<or> dget (js_threads s) j = None" for e s
    using that
    by (cases e) (auto simp: job_event_def submit_job_endpoint_def submit_job_def Let_def execute_job_def
        execute_step_def goto_def with_job_def store_result_def cancel_job_endpoint_def cancel_job_def
        split: option.splits thread.splits)
  have "dget (js_jobs s) j \<noteq> None \<or> dget (js_threads s) j = None \<Longrightarrow>
      dget (js_jobs (job_run u es s)) j \<noteq> None \<or> dget (js_threads (job_run u es s)) j = None" for s
    by (induction es arbitrary: s) (use step in auto)
  from this[of job_service_new] show ?thesis using assms(2) by (auto simp: job_service_new_def)
qed

lemma job_inv_new: "job_inv u job_service_new"
  by (simp add: job_inv_def job_service_new_def)

subsection \<open>Cancellation\<close>

text \<open>A cancelled job whose thread has not passed the test of the status yet, or has ended there.\<close>

definition cancelled_in_time :: "string \<Rightarrow> job_service \<Rightarrow> bool" where
  "cancelled_in_time j s \<longleftrightarrow> (\<exists>job pc. dget (js_jobs s) j = Some job \<and> sj_status job = Cancelled \<and>
     dget (js_threads s) j = Some pc \<and> dget (js_results s) j = None \<and>
     (case pc of Computing \<Rightarrow> True | Returned r \<Rightarrow> True | Raised e \<Rightarrow> True | Ended \<Rightarrow> True | _ \<Rightarrow> False))"

lemma cancelled_in_timeI:
  assumes "dget (js_jobs s) j = Some job" "sj_status job = Cancelled" "dget (js_threads s) j = Some pc"
    "dget (js_results s) j = None"
    "case pc of Computing \<Rightarrow> True | Returned r \<Rightarrow> True | Raised e \<Rightarrow> True | Ended \<Rightarrow> True | _ \<Rightarrow> False"
  shows "cancelled_in_time j s"
  using assms unfolding cancelled_in_time_def by blast

text \<open>Steps that concern other jobs.\<close>

lemma cancelled_in_time_frame:
  assumes "cancelled_in_time j s" and "dget (js_jobs s') j = dget (js_jobs s) j"
    and "dget (js_threads s') j = dget (js_threads s) j" and "dget (js_results s') j = dget (js_results s) j"
  shows "cancelled_in_time j s'"
  using assms by (simp add: cancelled_in_time_def)

lemma execute_step_frame:
  assumes "k \<noteq> j"
  shows "dget (js_jobs (execute_step mods now k job pc s)) j = dget (js_jobs s) j \<and>
    dget (js_threads (execute_step mods now k job pc s)) j = dget (js_threads s) j \<and>
    dget (js_results (execute_step mods now k job pc s)) j = dget (js_results s) j"
  using assms by (auto simp: execute_step_def goto_def with_job_def store_result_def split: thread.splits)

lemma execute_cancelled_in_time:
  assumes "cancelled_in_time j s"
  shows "cancelled_in_time j (execute_job mods now k s)"
proof (cases "k = j")
  case True
  obtain job pc where "dget (js_jobs s) j = Some job" "sj_status job = Cancelled"
    "dget (js_threads s) j = Some pc" "dget (js_results s) j = None"
    "case pc of Computing \<Rightarrow> True | Returned r \<Rightarrow> True | Raised e \<Rightarrow> True | Ended \<Rightarrow> True | _ \<Rightarrow> False"
    using assms unfolding cancelled_in_time_def by blast
  then show ?thesis
    using True
    by (cases pc) (auto simp: execute_job_def execute_step_def goto_def split: sum.splits
        intro!: cancelled_in_timeI[where job = job])
next
  case False
  then show ?thesis
    using cancelled_in_time_frame[OF assms] execute_step_frame[OF False] assms
    by (auto simp: execute_job_def split: option.splits)
qed

lemma event_cancelled_in_time:
  assumes "inj u" and "job_inv u s" and c: "cancelled_in_time j s"
  shows "cancelled_in_time j (job_event u e s)"
proof (cases e)
  case (Submit now ty params)
  obtain job where "dget (js_jobs s) j = Some job" using c by (auto simp: cancelled_in_time_def)
  then obtain n where "n < js_ids s" "j = u n" using job_invD[OF assms(2)] by blast
  then have "j \<noteq> u (js_ids s)" using \<open>inj u\<close> by (auto dest: injD)
  then show ?thesis
    using Submit c by (auto simp: job_event_def submit_job_endpoint_def submit_job_def Let_def
        intro!: cancelled_in_time_frame[OF c])
next
  case (Thread now k mods)
  then show ?thesis using execute_cancelled_in_time[OF c] by (simp add: job_event_def)
next
  case (CancelRequest k)
  then show ?thesis
    using c by (auto simp: job_event_def cancel_job_endpoint_def cancelled_in_time_def split: option.splits)
next
  case (CancelWrite now k)
  have "cancelled_in_time j (cancel_job now k (s\<lparr>js_cancelling := xs\<rparr>))" for xs
  proof -
    obtain job pc where "dget (js_jobs s) j = Some job" "sj_status job = Cancelled"
      "dget (js_threads s) j = Some pc" "dget (js_results s) j = None"
      "case pc of Computing \<Rightarrow> True | Returned r \<Rightarrow> True | Raised e \<Rightarrow> True | Ended \<Rightarrow> True | _ \<Rightarrow> False"
      using c unfolding cancelled_in_time_def by blast
    then show ?thesis
      by (intro cancelled_in_timeI[where pc = pc and
            job = "if k = j then job\<lparr>sj_status := Cancelled, sj_completed_at := Some now\<rparr> else job"])
        (auto simp: cancel_job_def with_job_def)
  qed
  then show ?thesis using CancelWrite c by (simp add: job_event_def)
qed

lemma run_cancelled_in_time:
  "inj u \<Longrightarrow> job_inv u s \<Longrightarrow> cancelled_in_time j s \<Longrightarrow> cancelled_in_time j (job_run u es s)"
  by (induction es arbitrary: s) (auto intro: event_cancelled_in_time job_event_inv)

end
