(* ===== verification/SparkFrames.thy ===== *)
theory SparkFrames imports Telemetry "HOL-Library.Product_Lexorder" begin

section \<open>Tables and data frames\<close>

text \<open>
  \<open>batch_analytics/services/spark_manager.py\<close> and the operations of PySpark the jobs are written with.
  A data frame has the names of its columns and rows of cells; a reference to a column it does not
  have raises. What the library leaves open is an argument: the order in which groups come out, the
  conversion of a literal or a cell to a time, the sample deviation, the window function.
\<close>

datatype cell = Null | Num rat | Stamp time | Text string

text \<open>The order of a column's values, nulls first.\<close>

fun cell_key :: "cell \<Rightarrow> nat \<times> rat \<times> string" where
  "cell_key Null = (0, 0, [])"
| "cell_key (Num x) = (1, x, [])"
| "cell_key (Stamp t) = (2, t, [])"
| "cell_key (Text s) = (3, 0, s)"

lemma cell_key_inj: "cell_key a = cell_key b \<Longrightarrow> a = b"
  by (cases a; cases b) auto

instantiation cell :: linorder
begin

definition less_eq_cell :: "cell \<Rightarrow> cell \<Rightarrow> bool" where
  "less_eq_cell a b \<longleftrightarrow> cell_key a \<le> cell_key b"

definition less_cell :: "cell \<Rightarrow> cell \<Rightarrow> bool" where
  "less_cell a b \<longleftrightarrow> cell_key a < cell_key b"

instance
  by intro_classes (auto simp: less_eq_cell_def less_cell_def intro: cell_key_inj)

end

type_synonym frame_row = "(string, cell) dict"

record frame =
  fr_columns :: "string list"
  fr_rows :: "frame_row list"

record spark =
  sp_tables :: "(string, frame) dict"
  sp_now :: time
  sp_cast_time :: "cell \<Rightarrow> time option"
  sp_lit_time :: "json \<Rightarrow> time option"
  sp_lit_text :: "json \<Rightarrow> string option"
  sp_order :: "cell list list \<Rightarrow> cell list list"
  sp_stddev :: "rat list \<Rightarrow> rat option"
  sp_range_window :: "string list \<Rightarrow> json \<Rightarrow> frame \<Rightarrow> string + frame"

text \<open>Grouping loses no key and invents none.\<close>

definition grouping_ok :: "(cell list list \<Rightarrow> cell list list) \<Rightarrow> bool" where
  "grouping_ok ord \<longleftrightarrow> (\<forall>ks. distinct ks \<longrightarrow> distinct (ord ks) \<and> set (ord ks) = set ks)"

subsection \<open>The connection\<close>

text \<open>\<open>s.split(sep, 1)\<close> when the separator occurs.\<close>

fun split_once :: "string \<Rightarrow> string \<Rightarrow> (string \<times> string) option" where
  "split_once sep [] = None"
| "split_once sep (c # cs) =
     (if take (length sep) (c # cs) = sep then Some ([], drop (length sep) (c # cs))
      else map_option (\<lambda>(a, b). (c # a, b)) (split_once sep cs))"

definition dsn_remainder :: "string \<Rightarrow> string" where
  "dsn_remainder dsn = (case split_once ''://'' dsn of Some (_, r) \<Rightarrow> r | None \<Rightarrow> dsn)"

definition postgres_jdbc_url :: "string \<Rightarrow> string" where
  "postgres_jdbc_url dsn = ''jdbc:postgresql://'' @ dsn_remainder dsn"

definition postgres_properties :: "string \<Rightarrow> (string, string) dict" where
  "postgres_properties dsn =
     (''driver'', ''org.postgresql.Driver'') #
     (case split_once ''@'' (dsn_remainder dsn) of None \<Rightarrow> []
      | Some (userinfo, _) \<Rightarrow> (case split_once '':'' userinfo of
          Some (user, password) \<Rightarrow> [(''user'', user), (''password'', password)]
        | None \<Rightarrow> [(''user'', userinfo)]))"

definition postgres_jdbc_url_clean :: "string \<Rightarrow> string" where
  "postgres_jdbc_url_clean dsn =
     (let remainder = dsn_remainder dsn
      in ''jdbc:postgresql://'' @ (case split_once ''@'' remainder of Some (_, hostinfo) \<Rightarrow> hostinfo | None \<Rightarrow> remainder))"

lemma split_once_char: "c \<notin> set a \<Longrightarrow> split_once [c] (a @ c # b) = Some (a, b)"
  by (induction a) auto

lemma split_once_none: "c \<notin> set a \<Longrightarrow> split_once [c] a = None"
  by (induction a) auto

lemma split_once_scheme: "CHR '':'' \<notin> set a \<Longrightarrow> split_once ''://'' (a @ ''://'' @ b) = Some (a, b)"
  by (induction a) auto

text \<open>The table function of the connection: an unknown table raises.\<close>

definition read_from_postgres :: "spark \<Rightarrow> string \<Rightarrow> string + frame" where
  "read_from_postgres sp table_name =
     (case dget (sp_tables sp) table_name of None \<Rightarrow> Inl ''relation does not exist'' | Some fr \<Rightarrow> Inr fr)"

subsection \<open>Operations on frames\<close>

definition either_bind :: "'e + 'a \<Rightarrow> ('a \<Rightarrow> 'e + 'b) \<Rightarrow> 'e + 'b" where
  "either_bind m f = (case m of Inl e \<Rightarrow> Inl e | Inr a \<Rightarrow> f a)"

lemma either_bind_simps [simp]: "either_bind (Inl e) f = Inl e" "either_bind (Inr a) f = f a"
  by (simp_all add: either_bind_def)

lemma either_bind_Inr: "either_bind m f = Inr b \<longleftrightarrow> (\<exists>a. m = Inr a \<and> f a = Inr b)"
  by (cases m) auto

definition cell_of :: "frame_row \<Rightarrow> string \<Rightarrow> cell" where
  "cell_of r c = dget_or r c Null"

text \<open>Using columns: the frame itself, or the analysis error.\<close>

definition resolve :: "string list \<Rightarrow> frame \<Rightarrow> string + frame" where
  "resolve cs fr = (if list_all (\<lambda>c. c \<in> set (fr_columns fr)) cs then Inr fr else Inl ''UNRESOLVED_COLUMN'')"

definition keep_rows :: "(frame_row \<Rightarrow> bool) \<Rightarrow> frame \<Rightarrow> frame" where
  "keep_rows p fr = fr\<lparr>fr_rows := List.filter p (fr_rows fr)\<rparr>"

definition cast_timestamp :: "spark \<Rightarrow> frame \<Rightarrow> frame" where
  "cast_timestamp sp fr =
     (if ''timestamp'' \<in> set (fr_columns fr)
      then fr\<lparr>fr_rows := map (\<lambda>r. dset ''timestamp''
             (case sp_cast_time sp (cell_of r ''timestamp'') of None \<Rightarrow> Null | Some t \<Rightarrow> Stamp t) r) (fr_rows fr)\<rparr>
      else fr)"

text \<open>A comparison with null is null, and the filter drops the row.\<close>

definition time_filter :: "spark \<Rightarrow> (time \<Rightarrow> time \<Rightarrow> bool) \<Rightarrow> json option \<Rightarrow> frame \<Rightarrow> string + frame" where
  "time_filter sp cmp param fr =
     (if falsy param then Inr fr
      else either_bind (resolve [''timestamp''] fr) (\<lambda>fr.
        Inr (keep_rows (\<lambda>r. case (cell_of r ''timestamp'', sp_lit_time sp (the param)) of
               (Stamp t, Some t0) \<Rightarrow> cmp t t0 | _ \<Rightarrow> False) fr)))"

definition text_filter :: "spark \<Rightarrow> string \<Rightarrow> json option \<Rightarrow> frame \<Rightarrow> string + frame" where
  "text_filter sp c param fr =
     (if falsy param then Inr fr
      else either_bind (resolve [c] fr) (\<lambda>fr.
        Inr (keep_rows (\<lambda>r. case (cell_of r c, sp_lit_text sp (the param)) of
               (Text s, Some s0) \<Rightarrow> s = s0 | _ \<Rightarrow> False) fr)))"

definition time_range :: "spark \<Rightarrow> json_object \<Rightarrow> frame \<Rightarrow> string + frame" where
  "time_range sp params fr =
     either_bind (time_filter sp (\<lambda>t t0. t \<ge> t0) (dget params ''start_time'') fr) (\<lambda>fr.
       time_filter sp (\<lambda>t t0. t \<le> t0) (dget params ''end_time'') fr)"

definition group_key :: "string list \<Rightarrow> frame_row \<Rightarrow> cell list" where
  "group_key cs r = map (cell_of r) cs"

definition group_by :: "spark \<Rightarrow> (frame_row \<Rightarrow> cell list) \<Rightarrow> frame_row list \<Rightarrow> (cell list \<times> frame_row list) list" where
  "group_by sp key rows =
     map (\<lambda>k. (k, List.filter (\<lambda>r. key r = k) rows)) (sp_order sp (remdups (map key rows)))"

text \<open>The non-null numbers of a column, and the aggregates over them.\<close>

definition numbers :: "string \<Rightarrow> frame_row list \<Rightarrow> rat list" where
  "numbers c rows = List.map_filter (\<lambda>r. case cell_of r c of Num x \<Rightarrow> Some x | _ \<Rightarrow> None) rows"

definition stamps :: "string \<Rightarrow> frame_row list \<Rightarrow> time list" where
  "stamps c rows = List.map_filter (\<lambda>r. case cell_of r c of Stamp t \<Rightarrow> Some t | _ \<Rightarrow> None) rows"

definition mean :: "rat list \<Rightarrow> rat" where
  "mean xs = sum_list xs / of_nat (length xs)"

definition agg :: "(rat list \<Rightarrow> rat) \<Rightarrow> rat list \<Rightarrow> rat option" where
  "agg f xs = (if xs = [] then None else Some (f xs))"

definition list_min :: "rat list \<Rightarrow> rat" where "list_min xs = Min (set xs)"
definition list_max :: "rat list \<Rightarrow> rat" where "list_max xs = Max (set xs)"

subsection \<open>Grouping\<close>

lemma group_by_keys:
  assumes "grouping_ok (sp_order sp)"
  shows "distinct (map fst (group_by sp key rows)) \<and> set (map fst (group_by sp key rows)) = key ` set rows"
  using assms by (simp add: group_by_def grouping_ok_def comp_def)

lemma group_by_rows: "(k, rs) \<in> set (group_by sp key rows) \<Longrightarrow> rs = List.filter (\<lambda>r. key r = k) rows"
  by (auto simp: group_by_def)

text \<open>Every row is in exactly one group.\<close>

lemma group_by_total:
  assumes "grouping_ok (sp_order sp)"
  shows "sum_list (map (\<lambda>(k, rs). length rs) (group_by sp key rows)) = length rows"
proof -
  let ?ks = "sp_order sp (remdups (map key rows))"
  have "distinct ?ks" "set ?ks = key ` set rows" using assms by (simp_all add: grouping_ok_def)
  then show ?thesis
    using sum_filter_keys[of ?ks rows key] by (simp add: group_by_def comp_def)
qed

lemma group_by_nonempty:
  assumes "grouping_ok (sp_order sp)" and "(k, rs) \<in> set (group_by sp key rows)"
  shows "rs \<noteq> []"
proof -
  have "k \<in> key ` set rows" using assms group_by_keys[OF assms(1), of key rows] by force
  then show ?thesis using group_by_rows[OF assms(2)] by (auto simp: filter_empty_conv)
qed

end
