(* ===== verification/SparkJobs.thy ===== *)
theory SparkJobs imports SparkFrames begin

section \<open>Spark jobs\<close>

text \<open>
  The four modules of \<open>batch_analytics/spark_jobs\<close>. Each job computes records from the rows that pass
  its filters and returns a dict, here the JSON object the service answers with: a time is its ISO
  text, a key that is no string is written as JSON writes it. The session time zone is UTC.
\<close>

definition cell_json :: "codec \<Rightarrow> cell \<Rightarrow> json" where
  "cell_json c v = (case v of Null \<Rightarrow> JNull | Num x \<Rightarrow> JFloat x | Stamp t \<Rightarrow> JStr (cd_isoformat c t) | Text s \<Rightarrow> JStr s)"

definition opt_json :: "rat option \<Rightarrow> json" where
  "opt_json x = (case x of None \<Rightarrow> JNull | Some v \<Rightarrow> JFloat v)"

definition key_text :: "codec \<Rightarrow> cell \<Rightarrow> string" where
  "key_text c v = (case v of Text s \<Rightarrow> s | Null \<Rightarrow> ''null'' | Num x \<Rightarrow> cd_float_str c x | Stamp t \<Rightarrow> cd_isoformat c t)"

definition JNat :: "nat \<Rightarrow> json" where "JNat n = JInt (int n)"

definition table_param :: "json_object \<Rightarrow> string \<Rightarrow> string \<Rightarrow> string + string" where
  "table_param params k dflt = (case dget params k of None \<Rightarrow> Inr dflt | Some (JStr s) \<Rightarrow> Inr s
     | Some _ \<Rightarrow> Inl ''not a table name'')"

definition DEFAULT_TABLE :: string where "DEFAULT_TABLE = ''telemetry_readings''"
definition DEFAULT_ANOMALY_TABLE :: string where "DEFAULT_ANOMALY_TABLE = ''anomaly_events''"

text \<open>The first half of each job: the table, the cast, the time range and the filters on text columns.\<close>

definition read_range :: "spark \<Rightarrow> json_object \<Rightarrow> string \<Rightarrow> string \<Rightarrow> string + frame" where
  "read_range sp params k dflt =
     either_bind (table_param params k dflt) (\<lambda>name.
     either_bind (read_from_postgres sp name) (\<lambda>fr. time_range sp params (cast_timestamp sp fr)))"

definition filter_param :: "spark \<Rightarrow> json_object \<Rightarrow> string \<Rightarrow> frame \<Rightarrow> string + frame" where
  "filter_param sp params c fr = text_filter sp c (dget params c) fr"

subsection \<open>Sensor aggregation\<close>

record agg_row =
  ag_period :: cell
  ag_device_type :: cell
  ag_avg :: "rat option"
  ag_min :: "rat option"
  ag_max :: "rat option"
  ag_count :: nat
  ag_stddev :: "rat option"

definition date_trunc :: "rat \<Rightarrow> time \<Rightarrow> time" where
  "date_trunc unit t = of_int \<lfloor>t / unit\<rfloor> * unit"

definition period_of :: "json \<Rightarrow> frame_row \<Rightarrow> cell" where
  "period_of granularity r = (case cell_of r ''timestamp'' of
     Stamp t \<Rightarrow> Stamp (date_trunc (if granularity = JStr ''day'' then 86400 else 3600) t) | _ \<Rightarrow> Null)"

definition agg_row_of :: "spark \<Rightarrow> cell list \<times> frame_row list \<Rightarrow> agg_row" where
  "agg_row_of sp g = (case g of (k, rs) \<Rightarrow> let xs = numbers ''value'' rs in
     \<lparr>ag_period = k ! 0, ag_device_type = k ! 1, ag_avg = agg mean xs, ag_min = agg list_min xs,
      ag_max = agg list_max xs, ag_count = length xs, ag_stddev = sp_stddev sp xs\<rparr>)"

definition agg_groups :: "spark \<Rightarrow> json \<Rightarrow> frame_row list \<Rightarrow> (cell list \<times> frame_row list) list" where
  "agg_groups sp granularity rows =
     sort_key fst (group_by sp (\<lambda>r. [period_of granularity r, cell_of r ''device_type'']) rows)"

definition agg_rows :: "spark \<Rightarrow> json \<Rightarrow> frame_row list \<Rightarrow> agg_row list" where
  "agg_rows sp granularity rows = map (agg_row_of sp) (agg_groups sp granularity rows)"

definition agg_json :: "codec \<Rightarrow> agg_row \<Rightarrow> json" where
  "agg_json c a = JObj [(''period'', cell_json c (ag_period a)), (''device_type'', cell_json c (ag_device_type a)),
     (''avg_value'', opt_json (ag_avg a)), (''min_value'', opt_json (ag_min a)), (''max_value'', opt_json (ag_max a)),
     (''count'', JNat (ag_count a)), (''stddev_value'', opt_json (ag_stddev a))]"

definition distinct_count :: "string \<Rightarrow> frame \<Rightarrow> nat" where
  "distinct_count col fr = (if col \<in> set (fr_columns fr)
     then length (remdups (map (\<lambda>r. cell_of r col) (fr_rows fr))) else 0)"

definition sensor_aggregation :: "codec \<Rightarrow> spark \<Rightarrow> json_object \<Rightarrow> string + json_object" where
  "sensor_aggregation c sp params =
     either_bind (read_range sp params ''table_name'' DEFAULT_TABLE) (\<lambda>fr.
     either_bind (filter_param sp params ''device_type'' fr) (\<lambda>fr.
     either_bind (resolve [''timestamp'', ''device_type'', ''value''] fr) (\<lambda>fr.
       let granularity = dget_or params ''granularity'' (JStr ''hour'');
           rows = agg_rows sp granularity (fr_rows fr)
       in Inr [(''summary'', JObj [(''total_rows'', JNat (length (fr_rows fr))), (''aggregated_rows'', JNat (length rows)),
            (''unique_devices'', JNat (distinct_count ''device_id'' fr)),
            (''unique_types'', JNat (distinct_count ''device_type'' fr)), (''granularity'', granularity)]),
          (''rows'', JArr (map (agg_json c) rows)), (''rows_processed'', JNat (length (fr_rows fr)))])))"

subsection \<open>Anomaly report\<close>

definition count_by :: "spark \<Rightarrow> (frame_row \<Rightarrow> cell) \<Rightarrow> frame_row list \<Rightarrow> (cell \<times> nat) list" where
  "count_by sp key rows = map (\<lambda>(k, rs). (hd k, length rs)) (group_by sp (\<lambda>r. [key r]) rows)"

definition most_first :: "(cell \<times> nat) list \<Rightarrow> (cell \<times> nat) list" where
  "most_first xs = sort_key (\<lambda>x. - int (snd x)) xs"

definition hour_of :: "frame_row \<Rightarrow> cell" where
  "hour_of r = (case cell_of r ''timestamp'' of Stamp t \<Rightarrow> Num (of_int (\<lfloor>t / 3600\<rfloor> mod 24)) | _ \<Rightarrow> Null)"

definition hour_text :: "cell \<Rightarrow> string" where
  "hour_text v = (case v of Num x \<Rightarrow> nat_str (nat \<lfloor>x\<rfloor>) | _ \<Rightarrow> ''null'')"

record top_device =
  td_device_id :: cell
  td_device_type :: cell
  td_anomaly_count :: nat

definition top_devices :: "spark \<Rightarrow> nat \<Rightarrow> frame_row list \<Rightarrow> top_device list" where
  "top_devices sp top_n rows = take top_n (sort_key (\<lambda>d. - int (td_anomaly_count d))
     (map (\<lambda>(k, rs). \<lparr>td_device_id = hd k, td_device_type = cell_of (hd rs) ''device_type'',
        td_anomaly_count = length rs\<rparr>) (group_by sp (\<lambda>r. [cell_of r ''device_id'']) rows)))"

definition top_json :: "codec \<Rightarrow> top_device \<Rightarrow> json" where
  "top_json c d = JObj [(''device_id'', cell_json c (td_device_id d)), (''device_type'', cell_json c (td_device_type d)),
     (''anomaly_count'', JNat (td_anomaly_count d))]"

definition counts_json :: "(cell \<Rightarrow> string) \<Rightarrow> (cell \<times> nat) list \<Rightarrow> json" where
  "counts_json text xs = JObj (map (\<lambda>(k, n). (text k, JNat n)) xs)"

definition anomaly_report :: "codec \<Rightarrow> spark \<Rightarrow> json_object \<Rightarrow> string + json_object" where
  "anomaly_report c sp params =
     either_bind (read_range sp params ''table_name'' DEFAULT_ANOMALY_TABLE) (\<lambda>fr.
     either_bind (filter_param sp params ''device_type'' fr) (\<lambda>fr.
     either_bind (filter_param sp params ''severity'' fr) (\<lambda>fr.
     either_bind (resolve [''device_type'', ''severity'', ''timestamp'', ''device_id''] fr) (\<lambda>fr.
     either_bind (case dget params ''top_n'' of None \<Rightarrow> Inr 10
         | Some (JInt n) \<Rightarrow> if 0 \<le> n then Inr (nat n) else Inl ''negative limit'' | Some _ \<Rightarrow> Inl ''limit is no integer'') (\<lambda>top_n.
       let rows = fr_rows fr; top = map (top_json c) (top_devices sp top_n rows)
       in Inr [(''summary'', JObj [(''total_anomalies'', JNat (length rows)),
            (''by_device_type'', counts_json (key_text c) (most_first (count_by sp (\<lambda>r. cell_of r ''device_type'') rows))),
            (''by_severity'', counts_json (key_text c) (most_first (count_by sp (\<lambda>r. cell_of r ''severity'') rows))),
            (''by_hour_of_day'', counts_json hour_text (sort_key fst (count_by sp hour_of rows))),
            (''top_devices'', JArr top)]),
          (''rows'', JArr top), (''rows_processed'', JNat (length rows))])))))"

subsection \<open>Device health\<close>

record health_row =
  hr_device_id :: cell
  hr_device_type :: cell
  hr_health_score :: rat
  hr_anomaly_rate :: rat
  hr_last_seen :: "time option"
  hr_total_readings :: nat
  hr_anomaly_count :: nat

text \<open>Spark rounds half up; the values are not negative.\<close>

definition spark_round :: "rat \<Rightarrow> nat \<Rightarrow> rat" where
  "spark_round x n = of_int \<lfloor>x * 10 ^ n + 1 / 2\<rfloor> / 10 ^ n"

definition unix_timestamp :: "time \<Rightarrow> rat" where "unix_timestamp t = of_int \<lfloor>t\<rfloor>"

text \<open>\<open>least\<close> skips a null, so a device without a time of its last reading gets the full penalty.\<close>

definition hours_since :: "time \<Rightarrow> time option \<Rightarrow> rat" where
  "hours_since now last_seen = (case last_seen of None \<Rightarrow> 50
     | Some t \<Rightarrow> min ((unix_timestamp now - unix_timestamp t) / 3600) 50)"

definition health_score :: "rat \<Rightarrow> rat \<Rightarrow> rat" where
  "health_score anomaly_rate hours = max 0 (100 - anomaly_rate * 50 - hours)"

text \<open>The left join: an unknown device has no anomalies, and null matches nothing.\<close>

definition health_row_of :: "spark \<Rightarrow> frame_row list \<Rightarrow> cell list \<times> frame_row list \<Rightarrow> health_row" where
  "health_row_of sp anomalies g = (case g of (k, rs) \<Rightarrow>
     let total = length rs; last_seen = agg list_max (stamps ''timestamp'' rs);
         count = (if hd k = Null then 0 else length (List.filter (\<lambda>r. cell_of r ''device_id'' = hd k) anomalies));
         rate = min (of_nat count / of_nat total) 1
     in \<lparr>hr_device_id = hd k, hr_device_type = cell_of (hd rs) ''device_type'',
         hr_health_score = spark_round (health_score rate (hours_since (sp_now sp) last_seen)) 1,
         hr_anomaly_rate = spark_round rate 4, hr_last_seen = last_seen,
         hr_total_readings = total, hr_anomaly_count = count\<rparr>)"

definition health_rows :: "spark \<Rightarrow> frame_row list \<Rightarrow> frame_row list \<Rightarrow> health_row list" where
  "health_rows sp telemetry anomalies = sort_key hr_health_score
     (map (health_row_of sp anomalies) (group_by sp (\<lambda>r. [cell_of r ''device_id'']) telemetry))"

definition health_json :: "codec \<Rightarrow> health_row \<Rightarrow> json" where
  "health_json c h = JObj [(''device_id'', cell_json c (hr_device_id h)), (''device_type'', cell_json c (hr_device_type h)),
     (''health_score'', JFloat (hr_health_score h)), (''anomaly_rate'', JFloat (hr_anomaly_rate h)),
     (''last_seen'', case hr_last_seen h of None \<Rightarrow> JNull | Some t \<Rightarrow> JStr (cd_isoformat c t)),
     (''total_readings'', JNat (hr_total_readings h)), (''anomaly_count'', JNat (hr_anomaly_count h))]"

record health_summary =
  hs_total_devices :: nat
  hs_avg_health_score :: rat
  hs_healthy_count :: nat
  hs_degraded_count :: nat
  hs_critical_count :: nat

definition health_summary_of :: "health_row list \<Rightarrow> health_summary" where
  "health_summary_of rows =
     \<lparr>hs_total_devices = length rows,
      hs_avg_health_score = py_round (if rows = [] then 0 else mean (map hr_health_score rows)) 1,
      hs_healthy_count = length (List.filter (\<lambda>r. hr_health_score r \<ge> 80) rows),
      hs_degraded_count = length (List.filter (\<lambda>r. 50 \<le> hr_health_score r \<and> hr_health_score r < 80) rows),
      hs_critical_count = length (List.filter (\<lambda>r. hr_health_score r < 50) rows)\<rparr>"

definition device_health :: "codec \<Rightarrow> spark \<Rightarrow> json_object \<Rightarrow> string + json_object" where
  "device_health c sp params =
     either_bind (read_range sp params ''telemetry_table'' DEFAULT_TABLE) (\<lambda>tel.
     either_bind (filter_param sp params ''device_type'' tel) (\<lambda>tel.
     either_bind (resolve [''device_id'', ''timestamp'', ''device_type''] tel) (\<lambda>tel.
     either_bind (read_range sp params ''anomaly_table'' DEFAULT_ANOMALY_TABLE) (\<lambda>anom.
     either_bind (resolve [''device_id''] anom) (\<lambda>anom.
       let rows = health_rows sp (fr_rows tel) (fr_rows anom); s = health_summary_of rows
       in Inr [(''summary'', JObj [(''total_devices'', JNat (hs_total_devices s)),
            (''avg_health_score'', JFloat (hs_avg_health_score s)), (''healthy_count'', JNat (hs_healthy_count s)),
            (''degraded_count'', JNat (hs_degraded_count s)), (''critical_count'', JNat (hs_critical_count s))]),
          (''rows'', JArr (map (health_json c) rows)), (''rows_processed'', JNat (length (fr_rows tel)))])))))"

subsection \<open>The tables of the repository\<close>

text \<open>
  The columns of \<open>telemetry_readings\<close> as both services that create the table declare it; no service
  creates \<open>anomaly_events\<close>. A default run of a job reads these tables.
\<close>

definition TELEMETRY_COLUMNS :: "string list" where
  "TELEMETRY_COLUMNS = [''id'', ''device_id'', ''device_type'', ''timestamp'', ''payload'', ''metadata'']"

lemma columns_simps [simp]:
  "fr_columns (cast_timestamp sp fr) = fr_columns fr" "fr_columns (keep_rows p fr) = fr_columns fr"
  by (simp_all add: cast_timestamp_def keep_rows_def)

lemma resolve_Inr: "resolve cs fr = Inr fr' \<longleftrightarrow> fr' = fr \<and> set cs \<subseteq> set (fr_columns fr)"
  by (auto simp: resolve_def list_all_iff)

lemma time_filter_columns: "time_filter sp cmp p fr = Inr fr' \<Longrightarrow> fr_columns fr' = fr_columns fr"
  by (auto simp: time_filter_def either_bind_Inr resolve_Inr split: if_splits)

lemma text_filter_columns: "text_filter sp c p fr = Inr fr' \<Longrightarrow> fr_columns fr' = fr_columns fr"
  by (auto simp: text_filter_def either_bind_Inr resolve_Inr split: if_splits)

lemma time_range_columns: "time_range sp params fr = Inr fr' \<Longrightarrow> fr_columns fr' = fr_columns fr"
  by (auto simp: time_range_def either_bind_Inr dest!: time_filter_columns)

lemma read_range_table:
  assumes "read_range sp params k dflt = Inr fr" and "dget params k = None"
  shows "\<exists>t. dget (sp_tables sp) dflt = Some t \<and> fr_columns fr = fr_columns t"
  using assms by (auto simp: read_range_def table_param_def read_from_postgres_def either_bind_Inr
      dest!: time_range_columns split: option.splits)

lemmas job_frame = either_bind_Inr resolve_Inr filter_param_def

lemma sensor_aggregation_columns:
  assumes "sensor_aggregation c sp params = Inr r" and "dget params ''table_name'' = None"
  shows "\<exists>t. dget (sp_tables sp) DEFAULT_TABLE = Some t \<and> ''value'' \<in> set (fr_columns t)"
  using assms by (auto simp: sensor_aggregation_def job_frame dest!: text_filter_columns read_range_table)

lemma anomaly_report_table:
  assumes "anomaly_report c sp params = Inr r" and "dget params ''table_name'' = None"
  shows "dget (sp_tables sp) DEFAULT_ANOMALY_TABLE \<noteq> None"
  using assms by (auto simp: anomaly_report_def either_bind_Inr dest!: read_range_table)

lemma device_health_table:
  assumes "device_health c sp params = Inr r" and "dget params ''anomaly_table'' = None"
  shows "dget (sp_tables sp) DEFAULT_ANOMALY_TABLE \<noteq> None"
  using assms by (auto simp: device_health_def either_bind_Inr dest!: read_range_table[of _ _ "''anomaly_table''"])

subsection \<open>Aggregates\<close>

lemma list_min_le_mean: "xs \<noteq> [] \<Longrightarrow> list_min xs \<le> mean xs"
proof -
  assume ne: "xs \<noteq> []"
  have "of_nat (length xs) * list_min xs \<le> sum_list xs"
    using sum_list_mono[of xs "\<lambda>_. list_min xs" "\<lambda>x. x"] by (simp add: list_min_def sum_list_triv)
  then show ?thesis using ne by (simp add: mean_def pos_le_divide_eq mult.commute)
qed

lemma mean_le_list_max: "xs \<noteq> [] \<Longrightarrow> mean xs \<le> list_max xs"
proof -
  assume ne: "xs \<noteq> []"
  have "sum_list xs \<le> of_nat (length xs) * list_max xs"
    using sum_list_mono[of xs "\<lambda>x. x" "\<lambda>_. list_max xs"] by (simp add: list_max_def sum_list_triv)
  then show ?thesis using ne by (simp add: mean_def pos_divide_le_eq mult.commute)
qed

lemma numbers_filter_total:
  assumes "grouping_ok (sp_order sp)"
  shows "sum_list (map (\<lambda>(k, rs). length (numbers c rs)) (group_by sp key rows)) = length (numbers c rows)"
proof -
  have n: "length (numbers c rs) = length (List.filter (\<lambda>r. \<exists>x. cell_of r c = Num x) rs)" for rs
    by (induction rs) (auto simp: numbers_def map_filter_simps split: cell.splits)
  let ?p = "\<lambda>r. \<exists>x. cell_of r c = Num x"
  let ?ks = "sp_order sp (remdups (map key rows))"
  have ks: "distinct ?ks" "set ?ks = key ` set rows" using assms by (simp_all add: grouping_ok_def)
  have "List.filter ?p (List.filter (\<lambda>r. key r = k) rows) = List.filter (\<lambda>r. key r = k) (List.filter ?p rows)" for k
    by (simp add: conj_commute)
  then have "sum_list (map (\<lambda>(k, rs). length (numbers c rs)) (group_by sp key rows)) =
      sum_list (map (\<lambda>k. length (List.filter (\<lambda>r. key r = k) (List.filter ?p rows))) ?ks)"
    by (simp add: group_by_def comp_def n)
  also have "\<dots> = length (List.filter ?p rows)"
    using ks by (intro sum_filter_keys) auto
  finally show ?thesis by (simp add: n)
qed

lemma spark_round_mono: "x \<le> y \<Longrightarrow> spark_round x n \<le> spark_round y n"
  by (simp add: spark_round_def divide_right_mono floor_mono mult_right_mono)

lemma spark_round_int: "spark_round (of_int i) n = of_int i"
proof -
  have "\<lfloor>of_int (i * 10 ^ n) + 1 / 2 :: rat\<rfloor> = i * 10 ^ n" by (rule floor_unique) simp_all
  then show ?thesis by (simp add: spark_round_def)
qed

lemma spark_round_between:
  assumes "of_int a \<le> x" and "x \<le> of_int b"
  shows "of_int a \<le> spark_round x n \<and> spark_round x n \<le> of_int b"
  using spark_round_mono[OF assms(1), of n] spark_round_mono[OF assms(2), of n] by (simp add: spark_round_int)

lemma stamps_in: "t \<in> set (stamps c rs) \<Longrightarrow> \<exists>r \<in> set rs. cell_of r c = Stamp t"
  by (auto simp: stamps_def map_filter_def split: cell.splits option.splits)

lemma hours_since_nonneg:
  assumes "\<forall>t. last_seen = Some t \<longrightarrow> t \<le> now"
  shows "0 \<le> hours_since now last_seen"
  using assms by (cases last_seen) (auto simp: hours_since_def unix_timestamp_def floor_mono)

lemma health_summary_total:
  "hs_healthy_count (health_summary_of rows) + hs_degraded_count (health_summary_of rows) +
   hs_critical_count (health_summary_of rows) = hs_total_devices (health_summary_of rows)"
proof -
  have "length (List.filter (\<lambda>r. hr_health_score r \<ge> 80) rows) +
      length (List.filter (\<lambda>r. 50 \<le> hr_health_score r \<and> hr_health_score r < 80) rows) +
      length (List.filter (\<lambda>r. hr_health_score r < 50) rows) = length rows"
    by (induction rows) auto
  then show ?thesis by (simp add: health_summary_of_def)
qed

lemma health_row_bounds:
  assumes "(k, rs) \<in> set (group_by sp key telemetry)"
  shows "0 \<le> hr_health_score (health_row_of sp anomalies (k, rs)) \<and>
    0 \<le> hr_anomaly_rate (health_row_of sp anomalies (k, rs)) \<and> hr_anomaly_rate (health_row_of sp anomalies (k, rs)) \<le> 1 \<and>
    ((\<forall>r \<in> set telemetry. \<forall>t. cell_of r ''timestamp'' = Stamp t \<longrightarrow> t \<le> sp_now sp) \<longrightarrow>
      hr_health_score (health_row_of sp anomalies (k, rs)) \<le> 100)"
proof -
  let ?last = "agg list_max (stamps ''timestamp'' rs)"
  let ?count = "if hd k = Null then 0 else length (List.filter (\<lambda>r. cell_of r ''device_id'' = hd k) anomalies)"
  define rate :: rat where "rate = min (of_nat ?count / of_nat (length rs)) 1"
  have rate: "0 \<le> rate" "rate \<le> 1" by (simp_all add: rate_def)
  define score where "score = health_score rate (hours_since (sp_now sp) ?last)"
  have row: "hr_health_score (health_row_of sp anomalies (k, rs)) = spark_round score 1"
    "hr_anomaly_rate (health_row_of sp anomalies (k, rs)) = spark_round rate 4"
    by (simp_all add: health_row_of_def Let_def rate_def score_def)
  have lo: "0 \<le> spark_round score 1"
    using spark_round_mono[of "of_int 0" score 1] by (simp add: spark_round_int[of 0, simplified] score_def health_score_def)
  have hi: "spark_round score 1 \<le> 100"
    if "\<forall>r \<in> set telemetry. \<forall>t. cell_of r ''timestamp'' = Stamp t \<longrightarrow> t \<le> sp_now sp"
  proof -
    have "t \<le> sp_now sp" if "?last = Some t" for t
    proof -
      have ne: "stamps ''timestamp'' rs \<noteq> []" and t: "t = Max (set (stamps ''timestamp'' rs))"
        using that by (auto simp: agg_def list_max_def split: if_splits)
      have "t \<in> set (stamps ''timestamp'' rs)" unfolding t using ne by (intro Max_in) auto
      then obtain r where "r \<in> set rs" "cell_of r ''timestamp'' = Stamp t" using stamps_in by blast
      then show ?thesis
        using \<open>\<forall>r \<in> set telemetry. _ r\<close> group_by_rows[OF assms] by auto
    qed
    then have "0 \<le> hours_since (sp_now sp) ?last" by (intro hours_since_nonneg) auto
    then have "score \<le> 100" using rate by (simp add: score_def health_score_def)
    then show ?thesis using spark_round_mono[of score "of_int 100" 1] spark_round_int[of 100 1] by simp
  qed
  have "0 \<le> spark_round rate 4 \<and> spark_round rate 4 \<le> 1"
    using spark_round_between[of 0 rate 1 4] rate by simp
  then show ?thesis using row lo hi by simp
qed

end
