(* ===== verification/Trends.thy ===== *)
theory Trends imports SparkJobs begin

section \<open>Trend analysis\<close>

text \<open>
  \<open>batch_analytics/spark_jobs/trend_analysis.py\<close>: the linear regression over the readings of a group and
  the job around it. numpy broadcasts an array of one element and raises for other unequal lengths;
  the lengths differ when a reading has no value, since \<open>collect_list\<close> drops nulls.
\<close>

datatype trend = Stable | Upward | Downward

definition trend_value :: "trend \<Rightarrow> string" where
  "trend_value t = (case t of Stable \<Rightarrow> ''stable'' | Upward \<Rightarrow> ''upward'' | Downward \<Rightarrow> ''downward'')"

record regression =
  rg_slope :: rat
  rg_intercept :: rat
  rg_r_squared :: rat
  rg_trend_direction :: trend

definition broadcast :: "nat \<Rightarrow> rat list \<Rightarrow> rat list option" where
  "broadcast n ys = (if length ys = n then Some ys else if length ys = 1 then Some (replicate n (hd ys)) else None)"

text \<open>Sums over the points \<open>(x, y)\<close>, the centred ones first.\<close>

definition psum :: "(rat \<times> rat \<Rightarrow> rat) \<Rightarrow> (rat \<times> rat) list \<Rightarrow> rat" where
  "psum f ps = sum_list (map f ps)"

definition fit_slope :: "(rat \<times> rat) list \<Rightarrow> rat" where
  "fit_slope ps = (let x_mean = mean (map fst ps) in
     psum (\<lambda>(x, y). (x - x_mean) * y) ps / psum (\<lambda>(x, y). (x - x_mean) * (x - x_mean)) ps)"

definition fit_intercept :: "(rat \<times> rat) list \<Rightarrow> rat" where
  "fit_intercept ps = mean (map snd ps) - fit_slope ps * mean (map fst ps)"

definition ss_res :: "rat \<Rightarrow> rat \<Rightarrow> (rat \<times> rat) list \<Rightarrow> rat" where
  "ss_res slope intercept ps = psum (\<lambda>(x, y). (y - (slope * x + intercept)) ^ 2) ps"

definition ss_tot :: "(rat \<times> rat) list \<Rightarrow> rat" where
  "ss_tot ps = (let y_mean = mean (map snd ps) in psum (\<lambda>(x, y). (y - y_mean) ^ 2) ps)"

definition fit_r_squared :: "(rat \<times> rat) list \<Rightarrow> rat" where
  "fit_r_squared ps = (if ss_tot ps \<noteq> 0 then 1 - ss_res (fit_slope ps) (fit_intercept ps) ps / ss_tot ps else 0)"

definition trend_direction :: "rat \<Rightarrow> rat \<Rightarrow> trend" where
  "trend_direction slope y_mean =
     (if \<bar>slope * 3600\<bar> / max \<bar>y_mean\<bar> (1 / 10 ^ 10) < 1 / 100 then Stable
      else if slope > 0 then Upward else Downward)"

definition fit :: "(rat \<times> rat) list \<Rightarrow> regression" where
  "fit ps = (let x_mean = mean (map fst ps); y_mean = mean (map snd ps) in
     if psum (\<lambda>(x, y). (x - x_mean) * (x - x_mean)) ps = 0
     then \<lparr>rg_slope = 0, rg_intercept = y_mean, rg_r_squared = 0, rg_trend_direction = Stable\<rparr>
     else \<lparr>rg_slope = py_round (fit_slope ps) 8, rg_intercept = py_round (fit_intercept ps) 4,
           rg_r_squared = py_round (max 0 (min 1 (fit_r_squared ps))) 4,
           rg_trend_direction = trend_direction (fit_slope ps) y_mean\<rparr>)"

definition compute_linear_regression :: "rat list \<Rightarrow> rat list \<Rightarrow> string + regression" where
  "compute_linear_regression timestamps vals =
     (if length timestamps < 2
      then Inr \<lparr>rg_slope = 0, rg_intercept = 0, rg_r_squared = 0, rg_trend_direction = Stable\<rparr>
      else case broadcast (length timestamps) vals of
        None \<Rightarrow> Inl ''operands could not be broadcast together''
      | Some ys \<Rightarrow> Inr (fit (zip timestamps ys)))"

subsection \<open>The job\<close>

record trend_row =
  tw_device_type :: cell
  tw_metric :: cell
  tw_trend_direction :: trend
  tw_slope :: rat
  tw_r_squared :: rat
  tw_avg_value :: rat
  tw_min_value :: rat
  tw_max_value :: rat
  tw_data_points :: nat

text \<open>\<open>round(float(v), 4) if v else 0.0\<close>\<close>

definition rounded_or_zero :: "rat option \<Rightarrow> rat" where
  "rounded_or_zero v = (case v of None \<Rightarrow> 0 | Some x \<Rightarrow> if x = 0 then 0 else py_round x 4)"

definition trend_row_of :: "cell list \<times> frame_row list \<Rightarrow> string + trend_row" where
  "trend_row_of g = (case g of (k, rs) \<Rightarrow> let vals = numbers ''value'' rs in
     either_bind (compute_linear_regression (map unix_timestamp (stamps ''timestamp'' rs)) vals) (\<lambda>reg.
       Inr \<lparr>tw_device_type = k ! 0, tw_metric = (if length k = 2 then k ! 1 else Text ''value''),
            tw_trend_direction = rg_trend_direction reg, tw_slope = rg_slope reg, tw_r_squared = rg_r_squared reg,
            tw_avg_value = rounded_or_zero (agg mean vals), tw_min_value = rounded_or_zero (agg list_min vals),
            tw_max_value = rounded_or_zero (agg list_max vals), tw_data_points = length rs\<rparr>))"

fun trend_rows :: "(cell list \<times> frame_row list) list \<Rightarrow> string + trend_row list" where
  "trend_rows [] = Inr []"
| "trend_rows (g # gs) = either_bind (trend_row_of g) (\<lambda>r. either_bind (trend_rows gs) (\<lambda>rs. Inr (r # rs)))"

definition strongest_first :: "trend_row list \<Rightarrow> trend_row list" where
  "strongest_first rows = sort_key (\<lambda>r. - \<bar>tw_slope r\<bar>) rows"

definition trend_count :: "trend \<Rightarrow> trend_row list \<Rightarrow> nat" where
  "trend_count t rows = length (List.filter (\<lambda>r. tw_trend_direction r = t) rows)"

definition trend_json :: "codec \<Rightarrow> trend_row \<Rightarrow> json" where
  "trend_json c r = JObj [(''device_type'', cell_json c (tw_device_type r)), (''metric'', cell_json c (tw_metric r)),
     (''trend_direction'', JStr (trend_value (tw_trend_direction r))), (''slope'', JFloat (tw_slope r)),
     (''r_squared'', JFloat (tw_r_squared r)), (''avg_value'', JFloat (tw_avg_value r)),
     (''min_value'', JFloat (tw_min_value r)), (''max_value'', JFloat (tw_max_value r)),
     (''data_points'', JNat (tw_data_points r))]"

definition group_cols :: "frame \<Rightarrow> string list" where
  "group_cols fr = ''device_type'' # (if ''metric'' \<in> set (fr_columns fr) then [''metric''] else [])"

text \<open>The moving average is a column nothing reads, but the expression can be refused.\<close>

definition trend_analysis :: "codec \<Rightarrow> spark \<Rightarrow> json_object \<Rightarrow> string + json_object" where
  "trend_analysis c sp params =
     either_bind (read_range sp params ''table_name'' DEFAULT_TABLE) (\<lambda>fr.
     either_bind (filter_param sp params ''device_type'' fr) (\<lambda>fr.
     either_bind (filter_param sp params ''metric'' fr) (\<lambda>fr.
     either_bind (resolve [''timestamp'', ''device_type'', ''value''] fr) (\<lambda>fr.
     either_bind (sp_range_window sp (group_cols fr) (dget_or params ''window_size'' (JInt 24)) fr) (\<lambda>_.
     either_bind (trend_rows (group_by sp (group_key (group_cols fr)) (fr_rows fr))) (\<lambda>rows.
       let rows = strongest_first rows
       in Inr [(''summary'', JObj [(''total_trends'', JNat (length rows)),
            (''upward_count'', JNat (trend_count Upward rows)), (''downward_count'', JNat (trend_count Downward rows)),
            (''stable_count'', JNat (trend_count Stable rows))]),
          (''rows'', JArr (map (trend_json c) rows)), (''rows_processed'', JNat (length (fr_rows fr)))]))))))"

subsection \<open>Least squares\<close>

lemma psum_simps [simp]: "psum f [] = 0" "psum f (p # ps) = f p + psum f ps"
  by (simp_all add: psum_def)

lemma psum_nonneg: "(\<And>p. 0 \<le> f p) \<Longrightarrow> 0 \<le> psum f ps"
  by (induction ps) auto

text \<open>Every sum the code forms is a polynomial in the moments of the points.\<close>

abbreviation "Sx ps \<equiv> psum (\<lambda>(x, y). x) ps"
abbreviation "Sy ps \<equiv> psum (\<lambda>(x, y). y) ps"
abbreviation "Sxx ps \<equiv> psum (\<lambda>(x, y). x * x) ps"
abbreviation "Sxy ps \<equiv> psum (\<lambda>(x, y). x * y) ps"
abbreviation "Syy ps \<equiv> psum (\<lambda>(x, y). y * y) ps"

lemma ss_res_moments:
  "ss_res a b ps = Syy ps - 2 * a * Sxy ps - 2 * b * Sy ps + a * a * Sxx ps + 2 * a * b * Sx ps
     + of_nat (length ps) * (b * b)"
  unfolding ss_res_def by (induction ps) (auto simp: power2_eq_square algebra_simps)

lemma centred_moments:
  "psum (\<lambda>(x, y). (x - m) * y) ps = Sxy ps - m * Sy ps"
  "psum (\<lambda>(x, y). (x - m) * (x - m)) ps = Sxx ps - 2 * m * Sx ps + of_nat (length ps) * (m * m)"
  "psum (\<lambda>(x, y). (y - m) ^ 2) ps = Syy ps - 2 * m * Sy ps + of_nat (length ps) * (m * m)"
  by (induction ps) (auto simp: power2_eq_square algebra_simps)

lemma mean_moments:
  "of_nat (length ps) * mean (map fst ps) = Sx ps" "of_nat (length ps) * mean (map snd ps) = Sy ps"
  by (cases "ps = []"; simp add: mean_def psum_def case_prod_beta')+

definition spread :: "(rat \<times> rat) list \<Rightarrow> rat" where
  "spread ps = psum (\<lambda>(x, y). (x - mean (map fst ps)) * (x - mean (map fst ps))) ps"

lemma spread_nonneg: "0 \<le> spread ps"
  unfolding spread_def by (rule psum_nonneg) auto

text \<open>Moving away from the fitted line costs the square of the distance at every point.\<close>

lemma ss_res_fit:
  assumes "spread ps \<noteq> 0"
  shows "ss_res a b ps = ss_res (fit_slope ps) (fit_intercept ps) ps + spread ps * (a - fit_slope ps) ^ 2
    + of_nat (length ps) * (b - fit_intercept ps + mean (map fst ps) * (a - fit_slope ps)) ^ 2"
proof -
  define n X Y where "n = (of_nat (length ps) :: rat)" and "X = mean (map fst ps)" and "Y = mean (map snd ps)"
  define s where "s = fit_slope ps"
  have x: "Sx ps = n * X" and y: "Sy ps = n * Y"
    using mean_moments[of ps] by (simp_all add: n_def X_def Y_def)
  have d: "spread ps = Sxx ps - n * X * X"
    using centred_moments(2)[of X ps] x by (simp add: spread_def X_def n_def)
  have "s * spread ps = Sxy ps - X * (n * Y)"
    using assms centred_moments(1)[of X ps] y by (simp add: s_def fit_slope_def spread_def X_def Let_def)
  then have sxy: "Sxy ps = s * (Sxx ps - n * X * X) + X * (n * Y)" using d by simp
  have i: "fit_intercept ps = Y - s * X" by (simp add: fit_intercept_def s_def X_def Y_def)
  show ?thesis
    unfolding ss_res_moments d i s_def[symmetric] n_def[symmetric] X_def[symmetric] x y sxy
    by (simp add: power2_eq_square algebra_simps)
qed

lemma ss_res_fit_tot:
  assumes "spread ps \<noteq> 0"
  shows "ss_tot ps = ss_res (fit_slope ps) (fit_intercept ps) ps + spread ps * (fit_slope ps) ^ 2"
proof -
  have "ss_tot ps = ss_res 0 (mean (map snd ps)) ps"
    using centred_moments(3)[of "mean (map snd ps)" ps]
    by (simp add: ss_tot_def Let_def ss_res_def)
  then show ?thesis
    using ss_res_fit[OF assms, of 0 "mean (map snd ps)"] by (simp add: fit_intercept_def algebra_simps)
qed

lemma ss_res_nonneg: "0 \<le> ss_res a b ps"
  unfolding ss_res_def by (rule psum_nonneg) auto

lemma fit_optimal:
  assumes "spread ps \<noteq> 0"
  shows "ss_res (fit_slope ps) (fit_intercept ps) ps \<le> ss_res a b ps"
  using ss_res_fit[OF assms, of a b] spread_nonneg[of ps] by (simp add: add_nonneg_nonneg)

lemma fit_r_squared_unit:
  assumes "spread ps \<noteq> 0"
  shows "0 \<le> fit_r_squared ps \<and> fit_r_squared ps \<le> 1"
proof -
  let ?r = "ss_res (fit_slope ps) (fit_intercept ps) ps"
  have "?r \<le> ss_tot ps" using ss_res_fit_tot[OF assms] spread_nonneg[of ps] by simp
  moreover have "0 \<le> ?r" by (rule ss_res_nonneg)
  ultimately show ?thesis by (cases "ss_tot ps = 0") (auto simp: fit_r_squared_def divide_le_eq_1)
qed

lemma trend_rows_length: "trend_rows gs = Inr rs \<Longrightarrow> length rs = length gs"
  by (induction gs arbitrary: rs) (auto simp: either_bind_Inr)

lemma trend_counts: "trend_count Upward rows + trend_count Downward rows + trend_count Stable rows = length rows"
proof (induction rows)
  case (Cons r rows)
  then show ?case by (cases "tw_trend_direction r") (simp_all add: trend_count_def)
qed (simp add: trend_count_def)

lemma trend_analysis_columns:
  assumes "trend_analysis c sp params = Inr r" and "dget params ''table_name'' = None"
  shows "\<exists>t. dget (sp_tables sp) DEFAULT_TABLE = Some t \<and> ''value'' \<in> set (fr_columns t)"
  using assms by (auto simp: trend_analysis_def job_frame dest!: text_filter_columns read_range_table)

end
