(* ===== verification/BatchProps.thy ===== *)
theory BatchProps imports BatchJobs Trends "HOL-Library.Multiset" begin

section \<open>Properties of the batch analytics service\<close>

text \<open>
  What the endpoints serve of a job, what a cancellation achieves, the text of a download, and the
  results of the Spark jobs. \<open>uuid4\<close> is an injective supply of ids; the only law of grouping is
  \<open>grouping_ok\<close>. The witnesses use the numerals as ids and a small table.
\<close>

definition spark_modules_of :: "codec \<Rightarrow> spark \<Rightarrow> spark_modules" where
  "spark_modules_of c sp = \<lparr>run_sensor_aggregation = sensor_aggregation c sp, run_anomaly_report = anomaly_report c sp,
     run_device_health = device_health c sp, run_trend_analysis = trend_analysis c sp\<rparr>"

lemma inj_counter: "inj (\<lambda>n. CHR ''j'' # nat_str n)"
  using inj_nat_str by (simp add: inj_def)

subsection \<open>Results and cancellation\<close>


definition demo_modules :: "json_object \<Rightarrow> spark_modules" where
  "demo_modules r = \<lparr>run_sensor_aggregation = (\<lambda>_. Inr r), run_anomaly_report = (\<lambda>_. Inl ''no table''),
     run_device_health = (\<lambda>_. Inr r), run_trend_analysis = (\<lambda>_. Inr r)\<rparr>"

definition demo_job_run :: "job_event list" where
  "demo_job_run = Submit 0 ''device_health'' [] #
     replicate 8 (Thread 1 ''j0'' (demo_modules [(''rows_processed'', JInt 7)]))"

definition demo_ids :: "nat \<Rightarrow> string" where "demo_ids n = CHR ''j'' # nat_str n"

lemma demo_ids_inj: "inj demo_ids"
  using inj_counter by (simp add: demo_ids_def[abs_def])

lemmas job_eval = job_event_def submit_job_endpoint_def submit_job_def execute_job_def execute_step_def goto_def
  with_job_def store_result_def dispatch_def demo_modules_def job_service_new_def VALID_JOB_TYPES_def
  cancel_job_endpoint_def cancel_job_def


text \<open>Cancelling a job that is still queued has no lasting effect: the request is accepted, but the
  first assignment of the job's thread overwrites the status, the job runs, stores its results and
  ends as completed.\<close>

theorem early_cancellation_lost:
  assumes "dget (js_jobs s) j = Some job" and "sj_status job = Pending" and "dget (js_threads s) j = Some Queued"
    and "dispatch mods (sj_job_type job) (sj_params job) = Inr r"
    and "s' = job_run uuid4 (CancelRequest j # CancelWrite t j # replicate 8 (Thread t' j mods)) s"
  shows "snd (cancel_job_endpoint j s) = Inr () \<and>
    (\<exists>job'. dget (js_jobs s') j = Some job' \<and> sj_status job' = Completed \<and> sj_completed_at job' = Some t') \<and>
    dget (js_results s') j = Some r"
  using assms by (simp add: job_event_def cancel_job_endpoint_def cancel_job_def execute_job_def execute_step_def
      goto_def with_job_def store_result_def eval_nat_numeral)

theorem early_cancellation_lost_witness:
  "\<exists>job'. dget (js_jobs (job_run demo_ids (Submit 0 ''device_health'' [] # CancelRequest ''j0'' # CancelWrite 1 ''j0'' #
     replicate 8 (Thread 2 ''j0'' (demo_modules []))) job_service_new)) ''j0'' = Some job' \<and> sj_status job' = Completed"
proof -
  let ?s = "job_run demo_ids [Submit 0 ''device_health'' []] job_service_new"
  have id0: "demo_ids 0 = ''j0''" by code_simp
  obtain job where job: "dget (js_jobs ?s) ''j0'' = Some job" "sj_status job = Pending"
    "dget (js_threads ?s) ''j0'' = Some Queued" "dispatch (demo_modules []) (sj_job_type job) (sj_params job) = Inr []"
    by (simp add: job_eval id0 Let_def)
  show ?thesis using early_cancellation_lost[OF job refl, of demo_ids 1 2] by auto
qed

text \<open>A cancellation that is written while the job computes is final: whatever happens afterwards,
  the job stays cancelled and none of its results is ever stored.\<close>

theorem cancellation_respected:
  assumes "inj uuid4" and "s = job_run uuid4 es job_service_new" and "dget (js_threads s) j = Some Computing"
    and "j \<in> set (js_cancelling s)" and "s' = job_run uuid4 (CancelWrite t j # es') s"
  shows "(\<exists>job. dget (js_jobs s') j = Some job \<and> sj_status job = Cancelled) \<and> dget (js_results s') j = None"
proof -
  have inv: "job_inv uuid4 s" using job_run_inv[OF assms(1) job_inv_new] assms(2) by simp
  obtain job where job: "dget (js_jobs s) j = Some job" using assms(3) threads_have_jobs[OF assms(1), of es] assms(2) by auto
  let ?w = "job_event uuid4 (CancelWrite t j) s"
  have "thread_inv (dget (js_results s) j) job Computing" using job_invD[OF inv job] assms(3) by auto
  then have "cancelled_in_time j ?w"
    using assms(3,4) job
    by (intro cancelled_in_timeI[where job = "job\<lparr>sj_status := Cancelled, sj_completed_at := Some t\<rparr>" and pc = Computing])
      (simp_all add: job_event_def cancel_job_def with_job_def thread_inv_def)
  then have "cancelled_in_time j s'"
    using run_cancelled_in_time[OF assms(1) job_event_inv[OF assms(1) inv]] assms(5) by simp
  then show ?thesis by (auto simp: cancelled_in_time_def)
qed

theorem cancellation_respected_witness:
  "dget (js_results (job_run demo_ids (CancelWrite 1 ''j0'' # replicate 9 (Thread 2 ''j0'' (demo_modules [])))
     (job_run demo_ids [Submit 0 ''device_health'' [], Thread 0 ''j0'' (demo_modules []), CancelRequest ''j0'']
       job_service_new))) ''j0'' = None"
proof -
  let ?s = "job_run demo_ids [Submit 0 ''device_health'' [], Thread 0 ''j0'' (demo_modules []), CancelRequest ''j0'']
       job_service_new"
  have id0: "demo_ids 0 = ''j0''" by code_simp
  have "dget (js_threads ?s) ''j0'' = Some Computing" "''j0'' \<in> set (js_cancelling ?s)"
    by (simp_all add: job_eval id0 Let_def)
  from cancellation_respected[OF demo_ids_inj refl this refl] show ?thesis by blast
qed

subsection \<open>Downloads\<close>

text \<open>C33. The CSV download of a completed job reads back: its first record is the keys of the first row,
  and then comes one record per row with the texts of its values, whatever characters they contain.\<close>

theorem download_reads_back:
  assumes "dget (js_jobs s) j = Some job" and "sj_status job = Completed" and "dget (js_results s) j = Some r"
    and "dget r ''rows'' = Some (JArr (map JObj (d # ds)))" and "\<forall>d' \<in> set ds. set (dkeys d') \<subseteq> set (dkeys d)"
  shows "\<exists>name text. download_results repr j s = Inr (name, text) \<and>
    csv_read text = dkeys d # map (\<lambda>d'. map (\<lambda>k. case dget d' k of None \<Rightarrow> [] | Some v \<Rightarrow> csv_text repr v) (dkeys d)) (d # ds)"
proof -
  have "dict_rows repr (dkeys d) (map JObj (d # ds)) =
      Inr (map (\<lambda>d'. map (\<lambda>k. case dget d' k of None \<Rightarrow> [] | Some v \<Rightarrow> csv_text repr v) (dkeys d)) (d # ds))"
    using assms(5) by (intro dict_rows_uniform) auto
  then show ?thesis
    using assms(1-4) by (simp add: download_results_def completed_job_def to_csv_def results_csv_def dict_csv_def)
qed

theorem download_reads_back_witness:
  "csv_read (csv_lines [[''a'', ''b''], [''x,\"y\"'', []]]) = [[''a'', ''b''], [''x,\"y\"'', []]] \<and>
   (\<exists>name text. download_results (\<lambda>_. []) ''j'' \<lparr>js_jobs = [(''j'', \<lparr>sj_job_id = ''j'', sj_job_type = ''device_health'',
      sj_status = Completed, sj_params = [], sj_result_summary = None, sj_created_at = 0, sj_completed_at = None,
      sj_error_message = None, sj_rows_processed = JInt 1\<rparr>)],
      js_results = [(''j'', [(''rows'', JArr [JObj [(''a'', JStr ''x,\"y\"''), (''b'', JNull)]])])],
      js_threads = [], js_cancelling = [], js_ids = 0\<rparr> = Inr (name, text) \<and>
    csv_read text = [[''a'', ''b''], [''x,\"y\"'', []]])"
proof -
  let ?job = "\<lparr>sj_job_id = ''j'', sj_job_type = ''device_health'',
      sj_status = Completed, sj_params = [], sj_result_summary = None, sj_created_at = 0, sj_completed_at = None,
      sj_error_message = None, sj_rows_processed = JInt 1\<rparr>"
  let ?s = "\<lparr>js_jobs = [(''j'', ?job)],
      js_results = [(''j'', [(''rows'', JArr [JObj [(''a'', JStr ''x,\"y\"''), (''b'', JNull)]])])],
      js_threads = [], js_cancelling = [], js_ids = 0\<rparr>"
  show ?thesis
    using download_reads_back[of ?s "''j''" ?job "[(''rows'', JArr [JObj [(''a'', JStr ''x,\"y\"''), (''b'', JNull)]])]"
        "[(''a'', JStr ''x,\"y\"''), (''b'', JNull)]" "[]" "\<lambda>_. []"]
    by (simp add: csv_text_def py_str_def)
qed

subsection \<open>Spark jobs\<close>

lemma permuted_map:
  assumes "mset xs = mset ys"
  shows "distinct (map f xs) = distinct (map f ys)" and "set (map f xs) = set (map f ys)"
proof -
  have "mset (map f xs) = mset (map f ys)" using assms by (simp only: mset_map)
  then show "distinct (map f xs) = distinct (map f ys)" "set (map f xs) = set (map f ys)"
    by (rule mset_eq_imp_distinct_iff, rule mset_eq_setD)
qed

lemma permuted_sum:
  fixes f :: "'a \<Rightarrow> nat"
  assumes "mset xs = mset ys"
  shows "sum_list (map f xs) = sum_list (map f ys)"
proof -
  have "mset (map f xs) = mset (map f ys)" using assms by (simp only: mset_map)
  then show ?thesis by (metis sum_mset_sum_list)
qed

text \<open>C34. The line reported for a group is the least-squares line: no other line has a smaller sum of
  squared residuals over the readings, and the coefficient of determination lies in the unit interval
  before it is clamped. The group is called upward exactly when the slope is positive and amounts to
  one percent of the mean per hour, downward when it is as steep and not positive.\<close>

theorem regression_least_squares:
  assumes "length xs = length ys" and "2 \<le> length xs" and "spread (zip xs ys) \<noteq> 0"
    and "steep = (\<bar>fit_slope (zip xs ys) * 3600\<bar> \<ge> max \<bar>mean ys\<bar> (1 / 10 ^ 10) / 100)"
  shows "ss_res (fit_slope (zip xs ys)) (fit_intercept (zip xs ys)) (zip xs ys) \<le> ss_res a b (zip xs ys) \<and>
    0 \<le> fit_r_squared (zip xs ys) \<and> fit_r_squared (zip xs ys) \<le> 1 \<and>
    compute_linear_regression xs ys = Inr \<lparr>rg_slope = py_round (fit_slope (zip xs ys)) 8,
      rg_intercept = py_round (fit_intercept (zip xs ys)) 4, rg_r_squared = py_round (fit_r_squared (zip xs ys)) 4,
      rg_trend_direction = (if \<not> steep then Stable else if fit_slope (zip xs ys) > 0 then Upward else Downward)\<rparr>"
proof -
  let ?ps = "zip xs ys"
  have u: "0 \<le> fit_r_squared ?ps" "fit_r_squared ?ps \<le> 1" using fit_r_squared_unit[OF assms(3)] by auto
  have pos: "0 < max \<bar>mean ys\<bar> (1 / 10 ^ 10)" by simp
  have st: "(\<bar>fit_slope ?ps * 3600\<bar> / max \<bar>mean ys\<bar> (1 / 10 ^ 10) < 1 / 100) = (\<not> steep)"
    unfolding assms(4) pos_divide_less_eq[OF pos] by auto
  have y: "map snd ?ps = ys" and x: "map fst ?ps = xs" using assms(1) by simp_all
  have "psum (\<lambda>(x, y). (x - mean xs) * (x - mean xs)) ?ps \<noteq> 0"
    using assms(3) unfolding spread_def x .
  then have "fit ?ps = \<lparr>rg_slope = py_round (fit_slope ?ps) 8, rg_intercept = py_round (fit_intercept ?ps) 4,
      rg_r_squared = py_round (fit_r_squared ?ps) 4, rg_trend_direction = trend_direction (fit_slope ?ps) (mean ys)\<rparr>"
    using u unfolding fit_def Let_def x y by simp
  then show ?thesis
    using assms(1,2) u st fit_optimal[OF assms(3), of a b]
    by (simp add: compute_linear_regression_def broadcast_def trend_direction_def)
qed

theorem regression_least_squares_witness:
  "0 \<le> fit_r_squared (zip [0, 3600] [1, 2]) \<and> spread (zip [0, 3600] [1, 2]) \<noteq> 0"
proof -
  have "spread (zip [0, 3600] [1, 2]) \<noteq> 0" by (simp add: spread_def mean_def)
  then show ?thesis using regression_least_squares[of "[0, 3600]" "[1, 2]" _ 0 0, OF _ _ _ refl] by simp
qed


text \<open>A library that keeps the order of the groups, and two readings of two devices.\<close>

definition demo_spark :: "(string, frame) dict \<Rightarrow> time \<Rightarrow> spark" where
  "demo_spark tables now = \<lparr>sp_tables = tables, sp_now = now, sp_cast_time = (\<lambda>v. case v of Stamp t \<Rightarrow> Some t | _ \<Rightarrow> None),
     sp_lit_time = (\<lambda>_. None), sp_lit_text = json_str, sp_order = (\<lambda>ks. ks), sp_stddev = (\<lambda>_. None),
     sp_range_window = (\<lambda>_ _ fr. Inr fr)\<rparr>"

lemma demo_grouping: "grouping_ok (sp_order (demo_spark tables now))"
  by (simp add: grouping_ok_def demo_spark_def)

definition demo_rows :: "frame_row list" where
  "demo_rows = [[(''device_id'', Text ''d1''), (''device_type'', Text ''t''), (''timestamp'', Stamp 0), (''value'', Num 1)],
     [(''device_id'', Text ''d2''), (''device_type'', Text ''t''), (''timestamp'', Stamp 7200), (''value'', Null)]]"


text \<open>A reading dated an hour ahead of the clock puts a healthy device above the documented maximum.\<close>

lemma future_reading_above_100:
  "map hr_health_score (health_rows (demo_spark [] 3600) (tl demo_rows) []) = [101]"
  by code_simp

text \<open>Sensor aggregation accounts for every reading once: the periods and device types of its rows are
  distinct and sorted, their counts add up to the readings with a value, and the average of a row lies
  between its minimum and its maximum.\<close>

theorem aggregation_accounts_for_readings:
  assumes "grouping_ok (sp_order sp)"
  shows "distinct (map (\<lambda>a. [ag_period a, ag_device_type a]) (agg_rows sp granularity rows)) \<and>
    sorted (map (\<lambda>a. [ag_period a, ag_device_type a]) (agg_rows sp granularity rows)) \<and>
    sum_list (map ag_count (agg_rows sp granularity rows)) = length (numbers ''value'' rows) \<and>
    (\<forall>a \<in> set (agg_rows sp granularity rows). (case (ag_min a, ag_avg a, ag_max a) of
       (Some lo, Some av, Some hi) \<Rightarrow> ag_count a > 0 \<and> lo \<le> av \<and> av \<le> hi
     | (None, None, None) \<Rightarrow> ag_count a = 0 | _ \<Rightarrow> False))"
proof -
  let ?key = "\<lambda>r. [period_of granularity r, cell_of r ''device_type'']"
  let ?g = "group_by sp ?key rows"
  let ?s = "agg_groups sp granularity rows"
  have mset: "mset ?s = mset ?g" unfolding agg_groups_def by (rule mset_sort)
  have keys: "map (\<lambda>a. [ag_period a, ag_device_type a]) (agg_rows sp granularity rows) = map fst ?s"
  proof -
    have "[ag_period (agg_row_of sp p), ag_device_type (agg_row_of sp p)] = fst p" if "p \<in> set ?s" for p
    proof -
      have "p \<in> set ?g" using that mset_eq_setD[OF mset] by simp
      then have "fst p \<in> set (map fst ?g)" by simp
      then show ?thesis
        using group_by_keys[OF assms, of ?key rows] by (auto simp: agg_row_of_def Let_def case_prod_beta')
    qed
    then show ?thesis by (simp add: agg_rows_def)
  qed
  have "sorted (map fst ?s)" by (simp add: agg_groups_def)
  moreover have "distinct (map fst ?s)"
    using group_by_keys[OF assms, of ?key rows] permuted_map(1)[OF mset] by blast
  moreover have "sum_list (map ag_count (agg_rows sp granularity rows)) = length (numbers ''value'' rows)"
    using numbers_filter_total[OF assms, of "''value''" ?key rows] permuted_sum[OF mset, of "\<lambda>(k, rs). length (numbers ''value'' rs)"]
    by (simp add: agg_rows_def agg_row_of_def Let_def case_prod_beta' comp_def)
  ultimately show ?thesis
    unfolding keys by (auto simp: agg_rows_def agg_row_of_def Let_def agg_def list_min_le_mean mean_le_list_max)
qed

theorem aggregation_accounts_for_readings_witness:
  "sum_list (map ag_count (agg_rows (demo_spark [] 0) (JStr ''hour'') demo_rows)) = 1"
  using aggregation_accounts_for_readings[OF demo_grouping, of "[]" 0 "JStr ''hour''" demo_rows]
  by (simp add: demo_rows_def numbers_def map_filter_simps cell_of_def dget_or_def)

text \<open>On the tables the services of the repository create, a job of any of the four types fails, for
  every parameters that do not name other tables: the readings have no column \<open>value\<close>, and there is no
  table \<open>anomaly_events\<close>. Once its thread has run, such a job is stored as failed with an error.\<close>

theorem default_jobs_fail:
  assumes "dget (sp_tables sp) ''telemetry_readings'' = Some telemetry" and "fr_columns telemetry = TELEMETRY_COLUMNS"
    and "dget (sp_tables sp) ''anomaly_events'' = None"
    and "\<forall>k \<in> {''table_name'', ''telemetry_table'', ''anomaly_table''}. dget (sj_params job) k = None"
    and "dget (js_jobs s) j = Some job" and "sj_status job = Pending" and "dget (js_threads s) j = Some Queued"
    and "s' = job_run uuid4 (replicate 6 (Thread t j (spark_modules_of c sp))) s"
  shows "\<exists>e job'. dget (js_jobs s') j = Some job' \<and> sj_status job' = Failed \<and> sj_error_message job' = Some e \<and>
    js_results s' = js_results s"
proof -
  have no_value: "\<not> (\<exists>t. dget (sp_tables sp) DEFAULT_TABLE = Some t \<and> ''value'' \<in> set (fr_columns t))"
    using assms(1,2) by (auto simp: DEFAULT_TABLE_def TELEMETRY_COLUMNS_def)
  have no_table: "dget (sp_tables sp) DEFAULT_ANOMALY_TABLE = None" using assms(3) by (simp add: DEFAULT_ANOMALY_TABLE_def)
  have p: "dget (sj_params job) ''table_name'' = None" "dget (sj_params job) ''anomaly_table'' = None"
    using assms(4) by (rule bspec, simp)+
  have "sensor_aggregation c sp (sj_params job) \<noteq> Inr r" "trend_analysis c sp (sj_params job) \<noteq> Inr r"
    "anomaly_report c sp (sj_params job) \<noteq> Inr r" "device_health c sp (sj_params job) \<noteq> Inr r" for r
    by (rule notI, drule sensor_aggregation_columns[OF _ p(1)], erule notE[OF no_value],
        rule notI, drule trend_analysis_columns[OF _ p(1)], erule notE[OF no_value],
        rule notI, drule anomaly_report_table[OF _ p(1)], erule notE[OF _ no_table],
        rule notI, drule device_health_table[OF _ p(2)], erule notE[OF _ no_table])
  then have "dispatch (spark_modules_of c sp) ty (sj_params job) \<noteq> Inr r" for ty r
    unfolding dispatch_def spark_modules_of_def by simp
  then obtain e where e: "dispatch (spark_modules_of c sp) (sj_job_type job) (sj_params job) = Inl e"
    by (cases "dispatch (spark_modules_of c sp) (sj_job_type job) (sj_params job)") auto
  show ?thesis
    using assms(5-8) e
    by (simp add: job_event_def execute_job_def execute_step_def goto_def with_job_def eval_nat_numeral)
qed

definition plain_codec :: codec where
  "plain_codec = \<lparr>cd_loads = (\<lambda>_. None), cd_dumps = (\<lambda>_. []), cd_isoformat = (\<lambda>_. []), cd_fromisoformat = (\<lambda>_. None),
     cd_uuid = json_str, cd_datetime = (\<lambda>_. None), cd_float_str = (\<lambda>_. []), cd_float = (\<lambda>_. None)\<rparr>"

theorem default_jobs_fail_witness:
  "\<exists>job'. dget (js_jobs (job_run demo_ids (Submit 0 ''device_health'' [] # replicate 6 (Thread 1 ''j0''
      (spark_modules_of plain_codec (demo_spark [(''telemetry_readings'', \<lparr>fr_columns = TELEMETRY_COLUMNS, fr_rows = []\<rparr>)] 0))))
      job_service_new)) ''j0'' = Some job' \<and> sj_status job' = Failed"
proof -
  let ?s = "job_run demo_ids [Submit 0 ''device_health'' []] job_service_new"
  let ?sp = "demo_spark [(''telemetry_readings'', \<lparr>fr_columns = TELEMETRY_COLUMNS, fr_rows = []\<rparr>)] 0"
  have id0: "demo_ids 0 = ''j0''" by code_simp
  obtain job where job: "dget (js_jobs ?s) ''j0'' = Some job" "sj_status job = Pending" "sj_params job = []"
    "dget (js_threads ?s) ''j0'' = Some Queued"
    by (simp add: job_eval id0 Let_def)
  let ?fr = "\<lparr>fr_columns = TELEMETRY_COLUMNS, fr_rows = []\<rparr>"
  have "dget (sp_tables ?sp) ''telemetry_readings'' = Some ?fr" "fr_columns ?fr = TELEMETRY_COLUMNS"
    "dget (sp_tables ?sp) ''anomaly_events'' = None"
    "\<forall>k \<in> {''table_name'', ''telemetry_table'', ''anomaly_table''}. dget (sj_params job) k = None"
    by (simp_all add: demo_spark_def job(3))
  from default_jobs_fail[OF this job(1,2,4) refl, of demo_ids 1 plain_codec] show ?thesis by auto
qed

text \<open>For a connection string whose user has no colon and whose user and password have no at sign, Spark
  connects to the host of the string with its user and password, and the URL carries no credentials.\<close>

theorem dsn_round_trip:
  assumes "CHR '':'' \<notin> set scheme" and "CHR '':'' \<notin> set user" and "CHR ''@'' \<notin> set user" and "CHR ''@'' \<notin> set password"
    and "dsn = scheme @ ''://'' @ user @ CHR '':'' # password @ CHR ''@'' # hostinfo"
  shows "postgres_jdbc_url_clean dsn = ''jdbc:postgresql://'' @ hostinfo \<and>
    dget (postgres_properties dsn) ''user'' = Some user \<and> dget (postgres_properties dsn) ''password'' = Some password"
proof -
  have r: "dsn_remainder dsn = (user @ CHR '':'' # password) @ CHR ''@'' # hostinfo"
    using split_once_scheme[OF assms(1), of "user @ CHR '':'' # password @ CHR ''@'' # hostinfo"] assms(5)
    by (simp add: dsn_remainder_def)
  have at: "split_once ''@'' (dsn_remainder dsn) = Some (user @ CHR '':'' # password, hostinfo)"
    unfolding r using assms(3,4) by (intro split_once_char) auto
  have colon: "split_once '':'' (user @ CHR '':'' # password) = Some (user, password)"
    using assms(2) by (rule split_once_char)
  show ?thesis by (simp add: postgres_jdbc_url_clean_def postgres_properties_def at colon Let_def)
qed

theorem dsn_round_trip_witness:
  "postgres_jdbc_url_clean ''postgresql+asyncpg://iot:secret@db:5432/iot'' = ''jdbc:postgresql://db:5432/iot''"
  using dsn_round_trip[of "''postgresql+asyncpg''" "''iot''" "''secret''" _ "''db:5432/iot''", OF _ _ _ _ refl] by simp

text \<open>With an at sign in the password the host is misread.\<close>

lemma dsn_at_sign_misread:
  "postgres_jdbc_url_clean ''postgresql://iot:p@ss@db/iot'' = ''jdbc:postgresql://ss@db/iot''"
  by code_simp

end
