(* ===== verification/CloudTelemetry.thy ===== *)
theory CloudTelemetry imports Jobs begin

section \<open>Cloud telemetry\<close>

text \<open>
  \<open>cloud_api/services/telemetry_service.py\<close>, the endpoints of \<open>routers/telemetry.py\<close> and
  \<open>routers/devices.py\<close>, and \<open>grpc_server/telemetry_servicer.py\<close>. A table is the list of its rows; rows
  with the same time keep that order when SQL sorts. Whether a commit succeeds is an argument; a
  failed one stores nothing. The order in which groups come out of SQL is the argument \<open>ord\<close>.
\<close>

record telemetry_row =
  cr_id :: uuid
  cr_device_id :: uuid
  cr_device_type :: string
  cr_timestamp :: time
  cr_payload :: json_object
  cr_metadata :: json_object

record telemetry_db =
  ct_rows :: "telemetry_row list"
  ct_ids :: nat

definition order_ok :: "('k list \<Rightarrow> 'k list) \<Rightarrow> bool" where
  "order_ok ord \<longleftrightarrow> (\<forall>ks. distinct ks \<longrightarrow> distinct (ord ks) \<and> set (ord ks) = set ks)"

text \<open>\<open>SELECT key, COUNT(*) ... GROUP BY key\<close>\<close>

definition group_counts :: "('k list \<Rightarrow> 'k list) \<Rightarrow> ('a \<Rightarrow> 'k) \<Rightarrow> 'a list \<Rightarrow> ('k \<times> nat) list" where
  "group_counts ord key rows = map (\<lambda>k. (k, length [r \<leftarrow> rows. key r = k])) (ord (remdups (map key rows)))"

subsection \<open>Service\<close>

definition row_of_reading :: "uuid \<Rightarrow> telemetry_reading \<Rightarrow> telemetry_row" where
  "row_of_reading i r = \<lparr>cr_id = i, cr_device_id = tr_device_id r, cr_device_type = tr_device_type r,
     cr_timestamp = tr_timestamp r, cr_payload = tr_payload r, cr_metadata = tr_metadata r\<rparr>"

definition store_batch :: "(nat \<Rightarrow> uuid) \<Rightarrow> bool \<Rightarrow> telemetry_reading list \<Rightarrow> (telemetry_db, http_error, nat) action" where
  "store_batch uuid4 commit_ok readings d =
     (if readings = [] then ret 0 d
      else let rows = map (\<lambda>(n, r). row_of_reading (uuid4 n) r) (enumerate (ct_ids d) readings);
               d = d\<lparr>ct_ids := ct_ids d + length readings\<rparr>
           in if commit_ok then ret (length rows) (d\<lparr>ct_rows := ct_rows d @ rows\<rparr>) else raise (HTTPError 500) d)"

record telemetry_query =
  tq_device_id :: "uuid option"
  tq_device_type :: "string option"
  tq_start_time :: "time option"
  tq_end_time :: "time option"

definition row_matches :: "telemetry_query \<Rightarrow> telemetry_row \<Rightarrow> bool" where
  "row_matches q r \<longleftrightarrow>
     (case tq_device_id q of None \<Rightarrow> True | Some i \<Rightarrow> cr_device_id r = i) \<and>
     (case tq_device_type q of None \<Rightarrow> True | Some t \<Rightarrow> cr_device_type r = t) \<and>
     (case tq_start_time q of None \<Rightarrow> True | Some t \<Rightarrow> cr_timestamp r \<ge> t) \<and>
     (case tq_end_time q of None \<Rightarrow> True | Some t \<Rightarrow> cr_timestamp r \<le> t)"

definition row_dict :: "codec \<Rightarrow> telemetry_row \<Rightarrow> json_object" where
  "row_dict c r = [(''id'', JStr (cr_id r)), (''device_id'', JStr (cr_device_id r)),
     (''device_type'', JStr (cr_device_type r)), (''timestamp'', JStr (cd_isoformat c (cr_timestamp r))),
     (''payload'', JObj (cr_payload r)), (''metadata'', JObj (cr_metadata r))]"

definition query_rows :: "telemetry_query \<Rightarrow> nat \<Rightarrow> nat \<Rightarrow> telemetry_db \<Rightarrow> telemetry_row list" where
  "query_rows q lmt off d = slice off lmt (newest_first cr_timestamp [r \<leftarrow> ct_rows d. row_matches q r])"

definition query_telemetry :: "codec \<Rightarrow> telemetry_query \<Rightarrow> nat \<Rightarrow> nat \<Rightarrow> telemetry_db \<Rightarrow> json_object list \<times> nat" where
  "query_telemetry c q lmt off d = (map (row_dict c) (query_rows q lmt off d), length [r \<leftarrow> ct_rows d. row_matches q r])"

record telemetry_stats =
  ts_total_readings :: nat
  ts_by_device_type :: "(string, nat) dict"
  ts_earliest :: "time option"
  ts_latest :: "time option"

definition get_stats :: "(string list \<Rightarrow> string list) \<Rightarrow> telemetry_db \<Rightarrow> telemetry_stats" where
  "get_stats ord d = \<lparr>ts_total_readings = length (ct_rows d), ts_by_device_type = group_counts ord cr_device_type (ct_rows d),
     ts_earliest = (if ct_rows d = [] then None else Some (Min (cr_timestamp ` set (ct_rows d)))),
     ts_latest = (if ct_rows d = [] then None else Some (Max (cr_timestamp ` set (ct_rows d))))\<rparr>"

subsection \<open>Endpoints\<close>

definition receive_batch :: "(nat \<Rightarrow> uuid) \<Rightarrow> bool \<Rightarrow> telemetry_reading list \<Rightarrow> (telemetry_db, http_error, nat) action" where
  "receive_batch uuid4 commit_ok readings d = store_batch uuid4 commit_ok readings d"

record telemetry_page =
  pg_total :: nat
  pg_limit :: int
  pg_offset :: int
  pg_readings :: "json_object list"

definition query_telemetry_endpoint :: "codec \<Rightarrow> telemetry_query \<Rightarrow> int \<Rightarrow> int \<Rightarrow> telemetry_db \<Rightarrow> http_error + telemetry_page" where
  "query_telemetry_endpoint c q lmt off d =
     (if lmt < 1 \<or> 1000 < lmt \<or> off < 0 then Inl (HTTPError 422)
      else case query_telemetry c q (nat lmt) (nat off) d of (readings, n) \<Rightarrow>
        Inr \<lparr>pg_total = n, pg_limit = lmt, pg_offset = off, pg_readings = readings\<rparr>)"

subsection \<open>gRPC servicer\<close>

text \<open>
  A reading in a request is an object with attributes, some of which may be missing, or a plain dict,
  which has none of them. JSON text in a payload is parsed, anything else taken as it is.
\<close>

datatype raw_reading = Message (rw_attrs: "(string, json) dict") | Plain json_object

definition json_or_value :: "codec \<Rightarrow> json \<Rightarrow> json option" where
  "json_or_value c j = (case j of JStr s \<Rightarrow> cd_loads c s | _ \<Rightarrow> Some j)"

text \<open>\<open>TelemetryReading(...)\<close> of the converted fields; None stands for any exception.\<close>

definition checked_reading :: "codec \<Rightarrow> json option \<Rightarrow> json option \<Rightarrow> json option \<Rightarrow> json option \<Rightarrow> json option \<Rightarrow>
    telemetry_reading option" where
  "checked_reading c device_id device_type timestamp payload metadata =
     Option.bind (Option.bind device_id (cd_uuid c)) (\<lambda>i.
     Option.bind (Option.bind device_type json_str) (\<lambda>ty.
     Option.bind (Option.bind (Option.bind timestamp json_str) (cd_fromisoformat c)) (\<lambda>t.
     Option.bind (Option.bind (Option.bind payload (json_or_value c)) json_dict) (\<lambda>p.
     Option.bind (Option.bind (Option.bind metadata (json_or_value c)) json_dict) (\<lambda>m.
       Some \<lparr>tr_device_id = i, tr_device_type = ty, tr_timestamp = t, tr_payload = p, tr_metadata = m\<rparr>)))))"

definition unary_reading :: "codec \<Rightarrow> raw_reading \<Rightarrow> telemetry_reading option" where
  "unary_reading c raw = (case raw of
     Message a \<Rightarrow> checked_reading c (dget a ''device_id'') (dget a ''device_type'') (dget a ''timestamp'')
       (dget a ''payload'') (dget a ''metadata'')
   | Plain d \<Rightarrow> None)"

text \<open>The streaming call looks attributes up with defaults; a dict only gives its device id.\<close>

definition stream_reading :: "codec \<Rightarrow> time \<Rightarrow> raw_reading \<Rightarrow> telemetry_reading option" where
  "stream_reading c now raw =
     (let attrs = (case raw of Message a \<Rightarrow> a | Plain _ \<Rightarrow> []);
          device_id = (case raw of Message a \<Rightarrow> dget a ''device_id'' | Plain d \<Rightarrow> Some (dget_or d ''device_id'' (JStr '''')))
      in checked_reading c device_id (Some (dget_or attrs ''device_type'' (JStr ''unknown'')))
           (Some (dget_or attrs ''timestamp'' (JStr (cd_isoformat c now))))
           (Some (dget_or attrs ''payload'' (JObj []))) (Some (dget_or attrs ''metadata'' (JObj []))))"

definition all_readings :: "(raw_reading \<Rightarrow> telemetry_reading option) \<Rightarrow> raw_reading list \<Rightarrow> telemetry_reading list option" where
  "all_readings conv raws =
     (if list_all (\<lambda>r. conv r \<noteq> None) raws then Some (map (\<lambda>r. the (conv r)) raws) else None)"

definition SendTelemetry :: "codec \<Rightarrow> (nat \<Rightarrow> uuid) \<Rightarrow> bool \<Rightarrow> raw_reading list \<Rightarrow> (telemetry_db, http_error, nat) action" where
  "SendTelemetry c uuid4 commit_ok raws d = (case all_readings (unary_reading c) raws of
     None \<Rightarrow> raise (HTTPError 500) d | Some readings \<Rightarrow> store_batch uuid4 commit_ok readings d)"

text \<open>One commit per request of the stream: the requests before a failing one stay stored.\<close>

fun stream_requests :: "codec \<Rightarrow> (nat \<Rightarrow> uuid) \<Rightarrow> time \<Rightarrow> nat \<Rightarrow> (raw_reading list \<times> bool) list \<Rightarrow>
    (telemetry_db, http_error, nat) action" where
  "stream_requests c uuid4 now acc [] d = ret acc d"
| "stream_requests c uuid4 now acc ((raws, commit_ok) # rs) d =
     (case all_readings (stream_reading c now) raws of
        None \<Rightarrow> raise (HTTPError 500) d
      | Some readings \<Rightarrow> (case store_batch uuid4 commit_ok readings d of
          (d, Inl e) \<Rightarrow> raise e d
        | (d, Inr accepted) \<Rightarrow> stream_requests c uuid4 now (acc + accepted) rs d))"

definition StreamTelemetry :: "codec \<Rightarrow> (nat \<Rightarrow> uuid) \<Rightarrow> time \<Rightarrow> (raw_reading list \<times> bool) list \<Rightarrow>
    (telemetry_db, http_error, nat) action" where
  "StreamTelemetry c uuid4 now requests d = stream_requests c uuid4 now 0 requests d"

subsection \<open>Device fleet\<close>

record device_summary =
  dy_device_id :: uuid
  dy_name :: string
  dy_device_type :: string
  dy_status :: string
  dy_last_seen_at :: "time option"

text \<open>\<open>ORDER BY last_seen_at DESC NULLS LAST\<close>\<close>

definition last_seen_first :: "device_summary list \<Rightarrow> device_summary list" where
  "last_seen_first ds = newest_first (\<lambda>d. the (dy_last_seen_at d)) [d \<leftarrow> ds. dy_last_seen_at d \<noteq> None]
     @ [d \<leftarrow> ds. dy_last_seen_at d = None]"

text \<open>A missing table makes the query raise, and the endpoint answers with the empty list.\<close>

definition cloud_list_devices :: "string \<Rightarrow> string \<Rightarrow> int \<Rightarrow> int \<Rightarrow> device_summary list option \<Rightarrow> http_error + device_summary list" where
  "cloud_list_devices device_type status lmt off table =
     (if lmt < 1 \<or> 1000 < lmt \<or> off < 0 then Inl (HTTPError 422)
      else case table of None \<Rightarrow> Inr []
      | Some ds \<Rightarrow> Inr (slice (nat off) (nat lmt) (last_seen_first
          [d \<leftarrow> ds. (device_type = [] \<or> dy_device_type d = device_type) \<and> (status = [] \<or> dy_status d = status)])))"

record fleet_stats =
  fs_total_devices :: nat
  fs_by_type :: "(string, nat) dict"
  fs_by_status :: "(string, nat) dict"

definition device_stats :: "(string list \<Rightarrow> string list) \<Rightarrow> device_summary list option \<Rightarrow> fleet_stats" where
  "device_stats ord table = (case table of
     None \<Rightarrow> \<lparr>fs_total_devices = 0, fs_by_type = [], fs_by_status = []\<rparr>
   | Some ds \<Rightarrow> \<lparr>fs_total_devices = length ds, fs_by_type = group_counts ord dy_device_type ds,
       fs_by_status = group_counts ord dy_status ds\<rparr>)"

subsection \<open>Lemmas\<close>

lemma group_counts_get:
  assumes "order_ok ord"
  shows "dget (group_counts ord key rows) k =
    (if k \<in> key ` set rows then Some (length [r \<leftarrow> rows. key r = k]) else None)"
proof -
  have "set (ord (remdups (map key rows))) = key ` set rows" using assms by (simp add: order_ok_def)
  then show ?thesis by (simp add: group_counts_def map_of_map_restrict restrict_map_def)
qed

lemma group_counts_keys:
  "order_ok ord \<Longrightarrow> distinct (dkeys (group_counts ord key rows)) \<and> set (dkeys (group_counts ord key rows)) = key ` set rows"
  by (simp add: group_counts_def comp_def order_ok_def)

lemma group_counts_total:
  assumes "order_ok ord"
  shows "sum_list (dvalues (group_counts ord key rows)) = length rows"
proof -
  have "distinct (ord (remdups (map key rows)))" "set (ord (remdups (map key rows))) = key ` set rows"
    using assms by (simp_all add: order_ok_def)
  then show ?thesis
    using sum_filter_keys[of "ord (remdups (map key rows))" rows key] by (simp add: group_counts_def comp_def)
qed

lemma store_batch_ok:
  "store_batch u True rs d = (d\<lparr>ct_rows := ct_rows d @ map (\<lambda>(n, r). row_of_reading (u n) r) (enumerate (ct_ids d) rs),
     ct_ids := ct_ids d + length rs\<rparr>, Inr (length rs))"
  by (cases rs) (simp_all add: store_batch_def Let_def)

text \<open>Pages of one size, one after the other, are the whole result.\<close>

lemma slices_concat: "concat (map (\<lambda>i. slice (i * n) n xs) [0..<k]) = take (k * n) xs"
proof (induction k)
  case (Suc k)
  have "take (Suc k * n) xs = take (k * n) xs @ take n (drop (k * n) xs)"
    by (metis add.commute mult_Suc take_add)
  then show ?case using Suc by (simp add: slice_def)
qed simp

text \<open>The readings of requests that go through.\<close>

definition request_readings :: "codec \<Rightarrow> time \<Rightarrow> (raw_reading list \<times> bool) list \<Rightarrow> telemetry_reading list" where
  "request_readings c now rs = concat (map (\<lambda>(raws, _). the (all_readings (stream_reading c now) raws)) rs)"

definition stored_rows :: "(nat \<Rightarrow> uuid) \<Rightarrow> nat \<Rightarrow> telemetry_reading list \<Rightarrow> telemetry_row list" where
  "stored_rows uuid4 n readings = map (\<lambda>(n, r). row_of_reading (uuid4 n) r) (enumerate n readings)"

lemma stored_rows_append: "stored_rows u n (xs @ ys) = stored_rows u n xs @ stored_rows u (n + length xs) ys"
  by (simp add: stored_rows_def enumerate_append_eq)

lemma stream_requests_ok:
  assumes "\<forall>(raws, commit_ok) \<in> set rs. commit_ok \<and> all_readings (stream_reading c now) raws \<noteq> None"
  shows "stream_requests c u now acc (rs @ rs') d =
    stream_requests c u now (acc + length (request_readings c now rs)) rs'
      (d\<lparr>ct_rows := ct_rows d @ stored_rows u (ct_ids d) (request_readings c now rs),
         ct_ids := ct_ids d + length (request_readings c now rs)\<rparr>)"
  using assms
proof (induction rs arbitrary: acc d)
  case Nil
  then show ?case by (simp add: request_readings_def stored_rows_def)
next
  case (Cons p rs)
  obtain raws where p: "p = (raws, True)" and a: "all_readings (stream_reading c now) raws \<noteq> None"
    using Cons.prems by (cases p) auto
  obtain xs where xs: "all_readings (stream_reading c now) raws = Some xs" using a by blast
  have r: "request_readings c now (p # rs) = xs @ request_readings c now rs" by (simp add: request_readings_def p xs)
  have "stream_requests c u now acc ((p # rs) @ rs') d = stream_requests c u now (acc + length xs) (rs @ rs')
      (d\<lparr>ct_rows := ct_rows d @ stored_rows u (ct_ids d) xs, ct_ids := ct_ids d + length xs\<rparr>)"
    by (simp add: p xs store_batch_ok stored_rows_def)
  also have "\<dots> = stream_requests c u now (acc + length xs + length (request_readings c now rs)) rs'
      (d\<lparr>ct_rows := ct_rows d @ stored_rows u (ct_ids d) (xs @ request_readings c now rs),
         ct_ids := ct_ids d + length xs + length (request_readings c now rs)\<rparr>)"
    using Cons.IH Cons.prems by (simp add: stored_rows_append)
  finally show ?case by (simp add: r add.assoc)
qed

lemma store_batch_failed:
  "readings \<noteq> [] \<Longrightarrow> store_batch u False readings d = (d\<lparr>ct_ids := ct_ids d + length readings\<rparr>, Inl (HTTPError 500))"
  by (simp add: store_batch_def Let_def)

text \<open>A JSON dict sent to the streaming call is stored with its device id and nothing else.\<close>

lemma plain_reading_loses_payload:
  "stream_reading c now (Plain d) = Some r \<Longrightarrow> tr_payload r = [] \<and> tr_metadata r = [] \<and> tr_device_type r = ''unknown''"
  by (auto simp: stream_reading_def checked_reading_def dget_or_def json_or_value_def json_str_def json_dict_def
      bind_eq_Some_conv Let_def)

end
