(* ===== verification/Analytics.thy ===== *)
theory Analytics imports CloudTelemetry "HOL-Library.Sublist" begin

section \<open>Cloud analytics\<close>

text \<open>
  \<open>cloud_api/services/analytics_service.py\<close> and \<open>cloud_api/routers/analytics.py\<close>. No service of the
  repository creates the table \<open>alerts\<close> these queries read, so it may be missing; \<open>ok n\<close> says whether the
  n-th statement of a session succeeds otherwise. An exception is caught and what was computed so far
  is the answer.
\<close>

record alert_row =
  ar_device_id :: uuid
  ar_device_type :: string
  ar_severity :: string
  ar_timestamp :: time

record anomaly_summary =
  as_total_anomalies :: nat
  as_by_device_type :: "(string, nat) dict"
  as_by_severity :: "(string, nat) dict"

definition anomaly_summary :: "(string list \<Rightarrow> string list) \<Rightarrow> (nat \<Rightarrow> bool) \<Rightarrow> time \<Rightarrow> time \<Rightarrow> alert_row list option \<Rightarrow>
    anomaly_summary" where
  "anomaly_summary ord ok start_time end_time alerts =
     (let result = \<lparr>as_total_anomalies = 0, as_by_device_type = [], as_by_severity = []\<rparr> in
      case alerts of None \<Rightarrow> result
      | Some rows \<Rightarrow>
          (let rows = [a \<leftarrow> rows. ar_timestamp a \<ge> start_time \<and> ar_timestamp a \<le> end_time] in
           if \<not> ok 0 then result
           else let result = result\<lparr>as_total_anomalies := length rows\<rparr> in
             if \<not> ok 1 then result
             else let result = result\<lparr>as_by_device_type := group_counts ord ar_device_type rows\<rparr> in
               if \<not> ok 2 then result
               else result\<lparr>as_by_severity := group_counts ord ar_severity rows\<rparr>))"

text \<open>The endpoint's defaults: the last 24 hours.\<close>

definition get_anomaly_summary :: "(string list \<Rightarrow> string list) \<Rightarrow> (nat \<Rightarrow> bool) \<Rightarrow> time \<Rightarrow> time option \<Rightarrow> time option \<Rightarrow>
    alert_row list option \<Rightarrow> anomaly_summary \<times> time \<times> time" where
  "get_anomaly_summary ord ok now start_time end_time alerts =
     (let e = (case end_time of None \<Rightarrow> now | Some t \<Rightarrow> t);
          s = (case start_time of None \<Rightarrow> now - 86400 | Some t \<Rightarrow> t)
      in (anomaly_summary ord ok s e alerts, s, e))"

subsection \<open>Health scores\<close>

record device_health_entry =
  he_device_id :: uuid
  he_device_type :: string
  he_anomaly_count :: nat
  he_total_readings :: nat
  he_health_score :: rat

text \<open>
  One group per device and type; a later group of the same device overwrites the earlier one in the
  dict of the code.
\<close>

definition reading_counts :: "((uuid \<times> string) list \<Rightarrow> (uuid \<times> string) list) \<Rightarrow> telemetry_row list \<Rightarrow> (uuid, string \<times> nat) dict" where
  "reading_counts ord rows =
     fold (\<lambda>((i, ty), n). dset i (ty, n)) (group_counts ord (\<lambda>r. (cr_device_id r, cr_device_type r)) rows) []"

definition entry_score :: "nat \<Rightarrow> nat \<Rightarrow> rat" where
  "entry_score anomalies total_readings =
     (if total_readings > 0 then max 0 (1 - of_nat anomalies / of_nat total_readings)
      else if anomalies = 0 then 1 else 0)"

definition health_entry :: "(uuid, string \<times> nat) dict \<Rightarrow> (uuid, nat) dict \<Rightarrow> uuid \<Rightarrow> device_health_entry" where
  "health_entry readings anomaly_counts i =
     (let total_readings = (case dget readings i of None \<Rightarrow> 0 | Some (_, n) \<Rightarrow> n);
          anomalies = dget_or anomaly_counts i 0;
          device_type = (case dget readings i of None \<Rightarrow> ''unknown'' | Some (ty, _) \<Rightarrow> ty)
      in \<lparr>he_device_id = i, he_device_type = device_type, he_anomaly_count = anomalies,
          he_total_readings = total_readings, he_health_score = py_round (entry_score anomalies total_readings) 4\<rparr>)"

definition device_health_scores :: "((uuid \<times> string) list \<Rightarrow> (uuid \<times> string) list) \<Rightarrow> (uuid list \<Rightarrow> uuid list) \<Rightarrow> (nat \<Rightarrow> bool) \<Rightarrow>
    time \<Rightarrow> telemetry_row list \<Rightarrow> alert_row list option \<Rightarrow> device_health_entry list" where
  "device_health_scores ord ord' ok now telemetry alerts =
     (let cutoff = now - 86400 in
      if \<not> ok 0 then []
      else let readings = reading_counts ord [r \<leftarrow> telemetry. cr_timestamp r \<ge> cutoff] in
        case alerts of None \<Rightarrow> []
        | Some rows \<Rightarrow>
            if \<not> ok 1 then []
            else let anomaly_counts = group_counts ord' ar_device_id [a \<leftarrow> rows. ar_timestamp a \<ge> cutoff];
                     all_device_ids = set (dkeys readings) \<union> set (dkeys anomaly_counts)
                 in map (health_entry readings anomaly_counts) (sorted_list_of_set all_device_ids))"

subsection \<open>Ad hoc queries\<close>

record analytics_query =
  aq_metric :: string
  aq_device_type :: "string option"
  aq_device_id :: "string option"
  aq_start_time :: "time option"
  aq_end_time :: "time option"
  aq_group_by :: "string option"
  aq_limit :: int

text \<open>\<open>x or default\<close> and the truth of an optional string.\<close>

definition given :: "string option \<Rightarrow> bool" where
  "given s = (case s of None \<Rightarrow> False | Some x \<Rightarrow> x \<noteq> [])"

definition group_col :: "analytics_query \<Rightarrow> string" where
  "group_col q = (if given (aq_group_by q) then the (aq_group_by q) else ''device_type'')"

definition analytics_sql :: "analytics_query \<Rightarrow> string" where
  "analytics_sql q =
     ''SELECT '' @ group_col q @ '', COUNT(*) as cnt FROM '' @
     (if aq_metric q = ''anomaly_count'' then ''alerts'' else ''telemetry_readings'') @
     '' WHERE timestamp >= :start AND timestamp <= :end'' @
     (if given (aq_device_type q) then '' AND device_type = :device_type'' else []) @
     (if given (aq_device_id q) then '' AND device_id = :device_id'' else []) @
     '' GROUP BY '' @ group_col q @ '' ORDER BY cnt DESC LIMIT :limit''"

datatype sql_param = PTime time | PInt int | PText string

definition analytics_params :: "time \<Rightarrow> analytics_query \<Rightarrow> (string, sql_param) dict" where
  "analytics_params now q =
     [(''start'', PTime (case aq_start_time q of None \<Rightarrow> now - 7 * 86400 | Some t \<Rightarrow> t)),
      (''end'', PTime (case aq_end_time q of None \<Rightarrow> now | Some t \<Rightarrow> t)), (''limit'', PInt (aq_limit q))] @
     (if given (aq_device_type q) then [(''device_type'', PText (the (aq_device_type q)))] else []) @
     (if given (aq_device_id q) then [(''device_id'', PText (the (aq_device_id q)))] else [])"

text \<open>The database runs the text; the answer has one dict per row.\<close>

definition run_analytics_query :: "(string \<Rightarrow> (string, sql_param) dict \<Rightarrow> unit + (json \<times> nat) list) \<Rightarrow> time \<Rightarrow> analytics_query \<Rightarrow>
    json_object list \<times> nat" where
  "run_analytics_query execute now q =
     (case execute (analytics_sql q) (analytics_params now q) of
        Inl _ \<Rightarrow> ([], 0)
      | Inr rows \<Rightarrow> (map (\<lambda>(v, n). dset ''count'' (JInt (int n)) [(group_col q, v)]) rows, sum_list (map snd rows)))"

subsection \<open>Lemmas\<close>

lemma entry_score_unit: "0 \<le> entry_score a n \<and> entry_score a n \<le> 1"
  by (simp add: entry_score_def)

lemma entry_score_one: "entry_score a n = 1 \<longleftrightarrow> a = 0"
  by (auto simp: entry_score_def max_def)

lemma reading_counts_keys:
  assumes "order_ok ord"
  shows "set (dkeys (reading_counts ord rows)) = cr_device_id ` set rows"
proof -
  have "set (dkeys (dset k v d)) = insert k (set (dkeys d))" for k :: uuid and v :: "string \<times> nat" and d
    unfolding dkeys_dset by auto
  then have fst_dset: "fst ` set (dset k v d) = insert k (fst ` set d)" for k :: uuid and v :: "string \<times> nat" and d
    by simp
  have f: "set (dkeys (fold (\<lambda>((i, ty), n). dset i (ty, n)) xs d)) = (\<lambda>x. fst (fst x)) ` set xs \<union> set (dkeys d)"
    for xs :: "((uuid \<times> string) \<times> nat) list" and d
    by (induction xs arbitrary: d) (simp_all add: fst_dset case_prod_beta)
  let ?g = "group_counts ord (\<lambda>r. (cr_device_id r, cr_device_type r)) rows"
  have "(\<lambda>x. fst (fst x)) ` set ?g = fst ` set (dkeys ?g)" by (simp add: image_image)
  also have "\<dots> = cr_device_id ` set rows"
    unfolding group_counts_keys[OF assms, THEN conjunct2] by (simp add: image_image)
  finally show ?thesis unfolding reading_counts_def f by simp
qed

end
