(* ===== verification/ModelRegistry.thy ===== *)
theory ModelRegistry imports Inference Jobs begin

section \<open>Model registry\<close>

text \<open>
  \<open>cloud_api/services/model_registry.py\<close> and \<open>cloud_api/routers/models.py\<close>: the table of model versions,
  and the endpoints behind \<open>/api/v1/models\<close> with their routing. Below, the two clients of that URL: the
  exporter of \<open>ml_training\<close> and the listing of \<open>ml_inference\<close>. Each request is one transaction; rows
  with the same creation time keep the order of the table, which SQL leaves open.
\<close>

record ml_model =
  mo_id :: uuid
  mo_name :: string
  mo_version :: string
  mo_framework :: string
  mo_description :: string
  mo_file_url :: string
  mo_metrics :: json_object
  mo_is_active :: bool
  mo_created_at :: time

record registry =
  rg_models :: "ml_model list"
  rg_ids :: nat

definition registry_new :: registry where
  "registry_new = \<lparr>rg_models = [], rg_ids = 0\<rparr>"

record model_create =
  mc_name :: string
  mc_version :: string
  mc_framework :: string
  mc_description :: string
  mc_file_url :: string
  mc_metrics :: json_object

text \<open>The lengths of the columns: PostgreSQL refuses a longer text.\<close>

definition model_fits :: "ml_model \<Rightarrow> bool" where
  "model_fits m \<longleftrightarrow> length (mo_name m) \<le> 100 \<and> length (mo_version m) \<le> 50 \<and>
     length (mo_framework m) \<le> 50 \<and> length (mo_file_url m) \<le> 500"

subsection \<open>Service\<close>

definition register_model :: "(nat \<Rightarrow> uuid) \<Rightarrow> time \<Rightarrow> model_create \<Rightarrow> (registry, http_error, ml_model) action" where
  "register_model uuid4 now model r =
     (let new_model = \<lparr>mo_id = uuid4 (rg_ids r), mo_name = mc_name model, mo_version = mc_version model,
            mo_framework = mc_framework model, mo_description = mc_description model,
            mo_file_url = mc_file_url model, mo_metrics = mc_metrics model, mo_is_active = True, mo_created_at = now\<rparr>;
          r = r\<lparr>rg_ids := rg_ids r + 1\<rparr>
      in if model_fits new_model then ret new_model (r\<lparr>rg_models := rg_models r @ [new_model]\<rparr>)
         else raise (HTTPError 500) r)"

definition list_models :: "string option \<Rightarrow> registry \<Rightarrow> ml_model list" where
  "list_models name_filter r =
     newest_first mo_created_at [m \<leftarrow> rg_models r. mo_is_active m \<and>
       (case name_filter of None \<Rightarrow> True | Some n \<Rightarrow> n = [] \<or> mo_name m = n)]"

definition get_model :: "uuid \<Rightarrow> registry \<Rightarrow> ml_model option" where
  "get_model model_id r = List.find (\<lambda>m. mo_id m = model_id) (rg_models r)"

definition get_latest_model :: "string \<Rightarrow> registry \<Rightarrow> ml_model option" where
  "get_latest_model model_name r =
     (case newest_first mo_created_at [m \<leftarrow> rg_models r. mo_name m = model_name \<and> mo_is_active m] of
        [] \<Rightarrow> None | m # _ \<Rightarrow> Some m)"

definition delete_model :: "uuid \<Rightarrow> registry \<Rightarrow> registry \<times> bool" where
  "delete_model model_id r = (case get_model model_id r of
     None \<Rightarrow> (r, False)
   | Some _ \<Rightarrow> (r\<lparr>rg_models := map (\<lambda>m. if mo_id m = model_id then m\<lparr>mo_is_active := False\<rparr> else m) (rg_models r)\<rparr>, True))"

subsection \<open>Endpoints\<close>

definition model_response :: "codec \<Rightarrow> ml_model \<Rightarrow> json_object" where
  "model_response c m = [(''id'', JStr (mo_id m)), (''name'', JStr (mo_name m)), (''version'', JStr (mo_version m)),
     (''framework'', JStr (mo_framework m)), (''description'', JStr (mo_description m)),
     (''file_url'', JStr (mo_file_url m)), (''metrics'', JObj (mo_metrics m)), (''is_active'', JBool (mo_is_active m)),
     (''created_at'', JStr (cd_isoformat c (mo_created_at m)))]"

definition latest_model :: "codec \<Rightarrow> string \<Rightarrow> registry \<Rightarrow> http_error + json" where
  "latest_model c model_name r = (case get_latest_model model_name r of
     None \<Rightarrow> Inl (HTTPError 404) | Some m \<Rightarrow> Inr (JObj (model_response c m)))"

definition get_model_endpoint :: "codec \<Rightarrow> uuid \<Rightarrow> registry \<Rightarrow> http_error + json" where
  "get_model_endpoint c model_id r = (case get_model model_id r of
     None \<Rightarrow> Inl (HTTPError 404) | Some m \<Rightarrow> Inr (JObj (model_response c m)))"

definition delete_model_endpoint :: "uuid \<Rightarrow> (registry, http_error, uuid) action" where
  "delete_model_endpoint model_id r = (case delete_model model_id r of
     (r, deleted) \<Rightarrow> if \<not> deleted then raise (HTTPError 404) r else ret model_id r)"

text \<open>
  A GET below \<open>/api/v1/models\<close>, by the segments of the rest of the path: the routes are tried in the
  order of the file, and the last one takes any single segment and requires a UUID.
\<close>

definition models_get :: "codec \<Rightarrow> string option \<Rightarrow> string list \<Rightarrow> registry \<Rightarrow> http_error + json" where
  "models_get c name_query path r = (case path of
     [] \<Rightarrow> Inr (JArr (map (\<lambda>m. JObj (model_response c m)) (list_models name_query r)))
   | [s, model_name] \<Rightarrow> if s = ''latest'' then latest_model c model_name r else Inl (HTTPError 404)
   | [model_id] \<Rightarrow> (case cd_uuid c (JStr model_id) of None \<Rightarrow> Inl (HTTPError 422)
       | Some i \<Rightarrow> get_model_endpoint c i r)
   | _ \<Rightarrow> Inl (HTTPError 404))"

text \<open>\<open>POST\<close> of a JSON body.\<close>

definition parse_model_create :: "json_object \<Rightarrow> model_create option" where
  "parse_model_create d =
     Option.bind (Option.bind (dget d ''name'') json_str) (\<lambda>name.
     Option.bind (Option.bind (dget d ''version'') json_str) (\<lambda>version.
     Option.bind (json_str (dget_or d ''framework'' (JStr ''onnx''))) (\<lambda>framework.
     Option.bind (json_str (dget_or d ''description'' (JStr ''''))) (\<lambda>description.
     Option.bind (Option.bind (dget d ''file_url'') json_str) (\<lambda>file_url.
     Option.bind (json_dict (dget_or d ''metrics'' (JObj []))) (\<lambda>metrics.
       Some \<lparr>mc_name = name, mc_version = version, mc_framework = framework, mc_description = description,
             mc_file_url = file_url, mc_metrics = metrics\<rparr>))))))"

definition create_model :: "codec \<Rightarrow> (nat \<Rightarrow> uuid) \<Rightarrow> time \<Rightarrow> json_object \<Rightarrow> (registry, http_error, json) action" where
  "create_model c uuid4 now body r = (case parse_model_create body of
     None \<Rightarrow> raise (HTTPError 422) r
   | Some model \<Rightarrow> (case register_model uuid4 now model r of
       (r, Inl e) \<Rightarrow> raise e r | (r, Inr m) \<Rightarrow> ret (JObj (model_response c m)) r))"

subsection \<open>Clients of the registry\<close>

text \<open>
  \<open>ModelExporter.register_model\<close>: what the training side posts. \<open>post\<close> is the request over the
  network, which may also fail to reach the registry; both failures end in None.
\<close>

definition export_payload :: "string \<Rightarrow> string \<Rightarrow> string \<Rightarrow> string \<Rightarrow> json_object \<Rightarrow> string \<Rightarrow> json_object" where
  "export_payload name version framework file_path metrics description =
     [(''name'', JStr name), (''version'', JStr version), (''framework'', JStr framework),
      (''file_url'', JStr file_path), (''description'', JStr description), (''metrics'', JObj metrics)]"

definition exporter_register :: "(json_object \<Rightarrow> ('w, http_error option, json) action) \<Rightarrow> string \<Rightarrow> string \<Rightarrow> string \<Rightarrow>
    string \<Rightarrow> json_object \<Rightarrow> string \<Rightarrow> 'w \<Rightarrow> 'w \<times> json option" where
  "exporter_register post name version framework file_path metrics description w =
     (case post (export_payload name version framework file_path metrics description) w of
        (w, Inl _) \<Rightarrow> (w, None) | (w, Inr result) \<Rightarrow> (w, Some result))"

text \<open>The edge's listing of what the registry offers; the argument is the answer to its request.\<close>

record model_available =
  mv_name :: string
  mv_version :: string
  mv_download_url :: string
  mv_created_at :: "string option"

definition list_available :: "http_error + json \<Rightarrow> unit + json list" where
  "list_available response = (case response of Inl _ \<Rightarrow> Inl ()
     | Inr (JArr xs) \<Rightarrow> Inr xs
     | Inr (JObj d) \<Rightarrow> (case dget_or d ''models'' (JArr []) of JArr xs \<Rightarrow> Inr xs
         | JStr s \<Rightarrow> if s = [] then Inr [] else Inl () | JObj m \<Rightarrow> if m = [] then Inr [] else Inl () | _ \<Rightarrow> Inl ())
     | Inr _ \<Rightarrow> Inl ())"

definition model_available_of :: "json \<Rightarrow> unit + model_available" where
  "model_available_of j = (case j of
     JObj m \<Rightarrow> (case (dget m ''name'', dget m ''version'', dget_or m ''download_url'' (JStr ''''), dget_or m ''created_at'' JNull) of
       (Some (JStr name), Some (JStr version), JStr url, JStr t) \<Rightarrow>
         Inr \<lparr>mv_name = name, mv_version = version, mv_download_url = url, mv_created_at = Some t\<rparr>
     | (Some (JStr name), Some (JStr version), JStr url, JNull) \<Rightarrow>
         Inr \<lparr>mv_name = name, mv_version = version, mv_download_url = url, mv_created_at = None\<rparr>
     | _ \<Rightarrow> Inl ())
   | _ \<Rightarrow> Inl ())"

fun available_loop :: "json list \<Rightarrow> unit + model_available list" where
  "available_loop [] = Inr []"
| "available_loop (m # ms) = (case model_available_of m of Inl e \<Rightarrow> Inl e
     | Inr a \<Rightarrow> (case available_loop ms of Inl e \<Rightarrow> Inl e | Inr as \<Rightarrow> Inr (a # as)))"

definition list_available_models :: "http_error + json \<Rightarrow> http_error + model_available list" where
  "list_available_models response = (case list_available response of Inl _ \<Rightarrow> Inl (HTTPError 502)
     | Inr xs \<Rightarrow> (case available_loop xs of Inl _ \<Rightarrow> Inl (HTTPError 502) | Inr as \<Rightarrow> Inr as))"

subsection \<open>The table over time\<close>

datatype registry_event = Register time model_create | Delete uuid

definition registry_event :: "(nat \<Rightarrow> uuid) \<Rightarrow> registry_event \<Rightarrow> registry \<Rightarrow> registry" where
  "registry_event uuid4 e r = (case e of
     Register now m \<Rightarrow> fst (register_model uuid4 now m r) | Delete i \<Rightarrow> fst (delete_model_endpoint i r))"

definition registry_run :: "(nat \<Rightarrow> uuid) \<Rightarrow> registry_event list \<Rightarrow> registry \<Rightarrow> registry" where
  "registry_run uuid4 es r = fold (registry_event uuid4) es r"

definition registry_inv :: "(nat \<Rightarrow> uuid) \<Rightarrow> registry \<Rightarrow> bool" where
  "registry_inv u r \<longleftrightarrow> distinct (map mo_id (rg_models r)) \<and>
     (\<forall>m \<in> set (rg_models r). model_fits m \<and> (\<exists>n < rg_ids r. mo_id m = u n))"

lemma delete_model_table:
  "rg_models (fst (delete_model i r)) = map (\<lambda>m. if mo_id m = i then m\<lparr>mo_is_active := False\<rparr> else m) (rg_models r)"
proof (cases "get_model i r")
  case None
  then have "\<forall>m \<in> set (rg_models r). mo_id m \<noteq> i" by (simp add: get_model_def find_None_iff)
  then have "map (\<lambda>m. if mo_id m = i then m\<lparr>mo_is_active := False\<rparr> else m) (rg_models r) = rg_models r"
    by (intro map_idI) simp
  then show ?thesis using None by (simp add: delete_model_def)
qed (simp add: delete_model_def)

lemma delete_model_ids: "rg_ids (fst (delete_model i r)) = rg_ids r"
  by (simp add: delete_model_def split: option.splits)

lemma delete_endpoint_state: "fst (delete_model_endpoint i r) = fst (delete_model i r)"
  by (simp add: delete_model_endpoint_def split: prod.splits)

lemma registry_event_inv:
  assumes "inj u" and inv: "registry_inv u r"
  shows "registry_inv u (registry_event u e r)"
proof (cases e)
  case (Register now m)
  have "u (rg_ids r) \<notin> mo_id ` set (rg_models r)"
    using inv injD[OF \<open>inj u\<close>] by (auto simp: registry_inv_def) (metis less_irrefl)
  then show ?thesis
    using inv Register
    by (auto simp: registry_event_def register_model_def Let_def registry_inv_def less_Suc_eq)
next
  case (Delete i)
  let ?ms = "map (\<lambda>m. if mo_id m = i then m\<lparr>mo_is_active := False\<rparr> else m) (rg_models r)"
  have ms: "rg_models (registry_event u e r) = ?ms" "rg_ids (registry_event u e r) = rg_ids r"
    by (simp_all add: Delete registry_event_def delete_endpoint_state delete_model_table delete_model_ids)
  have ids: "map mo_id ?ms = map mo_id (rg_models r)" by simp
  have "\<forall>m \<in> set ?ms. model_fits m \<and> (\<exists>n < rg_ids r. mo_id m = u n)"
    using inv by (auto simp: registry_inv_def model_fits_def)
  then show ?thesis using inv unfolding registry_inv_def ms ids by blast
qed

lemma registry_run_inv: "inj u \<Longrightarrow> registry_inv u r \<Longrightarrow> registry_inv u (registry_run u es r)"
  unfolding registry_run_def by (induction es arbitrary: r) (simp_all add: registry_event_inv)

lemma registry_inv_new: "registry_inv u registry_new"
  by (simp add: registry_inv_def registry_new_def)

lemma find_distinct: "distinct (map f xs) \<Longrightarrow> x \<in> set xs \<Longrightarrow> List.find (\<lambda>y. f y = f x) xs = Some x"
  by (induction xs) auto

lemma get_model_in: "registry_inv u r \<Longrightarrow> m \<in> set (rg_models r) \<Longrightarrow> get_model (mo_id m) r = Some m"
  unfolding get_model_def by (rule find_distinct) (simp_all add: registry_inv_def)

text \<open>The latest model of a name: there is none, or it is an active row that no active row is newer than.\<close>

lemma get_latest_model_cases:
  "(get_latest_model n r = None \<and> (\<forall>m \<in> set (rg_models r). mo_name m = n \<longrightarrow> \<not> mo_is_active m)) \<or>
   (\<exists>m \<in> set (rg_models r). get_latest_model n r = Some m \<and> mo_name m = n \<and> mo_is_active m \<and>
     (\<forall>m' \<in> set (rg_models r). mo_name m' = n \<and> mo_is_active m' \<longrightarrow> mo_created_at m' \<le> mo_created_at m))"
proof -
  let ?f = "[m \<leftarrow> rg_models r. mo_name m = n \<and> mo_is_active m]"
  show ?thesis
  proof (cases "newest_first mo_created_at ?f")
    case Nil
    then have "?f = []" by (metis set_newest_first set_empty2)
    then show ?thesis by (auto simp: get_latest_model_def filter_empty_conv newest_first_def)
  next
    case (Cons m ms)
    have "m \<in> set ?f" using Cons by (metis list.set_intros(1) set_newest_first)
    moreover have "mo_created_at m' \<le> mo_created_at m" if "m' \<in> set ?f" for m'
      using hd_newest_first[OF that, of mo_created_at] Cons by simp
    ultimately show ?thesis using Cons by (auto simp: get_latest_model_def)
  qed
qed

lemma newest_added:
  assumes "\<forall>m \<in> set ms. mo_created_at m < mo_created_at x" and "P x"
  shows "\<exists>ys. newest_first mo_created_at [m \<leftarrow> ms @ [x]. P m] = x # ys"
proof -
  let ?l = "newest_first mo_created_at [m \<leftarrow> ms @ [x]. P m]"
  have in_l: "x \<in> set [m \<leftarrow> ms @ [x]. P m]" using assms(2) by simp
  then have "hd ?l \<in> set [m \<leftarrow> ms @ [x]. P m]" "mo_created_at x \<le> mo_created_at (hd ?l)"
    using hd_newest_first[OF in_l, of mo_created_at] by simp_all
  then have hd: "hd ?l = x" using assms(1) by (metis UnE filter_is_subset in_mono leD set_ConsD set_append set_empty2 empty_iff list.set(1))
  have "?l \<noteq> []" using in_l by (metis set_newest_first list.set(1) empty_iff)
  then show ?thesis using hd by (metis list.collapse)
qed

text \<open>What the exporter posts is a body the endpoint accepts.\<close>

lemma parse_export_payload: "parse_model_create (export_payload name version framework file_path metrics description) =
  Some \<lparr>mc_name = name, mc_version = version, mc_framework = framework, mc_description = description,
    mc_file_url = file_path, mc_metrics = metrics\<rparr>"
  by (simp add: parse_model_create_def export_payload_def dget_or_def json_str_def json_dict_def)

end
