(* ===== verification/CloudProps.thy ===== *)
theory CloudProps imports Analytics ModelRegistry begin

section \<open>Properties of the cloud API\<close>

text \<open>
  The model registry, the storage and paging of telemetry, the streaming call, and the analytics. The
  only law of SQL grouping is \<open>order_ok\<close>; \<open>uuid4\<close> is an injective supply of ids.
\<close>

lemma order_ok_id: "order_ok (\<lambda>ks. ks)"
  by (simp add: order_ok_def)


definition demo_model :: model_create where
  "demo_model = \<lparr>mc_name = ''ae'', mc_version = ''1'', mc_framework = ''onnx'', mc_description = [],
     mc_file_url = ''/models/ae.onnx'', mc_metrics = []\<rparr>"

lemma demo_registry: "rg_models (registry_run nat_str [Register 5 demo_model] registry_new) =
  [\<lparr>mo_id = nat_str 0, mo_name = ''ae'', mo_version = ''1'', mo_framework = ''onnx'', mo_description = [],
    mo_file_url = ''/models/ae.onnx'', mo_metrics = [], mo_is_active = True, mo_created_at = 5\<rparr>]"
  by (simp add: registry_run_def registry_event_def register_model_def demo_model_def registry_new_def model_fits_def Let_def)


text \<open>A stored batch can be read back: after it is accepted, the pages of one size, put one after the
  other, are all matching rows with the newest first, every page reports their number, and every
  reading of the batch that matches the query is among them.\<close>

theorem stored_readings_paged:
  assumes "receive_batch uuid4 True readings d = (d', Inr n)" and "1 \<le> lmt" and "lmt \<le> 1000"
    and "matching = newest_first cr_timestamp [r \<leftarrow> ct_rows d'. row_matches q r]" and "length matching \<le> k * nat lmt"
  shows "n = length readings \<and>
    (\<exists>pages. (\<forall>i. query_telemetry_endpoint c q lmt (int i * lmt) d' =
        Inr \<lparr>pg_total = length matching, pg_limit = lmt, pg_offset = int i * lmt, pg_readings = pages i\<rparr>) \<and>
      concat (map pages [0..<k]) = map (row_dict c) matching) \<and>
    (\<forall>j < length readings. row_matches q (row_of_reading (uuid4 (ct_ids d + j)) (readings ! j)) \<longrightarrow>
      row_of_reading (uuid4 (ct_ids d + j)) (readings ! j) \<in> set matching)"
proof -
  have d': "ct_rows d' = ct_rows d @ map (\<lambda>(n, r). row_of_reading (uuid4 n) r) (enumerate (ct_ids d) readings)"
    and n: "n = length readings"
    using assms(1) by (auto simp: receive_batch_def store_batch_ok)
  let ?pages = "\<lambda>i. map (row_dict c) (slice (i * nat lmt) (nat lmt) matching)"
  have page: "query_telemetry_endpoint c q lmt (int i * lmt) d' =
      Inr \<lparr>pg_total = length matching, pg_limit = lmt, pg_offset = int i * lmt, pg_readings = ?pages i\<rparr>" for i
    using assms(2,3) by (simp add: query_telemetry_endpoint_def query_telemetry_def query_rows_def assms(4) nat_mult_distrib
      zero_le_mult_iff not_less)
  have "concat (map ?pages [0..<k]) = map (row_dict c) (concat (map (\<lambda>i. slice (i * nat lmt) (nat lmt) matching) [0..<k]))"
    by (simp add: map_concat comp_def)
  also have "\<dots> = map (row_dict c) matching" using assms(5) by (simp add: slices_concat)
  finally have pages: "concat (map ?pages [0..<k]) = map (row_dict c) matching" .
  have "row_of_reading (uuid4 (ct_ids d + j)) (readings ! j) \<in> set (ct_rows d')" if "j < length readings" for j
  proof -
    have "(ct_ids d + j, readings ! j) \<in> set (enumerate (ct_ids d) readings)" using that by (simp add: in_set_enumerate_eq)
    then show ?thesis by (force simp: d')
  qed
  then show ?thesis using n page pages by (auto simp: assms(4) intro!: exI[of _ ?pages])
qed

definition demo_stored :: telemetry_reading where
  "demo_stored = \<lparr>tr_device_id = ''d'', tr_device_type = ''t'', tr_timestamp = 3, tr_payload = [], tr_metadata = []\<rparr>"

definition any_query :: telemetry_query where
  "any_query = \<lparr>tq_device_id = None, tq_device_type = None, tq_start_time = None, tq_end_time = None\<rparr>"

theorem stored_readings_paged_witness:
  "row_of_reading (nat_str 0) demo_stored \<in>
     set (newest_first cr_timestamp [r \<leftarrow> ct_rows (fst (receive_batch nat_str True [demo_stored] \<lparr>ct_rows = [], ct_ids = 0\<rparr>)).
       row_matches any_query r])"
proof -
  let ?d = "\<lparr>ct_rows = [], ct_ids = 0\<rparr>"
  have "receive_batch nat_str True [demo_stored] ?d = (fst (receive_batch nat_str True [demo_stored] ?d), Inr 1)"
    by (simp add: receive_batch_def store_batch_ok)
  from stored_readings_paged[OF this, of 1 _ any_query 1, OF _ _ refl]
  show ?thesis by (simp add: receive_batch_def store_batch_ok any_query_def row_matches_def)
qed

text \<open>A stream is stored request by request: when a request cannot be converted or its commit fails,
  the call fails, and exactly the readings of the requests before it stay in the table. A unary call
  stores all of its readings or none.\<close>

theorem stream_stores_prefix:
  assumes "\<forall>(raws, commit_ok) \<in> set before. commit_ok \<and> all_readings (stream_reading c now) raws \<noteq> None"
    and "all_readings (stream_reading c now) raws = None \<or> (\<not> commit_ok \<and> all_readings (stream_reading c now) raws \<noteq> Some [])"
    and "StreamTelemetry c uuid4 now (before @ (raws, commit_ok) # rest) d = (d', result)"
    and "SendTelemetry c uuid4 commit_ok' raws' d = (e, sent)"
  shows "result = Inl (HTTPError 500) \<and>
    ct_rows d' = ct_rows d @ stored_rows uuid4 (ct_ids d) (request_readings c now before) \<and>
    (case sent of Inl _ \<Rightarrow> ct_rows e = ct_rows d
     | Inr n \<Rightarrow> n = length raws' \<and> length (ct_rows e) = length (ct_rows d) + n)"
proof -
  have "result = Inl (HTTPError 500) \<and> ct_rows d' = ct_rows d @ stored_rows uuid4 (ct_ids d) (request_readings c now before)"
    using assms(2,3) unfolding StreamTelemetry_def stream_requests_ok[OF assms(1)]
    by (auto simp: store_batch_failed split: option.splits)
  moreover have "case sent of Inl _ \<Rightarrow> ct_rows e = ct_rows d
     | Inr n \<Rightarrow> n = length raws' \<and> length (ct_rows e) = length (ct_rows d) + n"
    using assms(4) by (cases commit_ok'; cases raws')
      (auto simp: SendTelemetry_def all_readings_def store_batch_def Let_def split: option.splits if_splits)
  ultimately show ?thesis by blast
qed

definition uuid_codec :: codec where
  "uuid_codec = \<lparr>cd_loads = (\<lambda>_. None), cd_dumps = (\<lambda>_. []), cd_isoformat = (\<lambda>_. []), cd_fromisoformat = (\<lambda>_. Some 0),
     cd_uuid = (\<lambda>j. Option.bind (json_str j) (\<lambda>s. if s = [] \<or> s = ''latest'' then None else Some s)), cd_datetime = (\<lambda>_. None),
     cd_float_str = (\<lambda>_. []), cd_float = (\<lambda>_. None)\<rparr>"

theorem stream_stores_prefix_witness:
  "length (ct_rows (fst (StreamTelemetry uuid_codec nat_str 0
     [([Message [(''device_id'', JStr ''d'')]], True), ([Message []], True)] \<lparr>ct_rows = [], ct_ids = 0\<rparr>))) = 1"
proof -
  let ?ok = "[Message [(''device_id'', JStr ''d'')]]"
  let ?d = "\<lparr>ct_rows = [], ct_ids = 0\<rparr>"
  have ok: "all_readings (stream_reading uuid_codec 0) ?ok = Some [\<lparr>tr_device_id = ''d'', tr_device_type = ''unknown'',
      tr_timestamp = 0, tr_payload = [], tr_metadata = []\<rparr>]"
    by (simp add: all_readings_def stream_reading_def checked_reading_def uuid_codec_def json_str_def json_dict_def
        json_or_value_def dget_or_def)
  have bad: "all_readings (stream_reading uuid_codec 0) [Message []] = None"
    by (simp add: all_readings_def stream_reading_def checked_reading_def)
  from stream_stores_prefix[of "[(?ok, True)]" uuid_codec 0 "[Message []]" True nat_str "[]" ?d, OF _ disjI1[OF bad]
      prod.collapse[symmetric] prod.collapse[symmetric]] show ?thesis
    by (simp add: ok request_readings_def stored_rows_def)
qed

text \<open>The health report has one entry per device with a reading or an alert in the last day, in the
  order of the ids, with a score in the unit interval; a device with readings scores 1 when it has no
  alert. Without the table of alerts, which nothing creates, the report is empty.\<close>

theorem health_scores_sound:
  assumes "order_ok ord" and "order_ok ord'" and "ok 0" and "ok 1"
    and "scores = device_health_scores ord ord' ok now telemetry alerts"
  shows "case alerts of None \<Rightarrow> scores = []
    | Some rows \<Rightarrow> sorted (map he_device_id scores) \<and> distinct (map he_device_id scores) \<and>
        set (map he_device_id scores) = cr_device_id ` {r \<in> set telemetry. cr_timestamp r \<ge> now - 86400} \<union>
          ar_device_id ` {a \<in> set rows. ar_timestamp a \<ge> now - 86400} \<and>
        (\<forall>h \<in> set scores. 0 \<le> he_health_score h \<and> he_health_score h \<le> 1 \<and>
          he_anomaly_count h = length [a \<leftarrow> rows. ar_timestamp a \<ge> now - 86400 \<and> ar_device_id a = he_device_id h] \<and>
          he_health_score h = py_round (entry_score (he_anomaly_count h) (he_total_readings h)) 4)"
proof (cases alerts)
  case None
  then show ?thesis using assms(3,5) by (simp add: device_health_scores_def Let_def)
next
  case (Some rows)
  let ?tel = "[r \<leftarrow> telemetry. cr_timestamp r \<ge> now - 86400]"
  let ?al = "[a \<leftarrow> rows. ar_timestamp a \<ge> now - 86400]"
  let ?g = "group_counts ord' ar_device_id ?al"
  let ?ids = "set (dkeys (reading_counts ord ?tel)) \<union> set (dkeys ?g)"
  have ids: "?ids = cr_device_id ` set ?tel \<union> ar_device_id ` set ?al"
    unfolding reading_counts_keys[OF assms(1)] group_counts_keys[OF assms(2), THEN conjunct2] ..
  have scores: "scores = map (health_entry (reading_counts ord ?tel) ?g) (sorted_list_of_set ?ids)"
    using assms(3,4,5) Some by (simp add: device_health_scores_def Let_def)
  have names: "map he_device_id scores = sorted_list_of_set ?ids"
    unfolding scores by (simp add: health_entry_def Let_def comp_def)
  have count: "dget_or ?g i 0 = length [a \<leftarrow> ?al. ar_device_id a = i]" for i
    using group_counts_get[OF assms(2), of ar_device_id ?al i]
    by (auto simp: dget_or_def filter_empty_conv)
  have entry: "0 \<le> he_health_score h \<and> he_health_score h \<le> 1 \<and>
      he_anomaly_count h = length [a \<leftarrow> rows. ar_timestamp a \<ge> now - 86400 \<and> ar_device_id a = he_device_id h] \<and>
      he_health_score h = py_round (entry_score (he_anomaly_count h) (he_total_readings h)) 4" if "h \<in> set scores" for h
    using that entry_score_unit by (auto simp: scores health_entry_def Let_def count py_round_unit conj_commute)
  have "sorted (map he_device_id scores) \<and> distinct (map he_device_id scores) \<and>
      set (map he_device_id scores) = cr_device_id ` {r \<in> set telemetry. cr_timestamp r \<ge> now - 86400} \<union>
        ar_device_id ` {a \<in> set rows. ar_timestamp a \<ge> now - 86400}"
    unfolding names ids by simp
  then show ?thesis unfolding Some option.case using entry by blast
qed

theorem health_scores_sound_witness:
  "set (map he_device_id (device_health_scores (\<lambda>ks. ks) (\<lambda>ks. ks) (\<lambda>_. True) 0 []
     (Some [\<lparr>ar_device_id = ''d'', ar_device_type = ''t'', ar_severity = ''info'', ar_timestamp = 0\<rparr>]))) = {''d''}"
proof -
  let ?al = "Some [\<lparr>ar_device_id = ''d'', ar_device_type = ''t'', ar_severity = ''info'', ar_timestamp = 0\<rparr>]"
  show ?thesis
    using health_scores_sound[OF order_ok_id order_ok_id _ _ refl, of "\<lambda>_. True" 0 "[]" ?al] by auto
qed

text \<open>A device that reports under two types is scored by the readings of one of them.\<close>

lemma second_type_overwrites:
  "map he_total_readings (device_health_scores (\<lambda>ks. ks) (\<lambda>ks. ks) (\<lambda>_. True) 0
     [\<lparr>cr_id = ''1'', cr_device_id = ''d'', cr_device_type = ''a'', cr_timestamp = 0, cr_payload = [], cr_metadata = []\<rparr>,
      \<lparr>cr_id = ''2'', cr_device_id = ''d'', cr_device_type = ''a'', cr_timestamp = 0, cr_payload = [], cr_metadata = []\<rparr>,
      \<lparr>cr_id = ''3'', cr_device_id = ''d'', cr_device_type = ''b'', cr_timestamp = 0, cr_payload = [], cr_metadata = []\<rparr>]
     (Some [])) = [1]"
  by code_simp

text \<open>The text of an ad hoc query does not depend on the values of its filters, which are bound as
  parameters, but the caller's grouping column is copied into it: any text at all can be made part of
  the SQL statement.\<close>

theorem group_by_injected:
  "(\<forall>q dt di now now'. given dt = given (aq_device_type q) \<and> given di = given (aq_device_id q) \<longrightarrow>
      analytics_sql (q\<lparr>aq_device_type := dt, aq_device_id := di, aq_start_time := now, aq_end_time := now'\<rparr>) = analytics_sql q) \<and>
   (\<forall>q x. x \<noteq> [] \<longrightarrow> sublist (''SELECT '' @ x) (analytics_sql (q\<lparr>aq_group_by := Some x\<rparr>)))"
proof -
  have "sublist (''SELECT '' @ x) (analytics_sql (q\<lparr>aq_group_by := Some x\<rparr>))" if "x \<noteq> []" for q x
  proof -
    have "\<exists>r. analytics_sql (q\<lparr>aq_group_by := Some x\<rparr>) = [] @ (''SELECT '' @ x) @ r"
      using that by (simp add: analytics_sql_def group_col_def given_def)
    then show ?thesis unfolding sublist_def by blast
  qed
  then show ?thesis by (simp add: analytics_sql_def group_col_def)
qed

subsection \<open>From training to the edge\<close>

text \<open>\<open>httpx.post\<close> to the registry: an error status raises, and the caller swallows it.\<close>

definition post_model :: "codec \<Rightarrow> (nat \<Rightarrow> uuid) \<Rightarrow> time \<Rightarrow> json_object \<Rightarrow> (registry, http_error option, json) action" where
  "post_model c uuid4 now body r = (case create_model c uuid4 now body r of
     (r, Inl e) \<Rightarrow> raise (Some e) r | (r, Inr j) \<Rightarrow> ret j r)"

text \<open>C31. A model that training has registered is what the registry serves as the latest of its name, and
  yet it never reaches the edge. The route the edge polls does not exist (the segment is no UUID), and
  even the answer of the existing route carries no download URL: each reload reports that there is
  nothing newer, and the engine keeps what it has.\<close>

theorem registered_model_never_reaches_edge:
  assumes "exporter_register (post_model c uuid4 now) name version framework file_path metrics description r = (r', Some j)"
    and "\<forall>m \<in> set (rg_models r). mo_created_at m < now"
    and "cd_uuid c (JStr ''latest'') = None"
    and "path = [''latest''] \<or> path = [''latest'', name]"
    and "\<forall>w. me_latest E w = (case models_get c None path r' of Inl _ \<Rightarrow> raise () w | Inr answer \<Rightarrow> ret answer w)"
  shows "latest_model c name r' = Inr j \<and>
    (\<exists>d. j = JObj d \<and> dget d ''version'' = Some (JStr version) \<and> dget d ''file_url'' = Some (JStr file_path)) \<and>
    reload_model codec' E now' model_dir a = (a, Inr (Unchanged, get_current_model (ma_engine a)))"
proof -
  let ?x = "\<lparr>mo_id = uuid4 (rg_ids r), mo_name = name, mo_version = version, mo_framework = framework,
    mo_description = description, mo_file_url = file_path, mo_metrics = metrics, mo_is_active = True, mo_created_at = now\<rparr>"
  have r': "rg_models r' = rg_models r @ [?x]" and j: "j = JObj (model_response c ?x)"
    using assms(1) by (auto simp: exporter_register_def post_model_def create_model_def parse_export_payload
        register_model_def Let_def split: if_splits)
  obtain ys where "newest_first mo_created_at [m \<leftarrow> rg_models r @ [?x]. mo_name m = name \<and> mo_is_active m] = ?x # ys"
    using newest_added[of "rg_models r" ?x "\<lambda>m. mo_name m = name \<and> mo_is_active m"] assms(2) by auto
  then have l: "latest_model c name r' = Inr j" by (simp add: latest_model_def get_latest_model_def r' j)
  have "check_and_download E model_dir w = (w, Inr None)" for w
    using assms(3,4) l by (auto simp: check_and_download_def check_for_updates_def assms(5) models_get_def Let_def
        j model_response_def falsy_def)
  then show ?thesis using l by (simp add: reload_model_def j model_response_def)
qed

definition demo_edge :: "registry \<Rightarrow> unit model_env" where
  "demo_edge r = \<lparr>me_read_metadata = (\<lambda>_ _. None), me_session = (\<lambda>_ _. None), me_onnx_files = (\<lambda>_ _. []), me_exists = (\<lambda>_ _. False),
     me_latest = (\<lambda>w. case models_get uuid_codec None [''latest''] r of Inl _ \<Rightarrow> raise () w | Inr answer \<Rightarrow> ret answer w),
     me_download = (\<lambda>_ _. ret ()), me_str = (\<lambda>_. [])\<rparr>"

theorem registered_model_never_reaches_edge_witness:
  "\<exists>r' j a. exporter_register (post_model uuid_codec nat_str 7) ''ae'' ''2'' ''onnx'' ''/m'' [] [] registry_new = (r', Some j) \<and>
     latest_model uuid_codec ''ae'' r' = Inr j \<and>
     fst (reload_model uuid_codec (demo_edge r') 9 ''/models'' a) = a"
proof -
  obtain r' j where e: "exporter_register (post_model uuid_codec nat_str 7) ''ae'' ''2'' ''onnx'' ''/m'' [] [] registry_new = (r', Some j)"
    by (simp add: exporter_register_def post_model_def create_model_def parse_export_payload
        register_model_def registry_new_def model_fits_def Let_def)
  have "\<forall>m \<in> set (rg_models registry_new). mo_created_at m < 7" by (simp add: registry_new_def)
  moreover have "cd_uuid uuid_codec (JStr ''latest'') = None" by (simp add: uuid_codec_def json_str_def)
  moreover have "\<forall>w. me_latest (demo_edge r') w =
      (case models_get uuid_codec None [''latest''] r' of Inl _ \<Rightarrow> raise () w | Inr answer \<Rightarrow> ret answer w)"
    by (simp add: demo_edge_def split: sum.splits)
  ultimately show ?thesis
    using registered_model_never_reaches_edge[OF e _ _ disjI1[OF refl], of "demo_edge r'" uuid_codec 9 "''/models''"] e by auto
qed

end
