(* ===== verification/Training.thy ===== *)
theory Training imports Jobs begin

section \<open>Training jobs\<close>

text \<open>
  \<open>ml_training/services/trainer.py\<close>, \<open>services/experiment_tracker.py\<close> and the endpoints of
  \<open>routers/training_jobs.py\<close> and \<open>routers/experiments.py\<close>. Loading runs in the event loop and \<open>_train\<close> in a
  pool thread; a job's progress is a program counter, and a step ends where other code can run in
  between with an effect: after the first assignments, the test for cancellation, each epoch, the
  export. The torch computations are given by their outcome: the loss of each batch and the
  validation loss, or the exception.
\<close>

record training_job =
  tj_job_id :: string
  tj_model_type :: string
  tj_status :: job_status
  tj_epochs_completed :: nat
  tj_total_epochs :: int
  tj_train_loss :: "rat option"
  tj_val_loss :: "rat option"
  tj_model_path :: "string option"
  tj_created_at :: time
  tj_completed_at :: "time option"
  tj_error_message :: "string option"

record training_config =
  tg_model_type :: string
  tg_epochs :: int
  tg_batch_size :: int
  tg_learning_rate :: rat
  tg_data_query :: json_object

record epoch_metric =
  me_epoch :: nat
  me_metric_name :: string
  me_value :: rat

record experiment_entry =
  ex_job_id :: string
  ex_model_type :: string
  ex_config :: training_config
  ex_status :: job_status
  ex_metrics :: "epoch_metric list"
  ex_created_at :: time

text \<open>The number of samples and the number of features of the training data.\<close>

type_synonym data_shape = "nat \<times> nat"

datatype training_thread = Loading training_config | Starting training_config data_shape
  | Creating training_config data_shape | Check training_config data_shape nat | Epoch training_config data_shape nat
  | Exporting | Finishing string | TFailing string | TEnded

record trainer =
  tn_jobs :: "(string, training_job) dict"
  tn_cancelled :: "string list"
  tn_threads :: "(string, training_thread) dict"
  tn_experiments :: "(string, experiment_entry) dict"
  tn_cancelling :: "string list"
  tn_ids :: nat

definition trainer_new :: trainer where
  "trainer_new = \<lparr>tn_jobs = [], tn_cancelled = [], tn_threads = [], tn_experiments = [], tn_cancelling = [], tn_ids = 0\<rparr>"

subsection \<open>Experiment tracker\<close>

definition create_experiment :: "string \<Rightarrow> string \<Rightarrow> training_config \<Rightarrow> time \<Rightarrow> trainer \<Rightarrow> trainer" where
  "create_experiment j model_type config now s =
     s\<lparr>tn_experiments := dset j \<lparr>ex_job_id = j, ex_model_type = model_type, ex_config = config, ex_status = Pending,
        ex_metrics = [], ex_created_at = now\<rparr> (tn_experiments s)\<rparr>"

definition log_metric :: "string \<Rightarrow> nat \<Rightarrow> string \<Rightarrow> rat \<Rightarrow> trainer \<Rightarrow> trainer" where
  "log_metric j epoch metric_name v s =
     s\<lparr>tn_experiments := dmodify j (\<lambda>e. e\<lparr>ex_metrics := ex_metrics e @
        [\<lparr>me_epoch = epoch, me_metric_name = metric_name, me_value = v\<rparr>]\<rparr>) (tn_experiments s)\<rparr>"

definition update_status :: "string \<Rightarrow> job_status \<Rightarrow> trainer \<Rightarrow> trainer" where
  "update_status j status s = s\<lparr>tn_experiments := dmodify j (\<lambda>e. e\<lparr>ex_status := status\<rparr>) (tn_experiments s)\<rparr>"

definition get_experiment :: "string \<Rightarrow> trainer \<Rightarrow> experiment_entry option" where
  "get_experiment j s = dget (tn_experiments s) j"

definition list_experiments :: "trainer \<Rightarrow> experiment_entry list" where
  "list_experiments s = newest_first ex_created_at (dvalues (tn_experiments s))"

subsection \<open>Trainer\<close>

definition start_training :: "(nat \<Rightarrow> string) \<Rightarrow> time \<Rightarrow> training_config \<Rightarrow> trainer \<Rightarrow> trainer \<times> training_job" where
  "start_training uuid4 now config s =
     (let j = uuid4 (tn_ids s);
          job = \<lparr>tj_job_id = j, tj_model_type = tg_model_type config, tj_status = Pending, tj_epochs_completed = 0,
             tj_total_epochs = tg_epochs config, tj_train_loss = None, tj_val_loss = None, tj_model_path = None,
             tj_created_at = now, tj_completed_at = None, tj_error_message = None\<rparr>;
          s = s\<lparr>tn_jobs := dset j job (tn_jobs s), tn_threads := dset j (Loading config) (tn_threads s),
                tn_ids := tn_ids s + 1\<rparr>
      in (create_experiment j (tg_model_type config) config now s, job))"

definition list_training_jobs :: "trainer \<Rightarrow> training_job list" where
  "list_training_jobs s = newest_first tj_created_at (dvalues (tn_jobs s))"

definition get_training_job :: "string \<Rightarrow> trainer \<Rightarrow> http_error + training_job" where
  "get_training_job j s = (case dget (tn_jobs s) j of None \<Rightarrow> Inl (HTTPError 404) | Some job \<Rightarrow> Inr job)"

text \<open>When loading the data fails, 1000 random samples of 8 features are used.\<close>

definition loaded_shape :: "string + data_shape \<Rightarrow> data_shape" where
  "loaded_shape r = (case r of Inl _ \<Rightarrow> (1000, 8) | Inr d \<Rightarrow> d)"

text \<open>\<open>_create_model\<close>: the dimensions of the architecture.\<close>

datatype architecture = Autoencoder_arch nat nat | Lstm_arch nat nat nat nat

definition create_model_arch :: "string \<Rightarrow> nat \<Rightarrow> string + architecture" where
  "create_model_arch model_type input_dim =
     (if model_type = ''autoencoder'' then Inr (Autoencoder_arch input_dim (max (input_dim div 2) 2))
      else if model_type = ''lstm'' then Inr (Lstm_arch input_dim 32 2 input_dim)
      else Inl (''Unknown model type'' @ model_type))"

text \<open>\<open>range(0, n_samples, batch_size)\<close> and the slice each start selects from the shuffled indices.\<close>

definition batches :: "nat \<Rightarrow> int \<Rightarrow> string + (nat \<times> nat) list" where
  "batches n batch_size =
     (if batch_size = 0 then Inl ''range() arg 3 must not be zero''
      else if batch_size < 0 then Inr []
      else let b = nat batch_size in Inr (map (\<lambda>i. (i * b, min (i * b + b) n)) [0..<(n + b - 1) div b]))"

fun batch_losses :: "(nat \<times> nat \<Rightarrow> string + rat) \<Rightarrow> (nat \<times> nat) list \<Rightarrow> string + rat list" where
  "batch_losses loss [] = Inr []"
| "batch_losses loss (b # bs) = (case loss b of Inl e \<Rightarrow> Inl e
     | Inr x \<Rightarrow> (case batch_losses loss bs of Inl e \<Rightarrow> Inl e | Inr xs \<Rightarrow> Inr (x # xs)))"

text \<open>One epoch: the average of the batch losses, then the validation loss.\<close>

definition run_epoch :: "nat \<Rightarrow> int \<Rightarrow> (nat \<times> nat \<Rightarrow> string + rat) \<Rightarrow> string + rat \<Rightarrow> string + (rat \<times> rat)" where
  "run_epoch n batch_size loss validation = (case batches n batch_size of Inl e \<Rightarrow> Inl e
     | Inr bs \<Rightarrow> (case batch_losses loss bs of Inl e \<Rightarrow> Inl e
       | Inr xs \<Rightarrow> (case validation of Inl e \<Rightarrow> Inl e
         | Inr v \<Rightarrow> Inr (sum_list xs / of_nat (max (length xs) 1), v))))"

text \<open>What the world decides in a step of a job: the data, the losses, the export.\<close>

record outcome =
  oc_data :: "string + data_shape"
  oc_loss :: "nat \<times> nat \<Rightarrow> string + rat"
  oc_validation :: "string + rat"
  oc_export :: "string + string"

definition set_job :: "string \<Rightarrow> (training_job \<Rightarrow> training_job) \<Rightarrow> trainer \<Rightarrow> trainer" where
  "set_job j f s = s\<lparr>tn_jobs := dmodify j f (tn_jobs s)\<rparr>"

definition set_thread :: "string \<Rightarrow> training_thread \<Rightarrow> trainer \<Rightarrow> trainer" where
  "set_thread j pc s = s\<lparr>tn_threads := dset j pc (tn_threads s)\<rparr>"

definition next_epoch :: "training_config \<Rightarrow> data_shape \<Rightarrow> nat \<Rightarrow> training_thread" where
  "next_epoch config d k = (if int k < tg_epochs config then Check config d k else Exporting)"

definition record_epoch :: "string \<Rightarrow> nat \<Rightarrow> rat \<Rightarrow> rat \<Rightarrow> trainer \<Rightarrow> trainer" where
  "record_epoch j k train_loss val_loss s =
     log_metric j (k + 1) ''val_loss'' val_loss (log_metric j (k + 1) ''train_loss'' train_loss
       (set_job j (\<lambda>job. job\<lparr>tj_epochs_completed := k + 1, tj_train_loss := Some train_loss, tj_val_loss := Some val_loss\<rparr>) s))"

definition train_step :: "outcome \<Rightarrow> time \<Rightarrow> string \<Rightarrow> training_thread \<Rightarrow> trainer \<Rightarrow> trainer" where
  "train_step oc now j pc s = (case pc of
     Loading config \<Rightarrow> set_thread j (Starting config (loaded_shape (oc_data oc))) s
   | Starting config d \<Rightarrow>
       set_thread j (Creating config d) (update_status j Running (set_job j (tj_status_update (\<lambda>_. Running)) s))
   | Creating config d \<Rightarrow>
       set_thread j (case create_model_arch (tg_model_type config) (snd d) of Inl e \<Rightarrow> TFailing e
         | Inr _ \<Rightarrow> next_epoch config d 0) s
   | Check config d k \<Rightarrow> set_thread j (if j \<in> set (tn_cancelled s) then TEnded else Epoch config d k) s
   | Epoch config d k \<Rightarrow>
       (case run_epoch (fst d) (tg_batch_size config) (oc_loss oc) (oc_validation oc) of
          Inl e \<Rightarrow> set_thread j (TFailing e) s
        | Inr (t, v) \<Rightarrow> set_thread j (next_epoch config d (k + 1)) (record_epoch j k t v s))
   | Exporting \<Rightarrow> set_thread j (case oc_export oc of Inl e \<Rightarrow> TFailing e | Inr p \<Rightarrow> Finishing p) s
   | Finishing p \<Rightarrow> set_thread j TEnded (update_status j Completed (set_job j (\<lambda>job. job\<lparr>tj_model_path := Some p,
       tj_status := Completed, tj_completed_at := Some now\<rparr>) s))
   | TFailing e \<Rightarrow> set_thread j TEnded (update_status j Failed (set_job j (\<lambda>job. job\<lparr>tj_status := Failed,
       tj_error_message := Some e, tj_completed_at := Some now\<rparr>) s))
   | TEnded \<Rightarrow> s)"

definition train :: "outcome \<Rightarrow> time \<Rightarrow> string \<Rightarrow> trainer \<Rightarrow> trainer" where
  "train oc now j s = (case dget (tn_threads s) j of None \<Rightarrow> s | Some pc \<Rightarrow> train_step oc now j pc s)"

text \<open>The test of \<open>cancel_job\<close>, then its writes.\<close>

definition cancel_training_endpoint :: "string \<Rightarrow> (trainer, http_error, unit) action" where
  "cancel_training_endpoint j s = (case dget (tn_jobs s) j of
     None \<Rightarrow> raise (HTTPError 404) s
   | Some job \<Rightarrow> if tj_status job \<in> {Completed, Failed, Cancelled} then raise (HTTPError 404) s
       else ret () (s\<lparr>tn_cancelling := j # tn_cancelling s\<rparr>))"

definition cancel_training :: "time \<Rightarrow> string \<Rightarrow> trainer \<Rightarrow> trainer" where
  "cancel_training now j s = update_status j Cancelled (set_job j (\<lambda>job. job\<lparr>tj_status := Cancelled,
     tj_completed_at := Some now\<rparr>) (s\<lparr>tn_cancelled := j # tn_cancelled s\<rparr>))"

subsection \<open>Experiment endpoints\<close>

record experiment_summary =
  es_job_id :: string
  es_model_type :: string
  es_config :: training_config
  es_status :: job_status
  es_best_train_loss :: "rat option"
  es_best_val_loss :: "rat option"
  es_created_at :: time

definition losses :: "string \<Rightarrow> experiment_entry \<Rightarrow> rat list" where
  "losses metric_name e = map me_value [m \<leftarrow> ex_metrics e. me_metric_name m = metric_name]"

definition best :: "rat list \<Rightarrow> rat option" where
  "best xs = (if xs = [] then None else Some (Min (set xs)))"

definition experiment_summary_of :: "experiment_entry \<Rightarrow> experiment_summary" where
  "experiment_summary_of e = \<lparr>es_job_id = ex_job_id e, es_model_type = ex_model_type e, es_config = ex_config e,
     es_status = ex_status e,
     es_best_train_loss = best (losses ''train_loss'' e), es_best_val_loss = best (losses ''val_loss'' e),
     es_created_at = ex_created_at e\<rparr>"

definition list_experiments_endpoint :: "trainer \<Rightarrow> experiment_summary list" where
  "list_experiments_endpoint s = map experiment_summary_of (list_experiments s)"

definition get_experiment_metrics :: "string \<Rightarrow> trainer \<Rightarrow> http_error + (epoch_metric list \<times> nat)" where
  "get_experiment_metrics j s = (case get_experiment j s of None \<Rightarrow> Inl (HTTPError 404)
     | Some e \<Rightarrow> Inr (ex_metrics e, card (me_epoch ` set (ex_metrics e))))"

subsection \<open>The running service\<close>

datatype training_event = Start time training_config | Train time string outcome
  | TCancelRequest string | TCancelWrite time string

definition training_event :: "(nat \<Rightarrow> string) \<Rightarrow> training_event \<Rightarrow> trainer \<Rightarrow> trainer" where
  "training_event uuid4 e s = (case e of
     Start now config \<Rightarrow> fst (start_training uuid4 now config s)
   | Train now j oc \<Rightarrow> train oc now j s
   | TCancelRequest j \<Rightarrow> fst (cancel_training_endpoint j s)
   | TCancelWrite now j \<Rightarrow> if j \<in> set (tn_cancelling s)
       then cancel_training now j (s\<lparr>tn_cancelling := remove1 j (tn_cancelling s)\<rparr>) else s)"

definition training_run :: "(nat \<Rightarrow> string) \<Rightarrow> training_event list \<Rightarrow> trainer \<Rightarrow> trainer" where
  "training_run uuid4 es s = fold (training_event uuid4) es s"

lemma training_run_simps [simp]:
  "training_run u [] s = s" "training_run u (e # es) s = training_run u es (training_event u e s)"
  "training_run u (es @ fs) s = training_run u fs (training_run u es s)"
  by (simp_all add: training_run_def)

subsection \<open>Batches\<close>

text \<open>The batches cut the shuffled samples into consecutive pieces that cover them all.\<close>

lemma batches_cover:
  assumes "0 < b"
  shows "concat (map (\<lambda>i. [i * b..<min (i * b + b) n]) [0..<(n + b - 1) div b]) = [0..<n]"
proof -
  have step: "concat (map (\<lambda>i. [i * b..<min (i * b + b) n]) [0..<k]) = [0..<min (k * b) n]" for k
  proof (induction k)
    case (Suc k)
    have "[0..<min (k * b) n] @ [k * b..<min (k * b + b) n] = [0..<min (Suc k * b) n]"
    proof (cases "k * b \<le> n")
      case True
      then show ?thesis using upt_add_eq_append[of 0 "k * b" "min (k * b + b) n - k * b"] by (simp add: add.commute)
    next
      case False
      then show ?thesis by (simp add: min_def)
    qed
    then show ?case using Suc by simp
  qed simp
  have "n \<le> (n + b - 1) div b * b"
  proof -
    have "n + b - 1 < ((n + b - 1) div b + 1) * b"
      using assms by (metis Suc_eq_plus1 dividend_less_div_times mult.commute mult_Suc)
    then show ?thesis using assms by (simp add: algebra_simps)
  qed
  then show ?thesis unfolding step by (simp add: min_absorb2)
qed

subsection \<open>Invariant\<close>

definition metrics_ok :: "nat \<Rightarrow> epoch_metric list \<Rightarrow> bool" where
  "metrics_ok k ms \<longleftrightarrow> map me_epoch ms = concat (map (\<lambda>i. [i + 1, i + 1]) [0..<k]) \<and>
     map me_metric_name ms = concat (map (\<lambda>_. [''train_loss'', ''val_loss'']) [0..<k])"

definition last_loss :: "rat list \<Rightarrow> rat option" where
  "last_loss xs = (if xs = [] then None else Some (last xs))"

text \<open>What a job, its experiment and its thread have in common.\<close>

definition progress_inv :: "training_job \<Rightarrow> experiment_entry \<Rightarrow> training_thread \<Rightarrow> bool" where
  "progress_inv job e pc \<longleftrightarrow>
     (case pc of Loading c \<Rightarrow> tj_epochs_completed job = 0 \<and> tg_epochs c = tj_total_epochs job
      | Starting c d \<Rightarrow> tj_epochs_completed job = 0 \<and> tg_epochs c = tj_total_epochs job
      | Creating c d \<Rightarrow> tj_epochs_completed job = 0 \<and> tg_epochs c = tj_total_epochs job
      | Check c d k \<Rightarrow> tj_epochs_completed job = k \<and> tg_epochs c = tj_total_epochs job \<and> int k < tj_total_epochs job
      | Epoch c d k \<Rightarrow> tj_epochs_completed job = k \<and> tg_epochs c = tj_total_epochs job \<and> int k < tj_total_epochs job
      | Exporting \<Rightarrow> tj_epochs_completed job = nat (tj_total_epochs job)
      | Finishing p \<Rightarrow> tj_epochs_completed job = nat (tj_total_epochs job) | _ \<Rightarrow> True) \<and>
     tj_epochs_completed job \<le> nat (tj_total_epochs job) \<and>
     metrics_ok (tj_epochs_completed job) (ex_metrics e) \<and>
     tj_train_loss job = last_loss (losses ''train_loss'' e) \<and> tj_val_loss job = last_loss (losses ''val_loss'' e) \<and>
     (tj_status job = Completed \<longrightarrow> pc = TEnded \<and> tj_epochs_completed job = nat (tj_total_epochs job) \<and> tj_model_path job \<noteq> None)"

definition training_inv :: "(nat \<Rightarrow> string) \<Rightarrow> trainer \<Rightarrow> bool" where
  "training_inv u s \<longleftrightarrow> (\<forall>j job. dget (tn_jobs s) j = Some job \<longrightarrow> (\<exists>n < tn_ids s. j = u n) \<and>
     (\<exists>e pc. dget (tn_experiments s) j = Some e \<and> dget (tn_threads s) j = Some pc \<and> progress_inv job e pc))"

lemma training_invD:
  "training_inv u s \<Longrightarrow> dget (tn_jobs s) j = Some job \<Longrightarrow> (\<exists>n < tn_ids s. j = u n) \<and>
   (\<exists>e pc. dget (tn_experiments s) j = Some e \<and> dget (tn_threads s) j = Some pc \<and> progress_inv job e pc)"
  unfolding training_inv_def by blast

lemma training_inv_change:
  assumes "training_inv u s" and "tn_ids s \<le> tn_ids s'"
    and "\<And>k. k \<noteq> j \<Longrightarrow> dget (tn_jobs s') k = dget (tn_jobs s) k \<and> dget (tn_threads s') k = dget (tn_threads s) k \<and>
      dget (tn_experiments s') k = dget (tn_experiments s) k"
    and "\<And>job. dget (tn_jobs s') j = Some job \<Longrightarrow> (\<exists>n < tn_ids s'. j = u n) \<and>
      (\<exists>e pc. dget (tn_experiments s') j = Some e \<and> dget (tn_threads s') j = Some pc \<and> progress_inv job e pc)"
  shows "training_inv u s'"
  unfolding training_inv_def
proof (intro allI impI)
  fix k job assume k: "dget (tn_jobs s') k = Some job"
  show "(\<exists>n < tn_ids s'. k = u n) \<and>
     (\<exists>e pc. dget (tn_experiments s') k = Some e \<and> dget (tn_threads s') k = Some pc \<and> progress_inv job e pc)"
  proof (cases "k = j")
    case True
    then show ?thesis using assms(4) k by blast
  next
    case False
    then have "dget (tn_jobs s) k = Some job" using k assms(3) by simp
    from training_invD[OF assms(1) this] show ?thesis
      using assms(2) assms(3)[OF False] by (auto intro: less_le_trans)
  qed
qed

lemma metrics_ok_snoc:
  "metrics_ok k ms \<Longrightarrow> metrics_ok (Suc k) (ms @ [\<lparr>me_epoch = Suc k, me_metric_name = ''train_loss'', me_value = x\<rparr>,
     \<lparr>me_epoch = Suc k, me_metric_name = ''val_loss'', me_value = y\<rparr>])"
  by (simp add: metrics_ok_def)

lemma progress_epoch:
  assumes "progress_inv job e (Epoch c d k)"
  shows "progress_inv (job\<lparr>tj_epochs_completed := k + 1, tj_train_loss := Some x, tj_val_loss := Some y\<rparr>)
    (e\<lparr>ex_metrics := ex_metrics e @ [\<lparr>me_epoch = k + 1, me_metric_name = ''train_loss'', me_value = x\<rparr>,
       \<lparr>me_epoch = k + 1, me_metric_name = ''val_loss'', me_value = y\<rparr>]\<rparr>) (next_epoch c d (k + 1))"
  using assms metrics_ok_snoc[of k "ex_metrics e" x y]
  by (auto simp: progress_inv_def next_epoch_def losses_def last_loss_def)

lemma train_step_frame:
  assumes "k \<noteq> j"
  shows "dget (tn_jobs (train_step oc now j pc s)) k = dget (tn_jobs s) k \<and>
    dget (tn_threads (train_step oc now j pc s)) k = dget (tn_threads s) k \<and>
    dget (tn_experiments (train_step oc now j pc s)) k = dget (tn_experiments s) k"
  using assms by (auto simp: train_step_def set_thread_def set_job_def update_status_def record_epoch_def log_metric_def
      split: training_thread.splits sum.splits)

lemma train_step_ids [simp]: "tn_ids (train_step oc now j pc s) = tn_ids s"
  by (simp add: train_step_def set_thread_def set_job_def update_status_def record_epoch_def log_metric_def
      split: training_thread.splits sum.splits)

lemma losses_status [simp]: "losses n (e\<lparr>ex_status := st\<rparr>) = losses n e"
  by (simp add: losses_def)

lemma train_step_own:
  assumes "dget (tn_jobs s) j = Some job" and "dget (tn_experiments s) j = Some e" and "dget (tn_threads s) j = Some pc"
    and "progress_inv job e pc"
  shows "\<exists>job' e' pc'. dget (tn_jobs (train_step oc now j pc s)) j = Some job' \<and>
    dget (tn_experiments (train_step oc now j pc s)) j = Some e' \<and>
    dget (tn_threads (train_step oc now j pc s)) j = Some pc' \<and> progress_inv job' e' pc'"
proof (cases pc)
  case (Epoch c d k)
  then show ?thesis
    using assms progress_epoch[of job e c d k]
    by (auto simp: train_step_def set_thread_def set_job_def record_epoch_def log_metric_def progress_inv_def
        split: sum.splits)
next
  case (Creating c d)
  then show ?thesis
    using assms by (auto simp: train_step_def set_thread_def progress_inv_def next_epoch_def split: sum.splits)
qed (use assms in \<open>auto simp: train_step_def set_thread_def set_job_def update_status_def progress_inv_def split: sum.splits\<close>)

lemma training_event_inv:
  assumes "inj u" and inv: "training_inv u s"
  shows "training_inv u (training_event u e s)"
proof (cases e)
  case (Start now config)
  have "training_inv u (fst (start_training u now config s))"
    by (rule training_inv_change[OF inv, where j = "u (tn_ids s)"])
      (auto simp: start_training_def create_experiment_def Let_def progress_inv_def metrics_ok_def losses_def last_loss_def)
  then show ?thesis by (simp add: Start training_event_def)
next
  case (Train now j oc)
  show ?thesis
  proof (cases "dget (tn_threads s) j")
    case None
    then show ?thesis using inv by (simp add: Train training_event_def train_def)
  next
    case (Some pc)
    have "training_inv u (train_step oc now j pc s)"
    proof (rule training_inv_change[OF inv, where j = j])
      fix job assume "dget (tn_jobs (train_step oc now j pc s)) j = Some job"
      moreover have "dget (tn_jobs s) j = None \<Longrightarrow> dget (tn_jobs (train_step oc now j pc s)) j = None"
        by (auto simp: train_step_def set_thread_def set_job_def update_status_def record_epoch_def log_metric_def
            split: training_thread.splits sum.splits)
      ultimately obtain job0 where job0: "dget (tn_jobs s) j = Some job0" by fastforce
      from training_invD[OF inv job0] Some obtain e0 where "dget (tn_experiments s) j = Some e0" "progress_inv job0 e0 pc"
        and n: "\<exists>n < tn_ids s. j = u n" by auto
      from train_step_own[OF job0 this(1) Some this(2), of oc now] n
      show "(\<exists>n < tn_ids (train_step oc now j pc s). j = u n) \<and> (\<exists>e pc'. dget (tn_experiments (train_step oc now j pc s)) j = Some e \<and>
          dget (tn_threads (train_step oc now j pc s)) j = Some pc' \<and> progress_inv job e pc')"
        using \<open>dget (tn_jobs (train_step oc now j pc s)) j = Some job\<close> by auto
    qed (simp_all add: train_step_frame)
    then show ?thesis using Some by (simp add: Train training_event_def train_def)
  qed
next
  case (TCancelRequest j)
  then show ?thesis
    using inv by (auto simp: training_event_def cancel_training_endpoint_def training_inv_def split: option.splits)
next
  case (TCancelWrite now j)
  have "training_inv u (cancel_training now j (s\<lparr>tn_cancelling := xs\<rparr>))" for xs
  proof (rule training_inv_change[OF inv, where j = j])
    fix job assume "dget (tn_jobs (cancel_training now j (s\<lparr>tn_cancelling := xs\<rparr>))) j = Some job"
    then obtain job0 where job0: "dget (tn_jobs s) j = Some job0"
      and job: "job = job0\<lparr>tj_status := Cancelled, tj_completed_at := Some now\<rparr>"
      by (auto simp: cancel_training_def update_status_def set_job_def)
    from training_invD[OF inv job0] obtain e0 pc where e0: "dget (tn_experiments s) j = Some e0"
      "dget (tn_threads s) j = Some pc" "progress_inv job0 e0 pc" and n: "\<exists>n < tn_ids s. j = u n" by auto
    have "progress_inv job (e0\<lparr>ex_status := Cancelled\<rparr>) pc"
      using e0(3) by (cases pc) (auto simp: job progress_inv_def)
    then show "(\<exists>n < tn_ids (cancel_training now j (s\<lparr>tn_cancelling := xs\<rparr>)). j = u n) \<and>
      (\<exists>e pc. dget (tn_experiments (cancel_training now j (s\<lparr>tn_cancelling := xs\<rparr>))) j = Some e \<and>
        dget (tn_threads (cancel_training now j (s\<lparr>tn_cancelling := xs\<rparr>))) j = Some pc \<and> progress_inv job e pc)"
      using n e0 by (auto simp: cancel_training_def update_status_def set_job_def)
  qed (simp_all add: cancel_training_def update_status_def set_job_def)
  then show ?thesis using inv by (simp add: TCancelWrite training_event_def)
qed

lemma training_run_inv: "inj u \<Longrightarrow> training_inv u s \<Longrightarrow> training_inv u (training_run u es s)"
  by (induction es arbitrary: s) (auto intro: training_event_inv)

lemma training_inv_new: "training_inv u trainer_new"
  by (simp add: training_inv_def trainer_new_def)

subsection \<open>Cancellation\<close>

text \<open>A cancelled job finishes the epoch it is in, and begins no other.\<close>

definition stopping :: "string \<Rightarrow> nat \<Rightarrow> trainer \<Rightarrow> bool" where
  "stopping j k s \<longleftrightarrow> j \<in> set (tn_cancelled s) \<and> (\<exists>job pc. dget (tn_jobs s) j = Some job \<and>
     dget (tn_threads s) j = Some pc \<and> tj_epochs_completed job \<le> (case pc of Epoch c d i \<Rightarrow> k | _ \<Rightarrow> k + 1))"

lemma stoppingI:
  assumes "j \<in> set (tn_cancelled s)" "dget (tn_jobs s) j = Some job" "dget (tn_threads s) j = Some pc"
    "tj_epochs_completed job \<le> (case pc of Epoch c d i \<Rightarrow> k | _ \<Rightarrow> k + 1)"
  shows "stopping j k s"
  using assms unfolding stopping_def by blast

lemma train_step_cancelled [simp]: "tn_cancelled (train_step oc now j pc s) = tn_cancelled s"
  by (simp add: train_step_def set_thread_def set_job_def update_status_def record_epoch_def log_metric_def
      split: training_thread.splits sum.splits)

lemma training_event_stopping:
  assumes "inj u" and inv: "training_inv u s" and st: "stopping j k s"
  shows "stopping j k (training_event u e s)"
proof -
  obtain job pc where c: "j \<in> set (tn_cancelled s)" and job: "dget (tn_jobs s) j = Some job"
    and pc: "dget (tn_threads s) j = Some pc"
    and le: "tj_epochs_completed job \<le> (case pc of Epoch c d i \<Rightarrow> k | _ \<Rightarrow> k + 1)"
    using st unfolding stopping_def by blast
  from training_invD[OF inv job] obtain n e0 where n: "n < tn_ids s" "j = u n" and p: "progress_inv job e0 pc"
    using pc by auto
  show ?thesis
  proof (cases e)
    case (Start now config)
    have "j \<noteq> u (tn_ids s)" using n \<open>inj u\<close> by (auto dest: injD)
    then show ?thesis
      using c job pc le
      by (intro stoppingI[where job = job and pc = pc])
        (auto simp: Start training_event_def start_training_def create_experiment_def Let_def)
  next
    case (Train now i oc)
    show ?thesis
    proof (cases "i = j")
      case True
      have "stopping j k (train_step oc now j pc s)"
        using c job pc le p
        by (cases pc) (auto simp: train_step_def set_thread_def set_job_def update_status_def record_epoch_def
            log_metric_def progress_inv_def next_epoch_def stopping_def split: sum.splits)
      then show ?thesis using True pc by (simp add: Train training_event_def train_def)
    next
      case False
      then show ?thesis
        using c job pc le by (intro stoppingI[where job = job and pc = pc])
          (auto simp: Train training_event_def train_def train_step_frame split: option.splits)
    qed
  next
    case (TCancelRequest i)
    then show ?thesis
      using st by (auto simp: training_event_def cancel_training_endpoint_def stopping_def split: option.splits)
  next
    case (TCancelWrite now i)
    have "stopping j k (cancel_training now i (s\<lparr>tn_cancelling := xs\<rparr>))" for xs
      using c job pc le
      by (intro stoppingI[where pc = pc and
            job = "if i = j then job\<lparr>tj_status := Cancelled, tj_completed_at := Some now\<rparr> else job"])
        (auto simp: cancel_training_def update_status_def set_job_def)
    then show ?thesis using st by (simp add: TCancelWrite training_event_def)
  qed
qed

lemma training_run_stopping:
  "inj u \<Longrightarrow> training_inv u s \<Longrightarrow> stopping j k s \<Longrightarrow> stopping j k (training_run u es s)"
  by (induction es arbitrary: s) (auto intro: training_event_stopping training_event_inv)

end
