(* ===== verification/DataLoading.thy ===== *)
theory DataLoading imports Jobs begin

section \<open>Training data\<close>

text \<open>
  \<open>ml_training/services/data_loader.py\<close>: the query for the newest payloads, the feature matrix and the
  split. Standardising needs a square root, so the matrix is over the reals. The conversion of a
  filter's text to a time is the argument \<open>tparse\<close>.
\<close>

record stored_payload =
  sp_device_type :: string
  sp_timestamp :: time
  sp_payload :: json

datatype load_error = NoRows | NoFeatures | QueryError

definition select_payloads :: "(string \<Rightarrow> time option) \<Rightarrow> string option \<Rightarrow> string option \<Rightarrow> string option \<Rightarrow> nat \<Rightarrow>
    stored_payload list \<Rightarrow> load_error + json list" where
  "select_payloads tparse device_type start_time end_time lmt rows =
     (let given = (\<lambda>x. case x of None \<Rightarrow> False | Some s \<Rightarrow> s \<noteq> []);
          bad = (\<lambda>x. given x \<and> tparse (the x) = None)
      in if bad start_time \<or> bad end_time then Inl QueryError
         else Inr (map sp_payload (take lmt (newest_first sp_timestamp
           [r \<leftarrow> rows. (given device_type \<longrightarrow> sp_device_type r = the device_type) \<and>
              (given start_time \<longrightarrow> sp_timestamp r \<ge> the (tparse (the start_time))) \<and>
              (given end_time \<longrightarrow> sp_timestamp r \<le> the (tparse (the end_time)))]))))"

text \<open>The numbers of a payload; booleans are none, one level of nesting is looked into.\<close>

definition json_number :: "json \<Rightarrow> rat option" where
  "json_number v = (case v of JInt i \<Rightarrow> Some (of_int i) | JFloat x \<Rightarrow> Some x | _ \<Rightarrow> None)"

definition value_numbers :: "json \<Rightarrow> rat list" where
  "value_numbers v = (case v of JObj d \<Rightarrow> List.map_filter json_number (dvalues d)
     | _ \<Rightarrow> (case json_number v of None \<Rightarrow> [] | Some x \<Rightarrow> [x]))"

definition payload_numbers :: "codec \<Rightarrow> json \<Rightarrow> rat list" where
  "payload_numbers c payload =
     (case (case payload of JStr s \<Rightarrow> cd_loads c s | _ \<Rightarrow> Some payload) of
        Some (JObj d) \<Rightarrow> concat (map value_numbers (dvalues d)) | _ \<Rightarrow> [])"

definition MAX_WIDTH :: nat where "MAX_WIDTH = 16"

definition pad_row :: "nat \<Rightarrow> rat list \<Rightarrow> rat list" where
  "pad_row w f = (if length f \<ge> w then take w f else f @ replicate (w - length f) 0)"

definition column :: "nat \<Rightarrow> real list list \<Rightarrow> real list" where
  "column i rows = map (\<lambda>r. r ! i) rows"

definition avg :: "real list \<Rightarrow> real" where
  "avg xs = sum_list xs / real (length xs)"

definition variance :: "real list \<Rightarrow> real" where
  "variance xs = avg (map (\<lambda>x. (x - avg xs)\<^sup>2) xs)"

text \<open>\<open>std[std == 0] = 1.0\<close>\<close>

definition scale :: "real list \<Rightarrow> real" where
  "scale xs = (if sqrt (variance xs) = 0 then 1 else sqrt (variance xs))"

definition standardise :: "nat \<Rightarrow> real list list \<Rightarrow> real list list" where
  "standardise w rows = map (\<lambda>r. map (\<lambda>i. (r ! i - avg (column i rows)) / scale (column i rows)) [0..<w]) rows"

definition feature_width :: "rat list list \<Rightarrow> nat" where
  "feature_width fs = min (Max (length ` set fs)) MAX_WIDTH"

definition extract_features :: "codec \<Rightarrow> json list \<Rightarrow> load_error + real list list" where
  "extract_features c rows =
     (let fs = [f \<leftarrow> map (payload_numbers c) rows. f \<noteq> []] in
      if fs = [] then Inl NoFeatures
      else let w = feature_width fs in Inr (standardise w (map (\<lambda>f. map of_rat (pad_row w f)) fs)))"

text \<open>\<open>int(n * 0.8)\<close>, and the second attempt when one of the splits is empty.\<close>

definition split_index :: "nat \<Rightarrow> nat" where
  "split_index n = (let i = n * 4 div 5 in if i = 0 \<or> i = n then max 1 (n - 1) else i)"

definition split_features :: "'a list \<Rightarrow> 'a list \<times> 'a list" where
  "split_features fs = (take (split_index (length fs)) fs, drop (split_index (length fs)) fs)"

definition load_training_data :: "codec \<Rightarrow> (string \<Rightarrow> time option) \<Rightarrow> string option \<Rightarrow> string option \<Rightarrow> string option \<Rightarrow> nat \<Rightarrow>
    stored_payload list \<Rightarrow> load_error + (real list list \<times> real list list)" where
  "load_training_data c tparse device_type start_time end_time lmt rows =
     (case select_payloads tparse device_type start_time end_time lmt rows of
        Inl e \<Rightarrow> Inl e
      | Inr payloads \<Rightarrow> if payloads = [] then Inl NoRows
          else (case extract_features c payloads of Inl e \<Rightarrow> Inl e | Inr fs \<Rightarrow> Inr (split_features fs)))"

subsection \<open>Lemmas\<close>

lemma split_index_bounds: "2 \<le> n \<Longrightarrow> 0 < split_index n \<and> split_index n < n"
  by (auto simp: split_index_def Let_def)

lemma split_index_positive: "0 < n \<Longrightarrow> 0 < split_index n"
  by (auto simp: split_index_def Let_def)

lemma split_index_one: "split_index 1 = 1"
  by (simp add: split_index_def)

lemma sum_list_sub: "sum_list (map (\<lambda>x. (x - m) / s) xs) = (sum_list xs - real (length xs) * m) / s" for m s :: real
  by (induction xs) (simp_all add: add_divide_distrib diff_divide_distrib algebra_simps)

lemma avg_affine:
  assumes "xs \<noteq> []"
  shows "avg (map (\<lambda>x. (x - m) / s) xs) = (avg xs - m) / s"
proof -
  have "avg (map (\<lambda>x. (x - m) / s) xs) = (sum_list xs - real (length xs) * m) / s / real (length xs)"
    unfolding avg_def sum_list_sub length_map ..
  then show ?thesis using assms by (simp add: avg_def diff_divide_distrib)
qed

lemma avg_scaled: "avg (map (\<lambda>x. f x / s) xs) = avg (map f xs) / s"
proof -
  have "sum_list (map (\<lambda>x. f x / s) xs) = sum_list (map f xs) / s" by (induction xs) (simp_all add: add_divide_distrib)
  then show ?thesis by (simp add: avg_def)
qed

lemma variance_nonneg: "0 \<le> variance xs"
  unfolding variance_def avg_def by (auto intro!: divide_nonneg_nonneg sum_list_nonneg)

lemma variance_affine:
  assumes "xs \<noteq> []" and "s \<noteq> 0"
  shows "variance (map (\<lambda>x. (x - m) / s) xs) = variance xs / s\<^sup>2"
proof -
  have sq: "((x - m) / s - (avg xs - m) / s)\<^sup>2 = (x - avg xs)\<^sup>2 / s\<^sup>2" for x
    by (simp add: diff_divide_distrib[symmetric] power_divide)
  have "variance (map (\<lambda>x. (x - m) / s) xs) = avg (map (\<lambda>x. ((x - m) / s - (avg xs - m) / s)\<^sup>2) xs)"
    unfolding variance_def avg_affine[OF assms(1)] map_map comp_def ..
  then show ?thesis unfolding sq avg_scaled variance_def .
qed

lemma variance_zero:
  assumes "variance xs = 0" and "x \<in> set xs"
  shows "x = avg xs"
proof -
  have "sum_list (map (\<lambda>x. (x - avg xs)\<^sup>2) xs) = 0"
    using assms by (auto simp: variance_def avg_def[of "map _ _"])
  then have "\<forall>y \<in> set (map (\<lambda>x. (x - avg xs)\<^sup>2) xs). y = 0"
    by (subst (asm) sum_list_nonneg_eq_0_iff) auto
  then show ?thesis using assms(2) by simp
qed

lemma standardise_column:
  assumes "i < w"
  shows "column i (standardise w rows) = map (\<lambda>x. (x - avg (column i rows)) / scale (column i rows)) (column i rows)"
  using assms by (simp add: column_def standardise_def)

text \<open>A standardised column has mean zero, and variance one unless it was constant; then it is zero.\<close>

lemma standardise_moments:
  assumes "rows \<noteq> []" and "i < w"
  shows "avg (column i (standardise w rows)) = 0 \<and>
    (if variance (column i rows) = 0 then \<forall>x \<in> set (column i (standardise w rows)). x = 0
     else variance (column i (standardise w rows)) = 1)"
proof -
  let ?c = "column i rows"
  have ne: "?c \<noteq> []" using assms(1) by (simp add: column_def)
  have s: "scale ?c \<noteq> 0" by (simp add: scale_def)
  have "variance (map (\<lambda>x. (x - avg ?c) / scale ?c) ?c) = 1" if "variance ?c \<noteq> 0"
    using that variance_affine[OF ne s] variance_nonneg[of ?c] by (simp add: scale_def)
  moreover have "\<forall>x \<in> set (map (\<lambda>x. (x - avg ?c) / scale ?c) ?c). x = 0" if "variance ?c = 0"
    using variance_zero[OF that] by simp
  ultimately show ?thesis
    unfolding standardise_column[OF assms(2)] using avg_affine[OF ne] by auto
qed

lemma pad_row_length [simp]: "length (pad_row w f) = w"
  by (simp add: pad_row_def)

lemma feature_width_bounds:
  assumes "fs \<noteq> []" and "\<forall>f \<in> set fs. f \<noteq> []"
  shows "1 \<le> feature_width fs \<and> feature_width fs \<le> 16"
proof -
  have "Max (length ` set fs) \<in> length ` set fs" using assms(1) by (intro Max_in) auto
  then have "1 \<le> Max (length ` set fs)" using assms(2) by (auto simp: Suc_le_eq)
  then show ?thesis by (simp add: feature_width_def MAX_WIDTH_def)
qed

end
