(* ===== verification/TrainingProps.thy ===== *)
theory TrainingProps imports Training DataLoading Networks begin

section \<open>Properties of the training service\<close>

text \<open>
  The progress and the cancellation of a training job, the preparation of the data, the networks and
  the evaluation. \<open>uuid4\<close> is an injective supply of ids; the outcomes of torch are arbitrary.
\<close>

subsection \<open>Jobs\<close>


definition demo_config :: training_config where
  "demo_config = \<lparr>tg_model_type = ''autoencoder'', tg_epochs = 2, tg_batch_size = 64, tg_learning_rate = 1 / 1000, tg_data_query = []\<rparr>"

definition demo_outcome :: outcome where
  "demo_outcome = \<lparr>oc_data = Inr (64, 8), oc_loss = (\<lambda>_. Inr (1 / 2)), oc_validation = Inr (1 / 4), oc_export = Inr ''m.onnx''\<rparr>"

lemmas training_eval = training_event_def train_def train_step_def start_training_def create_experiment_def set_thread_def
  set_job_def update_status_def record_epoch_def log_metric_def next_epoch_def loaded_shape_def create_model_arch_def
  run_epoch_def batches_def cancel_training_endpoint_def cancel_training_def demo_config_def demo_outcome_def
  trainer_new_def

definition demo_trained :: trainer where
  "demo_trained = training_run nat_str (Start 0 demo_config # replicate 9 (Train 1 (nat_str 0) demo_outcome)) trainer_new"


text \<open>C38. Once a cancellation is written, the job completes at most the epoch it is in, whatever else
  happens: no later request and no other thread makes it train on.\<close>

theorem cancelled_training_stops:
  assumes "inj uuid4" and "s = training_run uuid4 es trainer_new" and "dget (tn_jobs s) j = Some job"
    and "j \<in> set (tn_cancelling s)" and "s' = training_run uuid4 (TCancelWrite t j # es') s"
  shows "\<exists>job'. dget (tn_jobs s') j = Some job' \<and> tj_epochs_completed job' \<le> tj_epochs_completed job + 1"
proof -
  have inv: "training_inv uuid4 s" using training_run_inv[OF assms(1) training_inv_new] assms(2) by simp
  from training_invD[OF inv assms(3)] obtain pc where pc: "dget (tn_threads s) j = Some pc" by blast
  let ?w = "training_event uuid4 (TCancelWrite t j) s"
  have "stopping j (tj_epochs_completed job) ?w"
    using assms(3,4) pc
    by (intro stoppingI[where pc = pc and job = "job\<lparr>tj_status := Cancelled, tj_completed_at := Some t\<rparr>"])
      (auto simp: training_event_def cancel_training_def update_status_def set_job_def split: training_thread.splits)
  then have "stopping j (tj_epochs_completed job) s'"
    using training_run_stopping[OF assms(1) training_event_inv[OF assms(1) inv]] assms(5) by simp
  then obtain job' pc' where "dget (tn_jobs s') j = Some job'"
    "tj_epochs_completed job' \<le> (case pc' of Epoch c d i \<Rightarrow> tj_epochs_completed job | _ \<Rightarrow> tj_epochs_completed job + 1)"
    unfolding stopping_def by blast
  then show ?thesis by (cases pc') auto
qed

theorem cancelled_training_stops_witness:
  "\<exists>job'. dget (tn_jobs (training_run nat_str (TCancelWrite 1 (nat_str 0) # replicate 20 (Train 2 (nat_str 0) demo_outcome))
     (training_run nat_str [Start 0 demo_config, TCancelRequest (nat_str 0)] trainer_new))) (nat_str 0) = Some job' \<and>
   tj_epochs_completed job' \<le> 1"
proof -
  let ?s = "training_run nat_str [Start 0 demo_config, TCancelRequest (nat_str 0)] trainer_new"
  obtain job where job: "dget (tn_jobs ?s) (nat_str 0) = Some job" "tj_epochs_completed job = 0" "nat_str 0 \<in> set (tn_cancelling ?s)"
    by (simp add: training_eval Let_def)
  show ?thesis using cancelled_training_stops[OF inj_nat_str refl job(1,3) refl] job(2) by auto
qed

text \<open>A training job that is cancelled while its data loads ends in the wrong state: its thread sets the
  status back to running and then stops at the first epoch, so the job, and its experiment, stay
  running for ever, with a completion time and without an epoch.\<close>

theorem early_training_cancel_stuck:
  assumes "dget (tn_jobs s) j = Some job" and "tj_status job = Pending" and "tj_epochs_completed job = 0"
    and "dget (tn_threads s) j = Some (Loading config)" and "dget (tn_experiments s) j = Some e"
    and "tg_model_type config = ''autoencoder''" and "0 < tg_epochs config"
    and "s' = training_run uuid4 (TCancelRequest j # TCancelWrite t j # replicate (n + 4) (Train t' j oc)) s"
  shows "\<exists>job' e'. dget (tn_jobs s') j = Some job' \<and> tj_status job' = Running \<and> tj_completed_at job' = Some t \<and>
    tj_epochs_completed job' = 0 \<and> dget (tn_experiments s') j = Some e' \<and> ex_status e' = Running \<and>
    dget (tn_threads s') j = Some TEnded"
proof -
  have idle: "training_run uuid4 (replicate n (Train t' j oc)) x = x" if "dget (tn_threads x) j = Some TEnded" for n x
    using that by (induction n) (simp_all add: training_event_def train_def train_step_def)
  have rep: "replicate (n + 4) (Train t' j oc) = replicate 4 (Train t' j oc) @ replicate n (Train t' j oc)"
    by (simp add: replicate_add[symmetric] add.commute)
  let ?x = "training_run uuid4 (TCancelRequest j # TCancelWrite t j # replicate 4 (Train t' j oc)) s"
  have "\<exists>job' e'. dget (tn_jobs ?x) j = Some job' \<and> tj_status job' = Running \<and> tj_completed_at job' = Some t \<and>
    tj_epochs_completed job' = 0 \<and> dget (tn_experiments ?x) j = Some e' \<and> ex_status e' = Running \<and>
    dget (tn_threads ?x) j = Some TEnded"
    using assms(1-7)
    by (simp add: training_event_def train_def train_step_def cancel_training_endpoint_def cancel_training_def
        update_status_def set_job_def set_thread_def create_model_arch_def next_epoch_def eval_nat_numeral)
  moreover have "s' = training_run uuid4 (replicate n (Train t' j oc)) ?x"
    unfolding assms(8) rep by simp
  ultimately show ?thesis using idle[of ?x n] by auto
qed

theorem early_training_cancel_stuck_witness:
  "\<exists>job'. dget (tn_jobs (training_run nat_str (TCancelRequest (nat_str 0) # TCancelWrite 1 (nat_str 0) #
     replicate (96 + 4) (Train 2 (nat_str 0) demo_outcome)) (training_run nat_str [Start 0 demo_config] trainer_new)))
     (nat_str 0) = Some job' \<and> tj_status job' = Running"
proof -
  let ?s = "training_run nat_str [Start 0 demo_config] trainer_new"
  obtain job e where "dget (tn_jobs ?s) (nat_str 0) = Some job" "tj_status job = Pending" "tj_epochs_completed job = 0"
    "dget (tn_threads ?s) (nat_str 0) = Some (Loading demo_config)" "dget (tn_experiments ?s) (nat_str 0) = Some e"
    by (simp add: training_eval Let_def)
  from early_training_cancel_stuck[OF this _ _ refl, of nat_str 1 96 2 demo_outcome] show ?thesis
    by (auto simp: demo_config_def)
qed

subsection \<open>Data\<close>

text \<open>The training data has one row per payload with a number, all of the same width of at most sixteen
  features; over the two splits together every feature has mean zero, and variance one unless it was
  constant, and then it is zero. Nothing is lost in the split, and from two rows on neither part is
  empty.\<close>

theorem features_standardised:
  assumes "load_training_data c tparse device_type start_time end_time lmt rows = Inr (x_train, x_val)"
  shows "\<exists>w. 1 \<le> w \<and> w \<le> 16 \<and> (\<forall>r \<in> set (x_train @ x_val). length r = w) \<and>
    (\<forall>i < w. avg (column i (x_train @ x_val)) = 0 \<and>
      (variance (column i (x_train @ x_val)) = 1 \<or> (\<forall>r \<in> set (x_train @ x_val). r ! i = 0))) \<and>
    x_train \<noteq> [] \<and> (2 \<le> length (x_train @ x_val) \<longrightarrow> x_val \<noteq> [])"
proof -
  obtain payloads fs where f: "extract_features c payloads = Inr fs" and sp: "split_features fs = (x_train, x_val)"
    using assms by (auto simp: load_training_data_def split: sum.splits if_splits)
  have all: "x_train @ x_val = fs" using sp by (auto simp: split_features_def)
  define raw where "raw = [f \<leftarrow> map (payload_numbers c) payloads. f \<noteq> []]"
  define w where "w = feature_width raw"
  define rows where "rows = map (\<lambda>f. map (of_rat :: rat \<Rightarrow> real) (pad_row w f)) raw"
  have raw: "raw \<noteq> []" and fs: "fs = standardise w rows"
    using f by (auto simp: extract_features_def raw_def w_def rows_def Let_def split: if_splits)
  have ne: "rows \<noteq> []" using raw by (simp add: rows_def)
  have w: "1 \<le> w" "w \<le> 16" using feature_width_bounds[OF raw] by (auto simp: raw_def w_def)
  have len: "\<forall>r \<in> set fs. length r = w" by (simp add: fs standardise_def)
  have moments: "avg (column i fs) = 0 \<and> (variance (column i fs) = 1 \<or> (\<forall>r \<in> set fs. r ! i = 0))" if "i < w" for i
    using standardise_moments[OF ne that] by (auto simp: fs column_def split: if_splits)
  have n: "fs \<noteq> []" using ne by (simp add: fs standardise_def)

  have "x_train \<noteq> []" "2 \<le> length fs \<Longrightarrow> x_val \<noteq> []"
    using sp n split_index_bounds[of "length fs"] split_index_positive[of "length fs"]
    by (auto simp: split_features_def)
  then show ?thesis using w len moments unfolding all by blast
qed

definition demo_loader :: codec where
  "demo_loader = \<lparr>cd_loads = (\<lambda>_. None), cd_dumps = (\<lambda>_. []), cd_isoformat = (\<lambda>_. []), cd_fromisoformat = (\<lambda>_. None),
     cd_uuid = (\<lambda>_. None), cd_datetime = (\<lambda>_. None), cd_float_str = (\<lambda>_. []), cd_float = (\<lambda>_. None)\<rparr>"

definition demo_payloads :: "stored_payload list" where
  "demo_payloads = [\<lparr>sp_device_type = ''t'', sp_timestamp = 1, sp_payload = JObj [(''v'', JInt 1)]\<rparr>,
     \<lparr>sp_device_type = ''t'', sp_timestamp = 2, sp_payload = JObj [(''v'', JInt 3)]\<rparr>]"

lemma demo_payload_codec: "payload_numbers demo_loader (JObj [(''v'', JInt i)]) = [of_int i]"
  by (simp add: payload_numbers_def value_numbers_def json_number_def)

theorem features_standardised_witness:
  "\<exists>x_train x_val. load_training_data demo_loader (\<lambda>_. None) None None None 10 demo_payloads = Inr (x_train, x_val) \<and> x_val \<noteq> []"
proof -
  let ?d = "load_training_data demo_loader (\<lambda>_. None) None None None 10 demo_payloads"
  have "select_payloads (\<lambda>_. None) None None None 10 demo_payloads = Inr [JObj [(''v'', JInt 3)], JObj [(''v'', JInt 1)]]"
    by code_simp
  then obtain x_train x_val where l: "?d = Inr (x_train, x_val)" and n: "length (x_train @ x_val) = 2"
    by (cases ?d) (auto simp: load_training_data_def extract_features_def demo_payload_codec Let_def standardise_def
        split_features_def split_index_def)
  show ?thesis using features_standardised[OF l] l n by auto
qed

subsection \<open>Networks\<close>

text \<open>The autoencoder keeps the width of its input. The encoding has the requested length and is never
  negative; a sample of the right width has an error, at least zero; a sample of another width makes
  the first layer raise, in each of the three operations.\<close>

theorem autoencoder_shape:
  assumes "init_ok init" and "m = autoencoder_new init n k" and "0 < n"
  shows "if length x = n
    then \<exists>z y e. ae_encode m x = Some z \<and> length z = k \<and> (\<forall>v \<in> set z. 0 \<le> v) \<and> ae_forward m x = Some y \<and> length y = n \<and>
      reconstruction_error m x = Some e \<and> 0 \<le> e
    else ae_encode m x = None \<and> ae_forward m x = None \<and> reconstruction_error m x = None"
  using encode_shape[OF assms(1), of x n k] forward_shape[OF assms(1), of x n k] encode_wrong_width[OF assms(1), of x n k]
  by (auto simp: assms(2) ae_forward_def reconstruction_error_def mse_nonneg)

definition demo_init :: initialiser where
  "demo_init i n m = (replicate m (replicate n (1 / 4)), replicate m (1 / 8))"

lemma demo_init_ok: "init_ok demo_init"
  by (simp add: init_ok_def demo_init_def)

theorem autoencoder_shape_witness:
  "(\<exists>z. ae_encode (autoencoder_new demo_init 2 4) [1, 2] = Some z \<and> length z = 4) \<and>
   ae_forward (autoencoder_new demo_init 2 4) [1] = None"
  using autoencoder_shape[OF demo_init_ok refl, of 2 "[1, 2]" 4] autoencoder_shape[OF demo_init_ok refl, of 2 "[1]" 4]
  by auto



lemma predict_steps_unique:
  assumes "w \<noteq> []" and "length ps = n"
    and "\<forall>i < n. lstm_forward m (drop i (w @ take i ps)) = Some (ps ! i) \<and> length (ps ! i) = lp_input_dim m"
  shows "predict_steps m n w = Some ps"
  using assms
proof (induction n arbitrary: w ps)
  case (Suc n)
  obtain p qs where ps: "ps = p # qs" "length qs = n" using Suc.prems(2) by (cases ps) auto
  have p: "lstm_forward m w = Some p" "length p = lp_input_dim m"
    using Suc.prems(3)[rule_format, of 0] ps by simp_all
  have "lstm_forward m (drop i ((tl w @ [p]) @ take i qs)) = Some (qs ! i) \<and> length (qs ! i) = lp_input_dim m" if "i < n" for i
    using Suc.prems(3)[rule_format, of "Suc i"] Suc.prems(1) that ps by (cases w) simp_all
  then have "predict_steps m n (tl w @ [p]) = Some qs" using ps(2) by (intro Suc.IH) simp_all
  then show ?case using p ps by simp
qed simp

text \<open>The recursive forecast is the sliding window: a list is what \<open>predict_sequence\<close> returns exactly when
  it has one prediction per step and the i-th one is the forecast from the input without its first i
  rows followed by the i predictions before it. It returns whenever the network keeps the width.\<close>

theorem forecast_is_sliding_window:
  assumes "x \<noteq> []"
  shows "(predict_sequence m x n = Some ps \<longleftrightarrow> 0 < n \<and> length ps = n \<and>
      (\<forall>i < n. lstm_forward m (drop i (x @ take i ps)) = Some (ps ! i) \<and> length (ps ! i) = lp_input_dim m)) \<and>
    ((\<forall>w. w \<noteq> [] \<longrightarrow> (\<exists>p. lstm_forward m w = Some p \<and> length p = lp_input_dim m)) \<longrightarrow> 0 < n \<longrightarrow>
      predict_sequence m x n \<noteq> None)"
  using predict_steps_windows[OF _ assms, of m n ps] predict_steps_unique[OF assms, of ps n m]
    predict_steps_total[OF _ assms, of m n]
  by (auto simp: predict_sequence_def)

definition demo_lstm :: lstm_predictor where
  "demo_lstm = \<lparr>lp_input_dim = 1, lp_output_dim = 1, lp_lstm = (\<lambda>x. [foldr (map2 (+)) x [0]]), lp_fc = Linear 1 [[1]] [0]\<rparr>"

theorem forecast_is_sliding_window_witness:
  "predict_sequence demo_lstm [[1], [2]] 3 = Some [[3], [5], [8]]"
proof -
  have "\<forall>i < 3. lstm_forward demo_lstm (drop i ([[1], [2]] @ take i [[3], [5], [8]])) = Some ([[3], [5], [8]] ! i) \<and>
    length ([[3 :: rat], [5], [8]] ! i) = lp_input_dim demo_lstm"
    by (simp add: demo_lstm_def lstm_forward_def dot_def less_Suc_eq numeral_3_eq_3)
  then show ?thesis
    using forecast_is_sliding_window[of "[[1], [2]]" demo_lstm 3 "[[3], [5], [8]]"] by simp
qed

subsection \<open>Evaluation\<close>

text \<open>C40. The calibrated threshold is one of the candidates, and no candidate has a better F1 on the
  calibration data. Its precision, recall and F1 lie in the unit interval, F1 is twice the hits over
  twice the hits plus both kinds of mistakes, and the evaluation script computes the same numbers.\<close>

theorem calibration_optimal:
  assumes "calibrate_threshold quantiles errors truth = Some t" and "length errors = length truth"
    and "pr = (\<lambda>t. precision_recall (map (\<lambda>e. e > t) errors) truth)"
    and "mt = compute_metrics (map of_bool truth) (map (\<lambda>e. of_bool (e > t)) errors)"
  shows "t \<in> set (quantiles errors) \<and> (\<forall>t' \<in> set (quantiles errors). pr_f1 (pr t') \<le> pr_f1 (pr t)) \<and>
    0 \<le> pr_precision (pr t) \<and> pr_precision (pr t) \<le> 1 \<and> 0 \<le> pr_recall (pr t) \<and> pr_recall (pr t) \<le> 1 \<and>
    0 \<le> pr_f1 (pr t) \<and> pr_f1 (pr t) \<le> 1 \<and>
    pr_f1 (pr t) = py_round (ratio (2 * pr_tp (pr t)) (2 * pr_tp (pr t) + pr_fp (pr t) + pr_fn (pr t))) 4 \<and>
    mt_precision mt = pr_precision (pr t) \<and> mt_recall mt = pr_recall (pr t) \<and> mt_f1 mt = pr_f1 (pr t)"
proof -
  obtain q qs where q: "quantiles errors = q # qs" and t: "t = first_max (\<lambda>t. pr_f1 (pr t)) q qs"
    using assms(1,3) by (auto simp: calibrate_threshold_def split: list.splits)
  have best: "t \<in> set (quantiles errors)" "\<forall>t' \<in> set (quantiles errors). pr_f1 (pr t') \<le> pr_f1 (pr t)"
    using first_max_best[of "\<lambda>t. pr_f1 (pr t)" q qs] unfolding q t by auto
  let ?p = "map (\<lambda>e. e > t) errors"
  have eq: "map (\<lambda>e. of_bool (e > t)) errors = map of_bool ?p" by simp
  have r: "pr_precision (pr t) = py_round (ratio (pr_tp (pr t)) (pr_tp (pr t) + pr_fp (pr t))) 4"
    "pr_recall (pr t) = py_round (ratio (pr_tp (pr t)) (pr_tp (pr t) + pr_fn (pr t))) 4"
    "pr_f1 (pr t) = py_round (ratio (2 * pr_tp (pr t)) (2 * pr_tp (pr t) + pr_fp (pr t) + pr_fn (pr t))) 4"
    by (simp_all add: assms(3) precision_recall_def Let_def f1_counts)
  have unit: "0 \<le> py_round (ratio a b) 4 \<and> py_round (ratio a b) 4 \<le> 1" if "a \<le> b" for a b
    using ratio_unit[OF that] py_round_unit[of "ratio a b" 4] by simp
  have "mt_precision mt = pr_precision (pr t) \<and> mt_recall mt = pr_recall (pr t) \<and> mt_f1 mt = pr_f1 (pr t)"
    using confusion_of_bools[of ?p truth] assms(2) unfolding r assms(4) eq
    by (simp add: compute_metrics_def Let_def f1_counts assms(3))
  then show ?thesis using best unit[of "pr_tp (pr t)" "pr_tp (pr t) + pr_fp (pr t)"]
      unit[of "pr_tp (pr t)" "pr_tp (pr t) + pr_fn (pr t)"]
      unit[of "2 * pr_tp (pr t)" "2 * pr_tp (pr t) + pr_fp (pr t) + pr_fn (pr t)"] r by simp
qed

theorem calibration_optimal_witness:
  "2 \<in> set [1, 2, 3 :: rat] \<and> pr_f1 (precision_recall (map (\<lambda>e. e > (1 :: rat)) [0, 1, 2, 3]) [False, False, False, True]) \<le>
     pr_f1 (precision_recall (map (\<lambda>e. e > (2 :: rat)) [0, 1, 2, 3]) [False, False, False, True])"
proof -
  have "calibrate_threshold (\<lambda>_. [1, 2, 3]) [0, 1, 2, 3] [False, False, False, True] = Some 2" by code_simp
  note best = calibration_optimal[OF this _ refl refl]
  have len: "length [0, 1, 2, 3 :: rat] = length [False, False, False, True]" by simp
  show ?thesis
    using best[OF len, THEN conjunct1] best[OF len, THEN conjunct2, THEN conjunct1, THEN bspec, of 1] by simp
qed

end
