(* ===== verification/SimulatorProps.thy ===== *)
theory SimulatorProps imports Simulator Ingestion Features begin

section \<open>Properties of the simulator\<close>

text \<open>
  The fleet, the messages and what ingestion and the feature extractor make of them, the range of the
  anomalies, and the counters. The draws are arbitrary within the documented ranges of \<open>random\<close>.
\<close>

text \<open>The reading a message becomes; its topic is not needed.\<close>

lemma message_reading:
  assumes "message_ok d now anomaly x" and "device_ok d"
    and "cd_uuid c (JStr (bd_device_id d)) = Some (bd_device_id d)" and "cd_datetime c (JStr now) = Some t"
  shows "\<exists>reading a b. make_reading c received (snd x) = Some reading \<and> normalise c received topic (snd x) = snd x \<and>
      tr_device_id reading = bd_device_id d \<and> tr_device_type reading = bd_device_type d \<and> tr_timestamp reading = t \<and>
      dget (tr_payload reading) ''anomaly'' = Some (JBool anomaly) \<and> fx_values c reading = Some (a, b) \<and>
      (case bd_sensor d of Temperature _ \<Rightarrow> 0 \<le> b \<and> b \<le> 100 | Pressure _ \<Rightarrow> 10 \<le> b \<and> b \<le> 50 | Vibration \<Rightarrow> 0 \<le> a \<and> 0 \<le> b)"
proof -
  obtain p sig where p: "payload_ok (bd_sensor d) anomaly p"
    and m: "snd x = [(''device_id'', JStr (bd_device_id d)), (''device_type'', JStr (bd_device_type d)), (''timestamp'', JStr now),
      (''payload'', JObj p), (''metadata'', JObj [(''firmware_version'', JStr ''1.0.0''), (''signal_strength'', JInt sig)])]"
    using assms(1) by (auto simp: message_ok_def)
  let ?reading = "\<lparr>tr_device_id = bd_device_id d, tr_device_type = bd_device_type d, tr_timestamp = t, tr_payload = p,
    tr_metadata = [(''firmware_version'', JStr ''1.0.0''), (''signal_strength'', JInt sig)]\<rparr>"
  have made: "make_reading c received (snd x) = Some ?reading"
    using assms(3,4) by (simp add: m make_reading_def json_str_def json_dict_def)
  have same: "normalise c received topic (snd x) = snd x" by (simp add: normalise_def m dhas_def)
  obtain a b where "fx_values c ?reading = Some (a, b)"
    "case bd_sensor d of Temperature _ \<Rightarrow> 0 \<le> b \<and> b \<le> 100 | Pressure _ \<Rightarrow> 10 \<le> b \<and> b \<le> 50 | Vibration \<Rightarrow> 0 \<le> a \<and> 0 \<le> b"
    using p assms(2)
    by (cases "bd_sensor d")
      (auto simp: payload_ok_def fx_values_def device_ok_def sensor_type_def SENSOR_FIELDS_def to_float_def)
  then show ?thesis using made same p by (auto simp: payload_ok_def)
qed


text \<open>A source that draws the middle of every range.\<close>

definition demo_rng :: rng where
  "demo_rng = \<lparr>rn_gauss = (\<lambda>_ mu _. mu), rn_uniform = (\<lambda>_ a b. (a + b) / 2), rn_choice = (\<lambda>_ k. k div 2),
     rn_randint = (\<lambda>_ a b. a), rn_random = (\<lambda>_. 1 / 2), rn_sin = (\<lambda>_. 0)\<rparr>"

lemma demo_rng_ok: "rng_ok demo_rng"
  by (simp add: rng_ok_def demo_rng_def)

definition demo_vibration :: base_device where
  "demo_vibration = \<lparr>bd_device_id = ''v1'', bd_device_type = ''vibration_sensor'', bd_sampling_interval = 5, bd_sensor = Vibration\<rparr>"

lemma demo_vibration_ok: "device_ok demo_vibration"
  by (simp add: demo_vibration_def device_ok_def sensor_ok_def sensor_type_def)

definition demo_message :: json_object where
  "demo_message = snd (fst (run_state (get_telemetry demo_rng ''now'' True demo_vibration) 0))"

definition demo_text :: codec where
  "demo_text = \<lparr>cd_loads = (\<lambda>_. Some (JObj demo_message)), cd_dumps = (\<lambda>_. ''text''), cd_isoformat = (\<lambda>_. ''now''),
     cd_fromisoformat = (\<lambda>_. Some 7), cd_uuid = json_str, cd_datetime = (\<lambda>_. Some 7), cd_float_str = (\<lambda>_. []),
     cd_float = (\<lambda>_. None)\<rparr>"


subsection \<open>Anomalies\<close>

text \<open>All noise within k deviations of its mean.\<close>

definition noise_within :: "rat \<Rightarrow> rng \<Rightarrow> bool" where
  "noise_within k r \<longleftrightarrow> 0 \<le> k \<and> (\<forall>n sigma. 0 \<le> sigma \<longrightarrow> \<bar>rn_gauss r n 0 sigma\<bar> \<le> k * sigma)"

definition payload_pressure :: "json_object \<Rightarrow> rat" where
  "payload_pressure p = (case dget p ''pressure_hpa'' of Some (JFloat x) \<Rightarrow> x | _ \<Rightarrow> 0)"

lemma py_round_near: "\<bar>py_round x 2 - x\<bar> \<le> 1 / 200"
proof -
  have "\<bar>of_int (round_half_even (x * 100)) - x * 100\<bar> \<le> 1 / 2" by (rule round_half_even_close)
  then show ?thesis unfolding py_round_def by (simp add: abs_le_iff field_simps)
qed

lemma py_round_shift:
  "\<bar>x - m\<bar> \<le> e \<Longrightarrow> \<bar>py_round x 2 - m\<bar> \<le> e + 1 / 200" "e \<le> \<bar>x - m\<bar> \<Longrightarrow> e - 1 / 200 \<le> \<bar>py_round x 2 - m\<bar>"
  using py_round_near[of x] by arith+

lemma normal_pressure_near:
  assumes "noise_within k r"
  shows "pred_state (\<lambda>x. \<bar>snd x - PRESSURE_BASELINE\<bar> \<le> 5 + 3 / 10 * k) (normal_pressure r d)"
proof -
  have g: "\<bar>rn_gauss r n 0 (3 / 10)\<bar> \<le> 3 / 10 * k" for n
  proof -
    have "\<bar>rn_gauss r n 0 (3 / 10)\<bar> \<le> k * (3 / 10)" 
      using assms[unfolded noise_within_def, THEN conjunct2, THEN spec[of _ n], THEN spec[of _ "3 / 10"]] by simp
    then show ?thesis by simp
  qed
  have "\<bar>max (PRESSURE_BASELINE - 5) (min (PRESSURE_BASELINE + 5) x) + rn_gauss r n 0 (3 / 10) - PRESSURE_BASELINE\<bar> \<le> 5 + 3 / 10 * k" for x n
    using g[of n] by (auto simp: abs_le_iff max_def min_def)
  then show ?thesis
    unfolding normal_pressure_def brownian_motion_def gaussian_noise_def Let_def PRESSURE_RANGE_def
    by (intro outcome) simp
qed

lemma pressure_payload_pressure [simp]: "payload_pressure (pressure_payload p f @ xs) = py_round p 2"
  by (simp add: payload_pressure_def pressure_payload_def)

lemma normal_reading_near:
  assumes "noise_within k r"
  shows "pred_state (\<lambda>x. \<bar>payload_pressure (snd x) - PRESSURE_BASELINE\<bar> \<le> 5 + 3 / 10 * k + 1 / 200) (pressure_reading r d)"
  unfolding pressure_reading_def normal_flow_rate_def gaussian_noise_def
  by (rule outcome_bind[OF outcome_mono[OF normal_pressure_near[OF assms]]], intro outcome)
    (drule py_round_shift(1), simp)

lemma anomaly_far:
  assumes "rng_ok r" and "noise_within k r"
  shows "pred_state (\<lambda>x. 195 - 3 / 10 * k - 1 / 200 \<le> \<bar>payload_pressure (snd x) - PRESSURE_BASELINE\<bar>) (pressure_anomaly r d)"
proof -
  have fault: "pred_state (\<lambda>x. 195 - 3 / 10 * k \<le> \<bar>snd x - PRESSURE_BASELINE\<bar>) (pressure_fault r t d)"
    if "t \<in> set [''pressure_drop'', ''overpressure'']" for t
    unfolding pressure_fault_def
    by (rule outcome_bind[OF outcome_mono[OF normal_pressure_near[OF assms(2)]]])
      (use that in \<open>auto intro!: outcome simp: abs_if split: if_splits\<close>)
  show ?thesis
    unfolding pressure_anomaly_def normal_flow_rate_def gaussian_noise_def
    by (rule outcome_bind[OF outcome_choice[OF assms(1)]], simp, rule outcome_bind[OF outcome_mono[OF fault]], assumption,
        intro outcome) (drule py_round_shift(2), simp)
qed

text \<open>A pressure anomaly cannot be mistaken for a normal reading. As long as no draw is more than 300
  deviations off, the reported pressure of every anomaly, from any state of any sensor, is farther
  from the baseline than that of every normal reading.\<close>

theorem pressure_anomalies_separated:
  assumes "rng_ok r" and "noise_within k r" and "k \<le> 300"
    and "run_state (pressure_reading r d) n = ((d1, normal), n1)"
    and "run_state (pressure_anomaly r d') n' = ((d2, anomalous), n2)"
  shows "\<bar>payload_pressure normal - PRESSURE_BASELINE\<bar> < \<bar>payload_pressure anomalous - PRESSURE_BASELINE\<bar>"
  using pred_stateD[OF normal_reading_near[OF assms(2)] assms(4)] pred_stateD[OF anomaly_far[OF assms(1,2)] assms(5)] assms(3)
  by simp

theorem pressure_anomalies_separated_witness:
  "\<bar>payload_pressure (snd (fst (run_state (pressure_reading demo_rng \<lparr>prs_current_pressure = 1010, prs_last_flow_rate = 30\<rparr>) 0)))
     - PRESSURE_BASELINE\<bar> <
   \<bar>payload_pressure (snd (fst (run_state (pressure_anomaly demo_rng \<lparr>prs_current_pressure = 1015, prs_last_flow_rate = 30\<rparr>) 0)))
     - PRESSURE_BASELINE\<bar>"
proof -
  have "noise_within 1 demo_rng" by (simp add: noise_within_def demo_rng_def)
  from pressure_anomalies_separated[OF demo_rng_ok this] show ?thesis by (simp add: prod_eq_iff)
qed

text \<open>A sensor that reports only anomalies.\<close>

fun anomaly_run :: "rng \<Rightarrow> nat \<Rightarrow> temperature_sensor \<Rightarrow> temperature_sensor random" where
  "anomaly_run r 0 d = give d"
| "anomaly_run r (Suc n) d = do { x \<leftarrow> temperature_anomaly r d; anomaly_run r n (fst x) }"

lemma drift_step:
  assumes "\<forall>n k. rn_choice r n k = 1" and "tse_drift_steps d < 40" and "tse_last_temperature d = Some t"
  shows "pred_state (\<lambda>x. tse_drift_steps (fst x) = tse_drift_steps d + 1 \<and>
      tse_last_temperature (fst x) = Some (t + of_nat (tse_drift_steps d + 1) / 2)) (temperature_anomaly r d)"
proof -
  have "min (t + (1 + of_nat (tse_drift_steps d)) / 2) (t + 20) = t + (1 + of_nat (tse_drift_steps d)) / 2"
  proof -
    have "(of_nat (tse_drift_steps d + 1) :: rat) \<le> of_nat 40" unfolding of_nat_le_iff using assms(2) by simp
    then show ?thesis by (simp add: min_def)
  qed
  then show ?thesis
    using assms unfolding temperature_anomaly_def
    by (auto intro!: pred_stateI simp: random_choice_def temperature_fault_def last_or_default_def drift_anomaly_def Let_def
        add_divide_distrib split: prod.splits)
qed

text \<open>The drift of a temperature sensor is not capped at 20 degrees. The cap is relative to the last
  reported value, which already contains the drift so far: n drift anomalies in a row add
  n (n + 1) / 4 degrees, more than 20 from the ninth on.\<close>

theorem drift_exceeds_cap:
  assumes "\<forall>m k. rn_choice r m k = 1" and "tse_drift_steps d = 0" and "tse_last_temperature d = Some t" and "n \<le> 40"
  shows "pred_state (\<lambda>d'. tse_last_temperature d' = Some (t + of_nat (n * (n + 1)) / 4)) (anomaly_run r n d)"
proof -
  have "pred_state (\<lambda>d'. tse_last_temperature d' = Some (u + of_nat (n * (2 * s + n + 1)) / 4)) (anomaly_run r n e)"
    if "tse_drift_steps e = s" "tse_last_temperature e = Some u" "s + n \<le> 40" for e s u
    using that
  proof (induction n arbitrary: e s u)
    case (Suc n)
    have eq: "u + of_nat (s + 1) / 2 + of_nat (n * (2 * (s + 1) + n + 1)) / 4 = u + of_nat (Suc n * (2 * s + Suc n + 1)) / (4 :: rat)"
      by (simp add: field_simps)
    have step: "pred_state (\<lambda>x. tse_drift_steps (fst x) = s + 1 \<and> tse_last_temperature (fst x) = Some (u + of_nat (s + 1) / 2))
        (temperature_anomaly r e)"
      using drift_step[OF assms(1), of e u] Suc.prems by simp
    show ?case
      unfolding anomaly_run.simps eq[symmetric]
    proof (rule outcome_bind[OF outcome_mono[OF step]])
      fix x :: "temperature_sensor \<times> json_object"
      assume "tse_drift_steps (fst x) = s + 1 \<and> tse_last_temperature (fst x) = Some (u + of_nat (s + 1) / 2)"
      then show "pred_state (\<lambda>d'. tse_last_temperature d' =
          Some (u + of_nat (s + 1) / 2 + of_nat (n * (2 * (s + 1) + n + 1)) / 4)) (anomaly_run r n (fst x))"
        using Suc.prems(3) by (intro Suc.IH) simp_all
    qed
  qed (simp add: outcome_give)
  from this[of d 0 t] show ?thesis using assms(2-4) by (simp add: algebra_simps)
qed

theorem drift_exceeds_cap_witness:
  "20 < (of_nat (9 * (9 + 1)) / 4 :: rat) \<and>
   pred_state (\<lambda>d'. tse_last_temperature d' = Some (23 + of_nat (9 * (9 + 1)) / 4))
     (anomaly_run (demo_rng\<lparr>rn_choice := \<lambda>_ _. 1\<rparr>) 9 (temperature_new\<lparr>tse_last_temperature := Some 23\<rparr>))"
proof
  show "pred_state (\<lambda>d'. tse_last_temperature d' = Some (23 + of_nat (9 * (9 + 1)) / 4))
     (anomaly_run (demo_rng\<lparr>rn_choice := \<lambda>_ _. 1\<rparr>) 9 (temperature_new\<lparr>tse_last_temperature := Some 23\<rparr>))"
    by (rule drift_exceeds_cap) (simp_all add: temperature_new_def)
qed simp

subsection \<open>The fleet\<close>

abbreviation known_types :: "string set" where
  "known_types \<equiv> {''temperature_sensor'', ''pressure_sensor'', ''vibration_sensor''}"

text \<open>The devices so far: their types cycle, and their names are numbered per type.\<close>

definition fleet_inv :: "(string \<Rightarrow> uuid) \<Rightarrow> string list \<Rightarrow> nat \<Rightarrow> base_device list \<times> (string, nat) dict \<Rightarrow> bool" where
  "fleet_inv uuid5 types n s \<longleftrightarrow> list_all device_ok (fst s) \<and>
     map bd_device_type (fst s) = map (\<lambda>i. types ! (i mod length types)) [0..<n] \<and> distinct (map bd_device_id (fst s)) \<and>
     (\<forall>d \<in> set (fst s). \<exists>c < dget_or (snd s) (bd_device_type d) 0. bd_device_id d = uuid5 (human_name (bd_device_type d) c))"

lemma fleet_step_inv:
  assumes "rng_ok r" and "inj uuid5" and "types \<noteq> []" and "set types \<subseteq> known_types" and "fleet_inv uuid5 types i s"
  shows "pred_state (fleet_inv uuid5 types (i + 1)) (fleet_step r uuid5 types v i s)"
proof -
  let ?t = "types ! (i mod length types)"
  let ?c = "dget_or (snd s) ?t 0"
  have types: "types ! (j mod length types) \<in> known_types" for j
    using assms(3,4) by (meson mod_less_divisor length_greater_0_conv nth_mem subsetD)
  then have t: "?t \<in> known_types" .
  have "fleet_inv uuid5 types (i + 1) (fst s @ [d], dset ?t (?c + 1) (snd s))"
    if d: "device_ok d" "bd_device_id d = uuid5 (human_name ?t ?c)" "bd_device_type d = ?t" for d
  proof -
    have new: "bd_device_id d \<notin> bd_device_id ` set (fst s)"
    proof
      assume "bd_device_id d \<in> bd_device_id ` set (fst s)"
      then obtain e where e: "e \<in> set (fst s)" "bd_device_id e = bd_device_id d" by force
      obtain k where k: "k < dget_or (snd s) (bd_device_type e) 0" "bd_device_id e = uuid5 (human_name (bd_device_type e) k)"
        using assms(5) e(1) unfolding fleet_inv_def by blast
      have "bd_device_type e \<in> set (map bd_device_type (fst s))" using e(1) by simp
      also have "map bd_device_type (fst s) = map (\<lambda>i. types ! (i mod length types)) [0..<i]"
        using assms(5) unfolding fleet_inv_def by blast
      finally obtain j where "bd_device_type e = types ! (j mod length types)" by auto
      then have "bd_device_type e \<in> known_types" using types[of j] by (simp only:)
      moreover have "human_name (bd_device_type e) k = human_name ?t ?c"
        by (rule injD[OF assms(2)]) (simp only: k(2)[symmetric] e(2) d(2)[symmetric])
      ultimately have "bd_device_type e = ?t \<and> k = ?c" by (rule human_name_inj[OF _ t])
      then show False using k(1) by simp
    qed
    have "\<exists>c < dget_or (dset ?t (?c + 1) (snd s)) (bd_device_type e) 0. bd_device_id e = uuid5 (human_name (bd_device_type e) c)"
      if e: "e \<in> set (fst s)" for e
    proof -
      obtain k where k: "k < dget_or (snd s) (bd_device_type e) 0" "bd_device_id e = uuid5 (human_name (bd_device_type e) k)"
        using assms(5) e unfolding fleet_inv_def by blast
      have "dget_or (snd s) (bd_device_type e) 0 \<le> dget_or (dset ?t (?c + 1) (snd s)) (bd_device_type e) 0" by simp
      then show ?thesis using k by (intro exI[of _ k]) simp
    qed
    then show ?thesis using assms(5) d new unfolding fleet_inv_def by auto
  qed
  then show ?thesis
    unfolding fleet_step_def Let_def
    by (rule_tac outcome_bind[OF outcome_mono[OF new_device_ok[OF assms(1)]]])
      (use t in \<open>auto intro!: outcome split: option.splits\<close>)
qed

lemma fleet_loop_inv:
  assumes "rng_ok r" and "inj uuid5" and "types \<noteq> []" and "set types \<subseteq> known_types" and "fleet_inv uuid5 types i s"
  shows "pred_state (fleet_inv uuid5 types (i + k)) (fleet_loop r uuid5 types v [i..<i + k] s)"
  using assms(5)
proof (induction k arbitrary: i s)
  case (Suc k)
  have step: "pred_state (fleet_inv uuid5 types (i + 1)) (fleet_step r uuid5 types v i s)"
    by (rule fleet_step_inv[OF assms(1-4) Suc.prems])
  have "pred_state (fleet_inv uuid5 types (i + Suc k)) (fleet_loop r uuid5 types v [Suc i..<Suc i + k] s')"
    if "fleet_inv uuid5 types (i + 1) s'" for s'
    using Suc.IH[of "Suc i" s'] that by simp
  moreover have "[i..<i + Suc k] = i # [Suc i..<Suc i + k]" by (simp add: upt_conv_Cons)
  ultimately show ?case by (auto intro!: outcome_bind outcome_mono[OF step])
qed (simp add: outcome_give)



lemma traverse_length: "pred_state (\<lambda>ys. length ys = length xs) (State_Monad.traverse_list f xs)"
  by (rule outcome_mono[OF outcome_traverse[of xs "\<lambda>_ _. True"]]) (auto intro: pred_stateI dest: list_all2_lengthD)

lemma count_published_fold:
  "fl_total_published (fold count_published rs f) = fl_total_published f + length [p \<leftarrow> rs. fst p \<noteq> Raises]"
  "fl_total_anomalies (fold count_published rs f) = fl_total_anomalies f + length [p \<leftarrow> rs. fst p \<noteq> Raises \<and> snd p]"
  "fl_devices (fold count_published rs f) = fl_devices f" "fl_running (fold count_published rs f) = fl_running f"
  by (induction rs arbitrary: f) (auto simp: count_published_def)

lemma publish_cycle_counts:
  assumes "\<forall>i m. deliver i m \<noteq> Raises"
  shows "pred_state (\<lambda>x. snd x \<and> length (fl_devices (fst x)) = length (fl_devices f) \<and> fl_running (fst x) = fl_running f \<and>
      fl_total_published (fst x) = fl_total_published f + length (fl_devices f) \<and>
      fl_total_anomalies f \<le> fl_total_anomalies (fst x) \<and>
      fl_total_anomalies (fst x) \<le> fl_total_anomalies f + length (fl_devices f)) (publish_cycle r now rate deliver f)"
proof -
  let ?res = "\<lambda>ms. map (\<lambda>(d, m, a). (deliver (bd_device_id d) m, a)) ms :: (publish_result \<times> bool) list"
  have "[p \<leftarrow> ?res ms. fst p \<noteq> Raises] = ?res ms" for ms
    using assms by (intro filter_True) auto
  then have all: "length [p \<leftarrow> ?res ms. fst p \<noteq> Raises] = length ms" for ms by (metis length_map)
  have some: "length [p \<leftarrow> ?res ms. fst p \<noteq> Raises \<and> snd p] \<le> length ms" for ms
    using length_filter_le[of "\<lambda>p. fst p \<noteq> Raises \<and> snd p" "?res ms"] by simp
  have ok: "\<forall>p \<in> set (?res ms). fst p \<noteq> Raises" for ms using assms by auto
  show ?thesis
    unfolding publish_cycle_def Let_def
  proof (rule outcome_bind[OF outcome_mono[OF traverse_length]], rule outcome_give, goal_cases)
    case (1 ms)
    then show ?case
      using ok[of ms] all[of ms] some[of ms] by (simp add: count_published_fold del: length_filter_map)
  qed
qed

text \<open>The rounds a run makes: up to and including the first one in which \<open>stop\<close> is called.\<close>

fun rounds_run :: "('a \<times> bool) list \<Rightarrow> nat" where
  "rounds_run [] = 0"
| "rounds_run (e # es) = (if snd e then 1 else rounds_run es + 1)"

text \<open>The fleet stops after the round in which it is told to, and its statistics count attempts: each
  round adds the number of devices to the total, whether the messages were sent or every one of them
  was refused.\<close>

theorem published_counts_attempts:
  assumes "\<forall>(deliver, stop_called) \<in> set es. \<forall>i m. deliver i m \<noteq> Raises"
  shows "pred_state (\<lambda>f'. fl_total_published f' = fl_total_published f + rounds_run es * length (fl_devices f) \<and>
      fl_total_anomalies f' \<le> fl_total_anomalies f + rounds_run es * length (fl_devices f) \<and>
      length (fl_devices f') = length (fl_devices f) \<and> fl_running f' = (\<forall>e \<in> set es. \<not> snd e))
    (fleet_run r now rate es f)"
proof -
  have "pred_state (\<lambda>f'. fl_total_published f' = fl_total_published g + rounds_run es * length (fl_devices g) \<and>
      fl_total_anomalies f' \<le> fl_total_anomalies g + rounds_run es * length (fl_devices g) \<and>
      length (fl_devices f') = length (fl_devices g) \<and> fl_running f' = (\<forall>e \<in> set es. \<not> snd e))
    (fleet_rounds r now rate es g)" if "fl_running g" for g
    using assms that
  proof (induction es arbitrary: g)
    case (Cons e es)
    obtain deliver stop_called where e: "e = (deliver, stop_called)" by fastforce
    have deliver: "\<forall>i m. deliver i m \<noteq> Raises" using Cons.prems(1) by (auto simp: e)
    have stopped: "fleet_rounds r now rate es f' = give f'" if "\<not> fl_running f'" for f'
      using that by (cases es) auto
    show ?case
      unfolding e fleet_rounds.simps not_not if_not_P[of "\<not> fl_running g", unfolded not_not, OF Cons.prems(2)]
    proof (rule outcome_bind[OF outcome_mono[OF publish_cycle_counts[OF deliver, where f = g]]], goal_cases)
      case (1 x)
      then show ?case
        using Cons.IH[of "fst x"] Cons.prems
        by (cases stop_called) (auto simp: stopped e intro!: outcome elim!: outcome_mono)
    qed
  qed (simp add: outcome_give)
  from this[of "f\<lparr>fl_running := True\<rparr>"] show ?thesis by (simp add: fleet_run_def)
qed

theorem published_counts_attempts_witness:
  "pred_state (\<lambda>f'. fl_total_published f' = 2 \<and> \<not> fl_running f')
     (fleet_run demo_rng ''now'' (1 / 20) [(\<lambda>_ _. Refused, False), (\<lambda>_ _. rest_publish True None, True), (\<lambda>_ _. Sent, False)]
       (fleet_new [demo_vibration]))"
  by (rule outcome_mono[OF published_counts_attempts]) (auto simp: fleet_new_def rest_publish_def)

end
