(* ===== verification/EdgeProps.thy ===== *)
theory EdgeProps imports EdgeTraining SimulatorProps "HOL-Library.Multiset" begin

section \<open>Properties of the training of the edge model\<close>

text \<open>
  What is trained is what is served: the simulated readings, the statistics, the loss of an epoch, and
  the two files with the service that starts on them, also when the export is refused.
\<close>

subsection \<open>Simulated readings\<close>

definition same_device :: "base_device \<Rightarrow> base_device \<Rightarrow> bool" where
  "same_device d d' \<longleftrightarrow> device_ok d' \<and> bd_device_id d' = bd_device_id d \<and> bd_device_type d' = bd_device_type d"

definition reading_of :: "codec \<Rightarrow> base_device \<Rightarrow> labelled \<Rightarrow> bool" where
  "reading_of c d x \<longleftrightarrow> tr_device_id (fst x) = bd_device_id d \<and> tr_device_type (fst x) = bd_device_type d \<and>
     dget (tr_payload (fst x)) ''anomaly'' = Some (JBool (snd x)) \<and> fx_values c (fst x) \<noteq> None"

lemma make_telemetry_reading:
  assumes "rng_ok r" and "device_ok d" and "cd_uuid c (JStr (bd_device_id d)) = Some (bd_device_id d)"
    and "cd_datetime c (JStr now) \<noteq> None"
  shows "pred_state (\<lambda>x. same_device d (fst x) \<and> (\<exists>reading. make_reading c received (fst (snd x)) = Some reading \<and>
    reading_of c d (reading, snd (snd x)))) (make_telemetry r now rate d)"
proof -
  obtain t where t: "cd_datetime c (JStr now) = Some t" using assms(4) by blast
  have "pred_state (\<lambda>x. same_device d (fst x) \<and> (\<exists>reading. make_reading c received (snd x) = Some reading \<and>
      reading_of c d (reading, a))) (get_telemetry r now a d)" for a
  proof (rule outcome_mono[OF get_telemetry_ok[OF assms(1,2)]])
    fix x assume x: "message_ok d now a x"
    have "same_device d (fst x)" using x by (simp add: same_device_def message_ok_def)
    moreover have "\<exists>reading. make_reading c received (snd x) = Some reading \<and> reading_of c d (reading, a)"
      using message_reading[OF x assms(2,3) t, of received "[]"] unfolding reading_of_def by auto
    ultimately show "same_device d (fst x) \<and> (\<exists>reading. make_reading c received (snd x) = Some reading \<and> reading_of c d (reading, a))"
      by blast
  qed
  note gt = this
  show ?thesis
    unfolding make_telemetry_def Let_def
    by (rule outcome_bind[OF outcome_random], rule outcome_bind[OF outcome_mono[OF gt]]) (auto intro: outcome)
qed

text \<open>Devices whose ids the model accepts, and a clock whose texts it accepts.\<close>

definition clock_ok :: "codec \<Rightarrow> (nat \<Rightarrow> string) \<Rightarrow> bool" where
  "clock_ok c clock \<longleftrightarrow> (\<forall>n. cd_datetime c (JStr (clock n)) \<noteq> None)"

definition devices_ok :: "codec \<Rightarrow> base_device list \<Rightarrow> bool" where
  "devices_ok c ds \<longleftrightarrow> (\<forall>d \<in> set ds. device_ok d \<and> cd_uuid c (JStr (bd_device_id d)) = Some (bd_device_id d))"

lemma device_pass_readings:
  assumes "rng_ok r" and "clock_ok c clock" and "devices_ok c ds"
  shows "pred_state (\<lambda>x. list_all2 same_device ds (fst x) \<and> (\<exists>rs. snd x = Some rs \<and> list_all2 (reading_of c) ds rs))
    (device_pass c r received clock rate ds)"
  using assms(3)
proof (induction ds)
  case (Cons d ds)
  have d: "device_ok d" "cd_uuid c (JStr (bd_device_id d)) = Some (bd_device_id d)" and ds: "devices_ok c ds"
    using Cons.prems by (simp_all add: devices_ok_def)
  have clock: "cd_datetime c (JStr (clock n)) \<noteq> None" for n using assms(2) by (simp add: clock_ok_def)
  note head = make_telemetry_reading[OF assms(1) d clock, where received = received]
  show ?case
    unfolding device_pass.simps
  proof (rule outcome_bind[OF outcome_get], rule outcome_bind[OF outcome_mono[OF head]],
      rule outcome_bind[OF outcome_mono[OF Cons.IH[OF ds]]], rule outcome_give, goal_cases)
    case (1 n x y)
    then obtain reading rs where "make_reading c received (fst (snd x)) = Some reading" "snd y = Some rs"
      "reading_of c d (reading, snd (snd x))" "list_all2 (reading_of c) ds rs" by blast
    then show ?case using 1 by simp
  qed
qed (simp add: outcome_give)

lemma same_devices:
  assumes "list_all2 same_device ds ds'" and "devices_ok c ds"
  shows "devices_ok c ds'" and "list_all2 (reading_of c) ds' rs \<longleftrightarrow> list_all2 (reading_of c) ds rs"
proof -
  show "devices_ok c ds'"
    unfolding devices_ok_def
  proof
    fix d' assume "d' \<in> set ds'"
    then obtain i where i: "i < length ds'" "d' = ds' ! i" by (auto simp: in_set_conv_nth)
    have d: "same_device (ds ! i) d'" and "i < length ds" using assms(1) i by (simp_all add: list_all2_conv_all_nth)
    then have "cd_uuid c (JStr (bd_device_id (ds ! i))) = Some (bd_device_id (ds ! i))"
      using assms(2) unfolding devices_ok_def by simp
    then show "device_ok d' \<and> cd_uuid c (JStr (bd_device_id d')) = Some (bd_device_id d')"
      using d by (simp add: same_device_def)
  qed
  show "list_all2 (reading_of c) ds' rs \<longleftrightarrow> list_all2 (reading_of c) ds rs"
    using assms(1)
  proof (induction arbitrary: rs rule: list_all2_induct)
    case (Cons d ds d' ds')
    have "reading_of c d' x \<longleftrightarrow> reading_of c d x" for x using Cons.hyps(1) by (simp add: reading_of_def same_device_def)
    then show ?case by (cases rs) (simp_all add: Cons.IH)
  qed simp
qed

lemma device_passes_readings:
  assumes "rng_ok r" and "clock_ok c clock" and "devices_ok c ds"
  shows "pred_state (\<lambda>res. \<exists>rs. res = Some rs \<and> list_all2 (reading_of c) (concat (replicate steps ds)) rs)
    (device_passes c r received clock rate steps ds)"
  using assms(3)
proof (induction steps arbitrary: ds)
  case (Suc steps)
  show ?case
    unfolding device_passes.simps
  proof (rule outcome_bind[OF outcome_mono[OF device_pass_readings[OF assms(1,2) Suc.prems]]], goal_cases)
    case (1 x)
    then obtain ds' rs where x: "x = (ds', Some rs)" "list_all2 same_device ds ds'" "list_all2 (reading_of c) ds rs" by (cases x) auto
    have transport: "list_all2 (reading_of c) (concat (replicate k ds')) qs \<longleftrightarrow> list_all2 (reading_of c) (concat (replicate k ds)) qs" for k qs
    proof (rule same_devices(2))
      show "list_all2 same_device (concat (replicate k ds)) (concat (replicate k ds'))"
        by (induction k) (simp_all add: x(2) list_all2_appendI)
      show "devices_ok c (concat (replicate k ds))" using Suc.prems by (induction k) (simp_all add: devices_ok_def ball_Un)
    qed
    show ?case
      by (rule outcome_bind[OF outcome_mono[OF Suc.IH]], simp add: x(1) same_devices(1)[OF x(2) Suc.prems], rule outcome_give)
        (auto simp: x(1) transport intro!: list_all2_appendI x(3))
  qed
qed (simp add: outcome_give)

text \<open>The training data are those of the live fleet. With a clock and ids the model accepts, whatever is drawn, the
  generator returns: in every step one reading per device, in the order of the devices with their ids
  and types, whose label is the one its payload carries and from which the extractor takes two values.\<close>

theorem training_telemetry_labelled:
  assumes "rng_ok r" and "clock_ok c clock" and "\<forall>k. cd_uuid c (JStr (uuid4 k)) = Some (uuid4 k)"
  shows "pred_state (\<lambda>res. \<exists>readings. res = Some readings \<and>
      map (\<lambda>(reading, _). (tr_device_id reading, tr_device_type reading)) readings =
        concat (replicate steps (map (\<lambda>(k, cls). (uuid4 k, cls)) (List.enumerate 0 (concat (map (replicate n) DEVICE_CLASSES))))) \<and>
      (\<forall>(reading, label) \<in> set readings. dget (tr_payload reading) ''anomaly'' = Some (JBool label) \<and> fx_values c reading \<noteq> None))
    (generate_telemetry c r received clock uuid4 n steps rate)"
proof -
  let ?es = "List.enumerate 0 (concat (map (replicate n) DEVICE_CLASSES))"
  let ?made = "\<lambda>(k, cls) d. d \<noteq> None \<and> device_ok (the d) \<and> bd_device_id (the d) = uuid4 k \<and> bd_device_type (the d) = cls"
  have classes: "cls \<in> {''temperature_sensor'', ''pressure_sensor'', ''vibration_sensor''}" if "(k, cls) \<in> set ?es" for k cls
  proof -
    have "cls \<in> set (map snd ?es)" using imageI[OF that, of snd] by (simp only: snd_conv set_map)
    then have "cls \<in> set (concat (map (replicate n) DEVICE_CLASSES))" by (simp only: map_snd_enumerate)
    then show ?thesis by (auto simp: DEVICE_CLASSES_def)
  qed
  have made: "pred_state (list_all2 ?made ?es) (State_Monad.traverse_list (\<lambda>(k, cls). new_device r cls (uuid4 k) 5) ?es)"
  proof (rule outcome_traverse)
    fix e assume e: "e \<in> set ?es"
    obtain k cls where k: "e = (k, cls)" by fastforce
    show "pred_state (?made e) (case e of (k, cls) \<Rightarrow> new_device r cls (uuid4 k) 5)"
      unfolding k prod.case
      by (rule outcome_mono[OF new_device_ok[OF assms(1)]]) (use classes[of k cls] e in \<open>auto simp: k split: option.splits\<close>)
  qed
  have devices: "pred_state (list_all2 (\<lambda>e d. ?made e (Some d)) ?es) (training_devices r uuid4 n)"
    unfolding training_devices_def
    by (rule outcome_bind[OF outcome_mono[OF made]], rule outcome_give)
      (auto simp: list_all2_map2 split_beta elim!: list_all2_mono)
  show ?thesis
    unfolding generate_telemetry_def
  proof (rule outcome_bind[OF outcome_mono[OF devices]], goal_cases)
    case (1 ds)
    have ids: "map (\<lambda>d. (bd_device_id d, bd_device_type d)) ds = map (\<lambda>(k, cls). (uuid4 k, cls)) ?es"
      using 1 by (induction rule: list_all2_induct) auto
    have "devices_ok c ds"
      using 1 by (induction rule: list_all2_induct) (auto simp: devices_ok_def assms(3))
    note passes = device_passes_readings[OF assms(1,2) this, where received = received and rate = rate and steps = steps]
    have keys: "map (\<lambda>(reading, _). (tr_device_id reading, tr_device_type reading)) rs = map (\<lambda>d. (bd_device_id d, bd_device_type d)) xs"
      if "list_all2 (reading_of c) xs rs" for xs rs
      using that by (induction rule: list_all2_induct) (auto simp: reading_of_def split_beta)
    have labels: "\<forall>(reading, label) \<in> set rs. dget (tr_payload reading) ''anomaly'' = Some (JBool label) \<and> fx_values c reading \<noteq> None"
      if "list_all2 (reading_of c) xs rs" for xs rs
      using that by (induction rule: list_all2_induct) (auto simp: reading_of_def)
    show ?case
      by (rule outcome_mono[OF passes]) (use keys labels in \<open>fastforce simp: map_concat map_replicate_const ids[symmetric]\<close>)
  qed
qed

theorem training_telemetry_labelled_witness:
  "pred_state (\<lambda>res. \<exists>readings. res = Some readings \<and> length readings = 6)
     (generate_telemetry demo_text demo_rng 0 (\<lambda>_. ''now'') (\<lambda>k. nat_str k) 1 2 (1 / 2))"
proof -
  have "clock_ok demo_text (\<lambda>_. ''now'')" "\<forall>k. cd_uuid demo_text (JStr (nat_str k)) = Some (nat_str k)"
    by (simp_all add: clock_ok_def demo_text_def json_str_def)
  from training_telemetry_labelled[OF demo_rng_ok this, of 2 1] show ?thesis
    by (rule outcome_mono) (auto simp: DEVICE_CLASSES_def numeral_2_eq_2 dest: arg_cong[where f = length])
qed

subsection \<open>Training and serving\<close>

lemma extract_batch_all:
  assumes "snd (extract_all c rs x) = Some rows" and "length ids = length rs" and "\<forall>r \<in> set rs. reading_codec_ok c r"
  shows "snd (extract_batch c (zip ids (map (to_stream_dict c) rs)) x) = zip rs rows"
  using assms
proof (induction rs arbitrary: ids x rows)
  case (Cons r rs)
  obtain i is' where ids: "ids = i # is'" using Cons.prems(2) by (cases ids) auto
  obtain x' row where row: "extract_row c r x = (x', Some row)"
    using Cons.prems(1) by (auto split: prod.splits option.splits)
  obtain rows' where rows': "snd (extract_all c rs x') = Some rows'" "rows = row # rows'"
    using Cons.prems(1) by (auto simp: row split: prod.splits)
  show ?case
    using Cons.IH[OF rows'(1), of is'] Cons.prems(2,3)
    by (auto simp: ids row rows'(2) stream_dict_round_trip split: prod.splits)
qed simp

text \<open>The service reads the directory the training wrote, with its model first.\<close>

definition serves :: "model_files model_env \<Rightarrow> model_files \<Rightarrow> string \<Rightarrow> string \<Rightarrow> bool" where
  "serves E fs dir path \<longleftrightarrow> me_read_metadata E fs (sidecar path) = dget (mf_sidecars fs) (sidecar path) \<and>
     me_session E fs path = dget (mf_models fs) path \<and> (\<exists>rest. me_onnx_files E fs dir = path # rest)"

text \<open>A start on a model whose sidecar has a threshold.\<close>

lemma startup_loads:
  assumes "serves E fs dir path" and "dget (mf_sidecars fs) (sidecar path) = Some (JObj meta)"
    and "dget (mf_models fs) path = Some session" and "Option.bind (dget meta ''error_threshold'') (to_float c) = Some t"
  shows "ml_startup c E fs now dir w = Inr (\<lparr>ie_session = Some session, ie_model_name = dget_or meta ''model_name'' (JStr ''''),
    ie_model_version = dget_or meta ''model_version'' (JStr ''''), ie_loaded_at = Some now, ie_metadata = meta,
    ie_error_threshold = t\<rparr>, fx_new w (dget meta ''feature_stats''))"
  using assms
  by (auto simp: ml_startup_def serves_def load_initial_model_def load_model_def json_dict_def or_meta_def engine_init_def)

lemma pipeline_completed:
  assumes "train_pipeline T c args now readings fs = (fs', Inr ())"
  obtains m ort meta where "trained_model T c args readings = Some m"
    "te_session T (em_scorer m) (em_x_test m) = Some ort" "relative_diffs ort (em_test_errors m) \<noteq> []"
    "\<forall>d \<in> set (relative_diffs ort (em_test_errors m)). d \<le> 1 / 1000" "model_metadata T args now m = Some meta"
    "dget (mf_models fs') (onnx_path args) = Some (te_session T (em_scorer m))"
    "dget (mf_sidecars fs') (sidecar (onnx_path args)) = Some (JObj meta)"
proof -
  obtain m where m: "trained_model T c args readings = Some m" and ex: "export_model T args now m fs = (fs', Inr ())"
    using assms by (auto simp: train_pipeline_def split: option.splits)
  obtain ort where ort: "te_session T (em_scorer m) (em_x_test m) = Some ort"
    using ex by (auto simp: export_model_def Let_def split: option.splits)
  have d: "relative_diffs ort (em_test_errors m) \<noteq> []" "\<not> Max (set (relative_diffs ort (em_test_errors m))) > 1 / 1000"
    using ex by (auto simp: export_model_def Let_def ort split: if_splits)
  then have "\<forall>d \<in> set (relative_diffs ort (em_test_errors m)). d \<le> 1 / 1000"
    by (meson List.finite_set Max_ge not_less order_trans)
  moreover obtain meta where "model_metadata T args now m = Some meta"
      "fs' = fs\<lparr>mf_models := dset (onnx_path args) (te_session T (em_scorer m)) (mf_models fs),
        mf_sidecars := dset (sidecar (onnx_path args)) (JObj meta) (mf_sidecars fs)\<rparr>"
    using ex d by (auto simp: export_model_def Let_def ort split: option.splits)
  ultimately show ?thesis using that m ort d(1) by auto
qed

lemma metadata_fields:
  assumes "model_metadata T args now m = Some meta"
  shows "dget meta ''model_name'' = Some (JStr MODEL_NAME)" "dget meta ''model_version'' = Some (JStr (ea_version args))"
    "dget meta ''error_threshold'' = Some (JFloat (em_threshold m))"
    "dget meta ''feature_stats'' = Some (JObj (em_feature_stats m))"
    "dget meta ''window_size'' = Some (JInt (int (ea_window_size args)))"
  using assms by (auto simp: model_metadata_def split: if_splits)

lemma trained_model_parts:
  assumes "trained_model T c args readings = Some m"
  shows "compute_feature_stats T readings = Some (em_feature_stats m)"
    and "snd (extract_all c (map fst readings) (fx_new (ea_window_size args) (Some (JObj (em_feature_stats m))))) = Some (em_rows m)"
    and "those (map (em_scorer m) (em_x_test m)) = Some (em_test_errors m)"
    and "calibrate_threshold (te_quantiles T) (em_cal_errors m) (em_y_cal m) = Some (em_threshold m)"
    and "\<exists>model lower upper. em_scorer m = clamped_error model lower upper"
  using assms
  by (auto simp: trained_model_def extract_training_def Let_def bind_eq_Some_conv split_beta) (intro exI, rule refl)


text \<open>Five temperature sensors; the last one sends an anomaly. All weights of the network are absent and its biases zero.\<close>

definition demo_torch :: "nat torch_env" where
  "demo_torch = \<lparr>te_init = (\<lambda>_ _ m. (replicate m [], replicate m 0)), te_optimizer = 0,
     te_step = (\<lambda>k m _. (k + 1, m)), te_randperm = (\<lambda>_. [2, 0, 1]), te_shuffle = (\<lambda>ids. ids),
     te_quantiles = (\<lambda>_. [1, 2]), te_std = (\<lambda>_. 1), te_nan = 0, te_session = (\<lambda>f rows. those (map f rows)),
     te_version = ''2''\<rparr>"

definition demo_args :: edge_args where
  "demo_args = \<lparr>ea_output_dir = ''store'', ea_version = ''1.0.0'', ea_devices_per_type = 5, ea_steps = 1,
     ea_anomaly_rate = 1 / 20, ea_window_size = 10, ea_epochs = 1, ea_seed = 42\<rparr>"

definition demo_payload :: "rat \<Rightarrow> json_object" where
  "demo_payload v = [(''temperature_celsius'', JFloat v), (''humidity_percent'', JFloat 50)]"

definition edge_reading :: "string \<Rightarrow> rat \<Rightarrow> telemetry_reading" where
  "edge_reading i v = \<lparr>tr_device_id = i, tr_device_type = ''temperature_sensor'', tr_timestamp = 7,
     tr_payload = demo_payload v, tr_metadata = []\<rparr>"

definition edge_readings :: "labelled list" where
  "edge_readings = [(edge_reading ''a'' 20, False), (edge_reading ''b'' 20, False), (edge_reading ''c'' 20, False),
     (edge_reading ''d'' 20, False), (edge_reading ''e'' 30, True)]"

definition demo_json :: codec where
  "demo_json = demo_text\<lparr>
     cd_dumps := (\<lambda>j. if j = JObj [(''payload'', JObj (demo_payload 20))] then ''n''
       else if j = JObj [(''payload'', JObj (demo_payload 30))] then ''a'' else ''m''),
     cd_loads := (\<lambda>s. if s = ''n'' then Some (JObj [(''payload'', JObj (demo_payload 20))])
       else if s = ''a'' then Some (JObj [(''payload'', JObj (demo_payload 30))]) else Some (JObj [(''metadata'', JObj [])]))\<rparr>"

definition demo_files :: model_files where "demo_files = \<lparr>mf_models = [], mf_sidecars = []\<rparr>"

definition demo_env :: "model_files model_env" where
  "demo_env = \<lparr>me_read_metadata = (\<lambda>w p. dget (mf_sidecars w) p), me_session = (\<lambda>w p. dget (mf_models w) p),
     me_onnx_files = (\<lambda>w dir. [onnx_path demo_args]), me_exists = (\<lambda>w p. dhas (mf_models w) p),
     me_latest = raise (), me_download = (\<lambda>_ _. raise ()), me_str = (\<lambda>_. '''')\<rparr>"

lemma edge_run: "snd (train_pipeline demo_torch demo_json demo_args ''now'' edge_readings demo_files) = Inr ()"
  by code_simp

lemma demo_completed:
  "train_pipeline demo_torch demo_json demo_args ''now'' edge_readings demo_files =
    (fst (train_pipeline demo_torch demo_json demo_args ''now'' edge_readings demo_files), Inr ())"
  using edge_run by (metis prod.collapse)

lemma demo_serves: "serves demo_env fs dir (onnx_path demo_args)"
  by (simp add: serves_def demo_env_def)


subsection \<open>Decisions after the export\<close>

lemma relative_diff_bound:
  assumes "\<forall>d \<in> set (relative_diffs ort errs). d \<le> 1 / 1000" and "length ort = length errs" and "i < length errs"
  shows "\<bar>ort ! i - errs ! i\<bar> \<le> max \<bar>errs ! i\<bar> (1 / 1000) / 1000"
proof -
  have "\<bar>ort ! i - errs ! i\<bar> / max \<bar>errs ! i\<bar> (1 / 1000) \<in> set (relative_diffs ort errs)"
    using assms(2,3) by (force simp: relative_diffs_def set_zip)
  then have "\<bar>ort ! i - errs ! i\<bar> / max \<bar>errs ! i\<bar> (1 / 1000) \<le> 1 / 1000" using assms(1) by blast
  moreover have "0 < max \<bar>errs ! i\<bar> (1 / 1000)" by simp
  ultimately show ?thesis by (simp add: divide_le_eq)
qed

text \<open>C13. The comparison before the sidecar is written bounds what the conversion can change. After a
  completed run the served score of every test row is on the same side of one half as its training
  error is of the threshold, except for errors within a thousandth of it.\<close>

theorem exported_decisions_agree:
  assumes "train_pipeline T c args now readings fs = (fs', Inr ())" and "serves E fs' dir (onnx_path args)"
    and "trained_model T c args readings = Some m" and "0 < em_threshold m"
    and "\<And>ort. te_session T (em_scorer m) (em_x_test m) = Some ort \<Longrightarrow> length ort = length (em_x_test m) \<and> list_all (\<lambda>v. 0 \<le> v) ort"
  shows "\<exists>e x scores. ml_startup c E fs' started dir w = Inr (e, x) \<and> score e (em_x_test m) = Inr (map Num scores) \<and>
    length scores = length (em_x_test m) \<and> (\<forall>i < length scores. let err = em_test_errors m ! i; margin = max \<bar>err\<bar> (1 / 1000) / 1000 in
      (em_threshold m + margin < err \<longrightarrow> 1 / 2 < scores ! i) \<and> (err + margin \<le> em_threshold m \<longrightarrow> scores ! i \<le> 1 / 2))"
proof -
  obtain m' ort meta where m': "trained_model T c args readings = Some m'"
    and ort': "te_session T (em_scorer m') (em_x_test m') = Some ort"
    and close': "\<forall>d \<in> set (relative_diffs ort (em_test_errors m')). d \<le> 1 / 1000"
    and meta': "model_metadata T args now m' = Some meta"
    and files': "dget (mf_models fs') (onnx_path args) = Some (te_session T (em_scorer m'))"
      "dget (mf_sidecars fs') (sidecar (onnx_path args)) = Some (JObj meta)"
    by (rule pipeline_completed[OF assms(1)])
  have same: "m' = m" using m' assms(3) by simp
  note ort = ort'[unfolded same] and close = close'[unfolded same] and meta = meta'[unfolded same]
    and files = files'[unfolded same]
  have "Option.bind (dget meta ''error_threshold'') (to_float c) = Some (em_threshold m)"
    by (simp add: metadata_fields[OF meta] to_float_def)
  note start = startup_loads[OF assms(2) files(2,1) this, of started w]
  note ok = assms(5)[OF ort]
  have len: "length (em_test_errors m) = length (em_x_test m)"
    using trained_model_parts(3)[OF assms(3)] by (simp add: those_Some) (metis length_map)
  obtain e x where e: "ml_startup c E fs' started dir w = Inr (e, x)" "ie_session e = Some (te_session T (em_scorer m))"
    "ie_error_threshold e = em_threshold m" using start by auto
  have sc: "score e (em_x_test m) = Inr (map Num (map (anomaly_score (em_threshold m)) ort))"
    using score_eq[of e "em_x_test m" ort] ok assms(4) e ort by (simp add: predict_def)
  have "let err = em_test_errors m ! i; margin = max \<bar>err\<bar> (1 / 1000) / 1000 in
      (em_threshold m + margin < err \<longrightarrow> 1 / 2 < anomaly_score (em_threshold m) (ort ! i)) \<and>
      (err + margin \<le> em_threshold m \<longrightarrow> anomaly_score (em_threshold m) (ort ! i) \<le> 1 / 2)" if "i < length ort" for i
  proof -
    have "0 \<le> ort ! i" using ok that by (simp add: list_all_length)
    note half = anomaly_score_half[OF this assms(4)]
    define margin where "margin = max \<bar>em_test_errors m ! i\<bar> (1 / 1000) / 1000"
    have "\<bar>ort ! i - em_test_errors m ! i\<bar> \<le> margin"
      unfolding margin_def using relative_diff_bound[OF close, of i] ok len that by simp
    then have "em_test_errors m ! i \<le> ort ! i + margin" "ort ! i \<le> em_test_errors m ! i + margin" by linarith+
    then show ?thesis
      unfolding Let_def margin_def[symmetric] not_less[of "1 / 2", symmetric] half
      unfolding not_less by (intro conjI impI; linarith)
  qed
  then show ?thesis using e(1) sc ok
    by (intro exI[of _ e] exI[of _ x] exI[of _ "map (anomaly_score (em_threshold m)) ort"]) (simp del: map_map)
qed

lemma session_errors:
  assumes "trained_model T c args readings = Some m" and "those (map (em_scorer m) rows) = Some ort"
  shows "length ort = length rows \<and> list_all (\<lambda>v. 0 \<le> v) ort"
proof -
  obtain model lower upper where scorer: "em_scorer m = clamped_error model lower upper"
    using trained_model_parts(5)[OF assms(1)] by blast
  have ort: "map (em_scorer m) rows = map Some ort" using assms(2) by (simp add: those_Some)
  then have "length ort = length rows" by (metis length_map)
  moreover have "0 \<le> v" if "v \<in> set ort" for v
  proof -
    have "Some v \<in> set (map (em_scorer m) rows)" using that by (simp add: ort)
    then show ?thesis by (auto simp: scorer clamped_error_def mse_nonneg dest!: sym[of "Some v"])
  qed
  ultimately show ?thesis by (simp add: list_all_iff)
qed

lemma edge_trained: "trained_model demo_torch demo_json demo_args edge_readings \<noteq> None"
  using edge_run by (auto simp: train_pipeline_def split: option.splits)

theorem exported_decisions_agree_witness:
  "\<exists>m e x scores. trained_model demo_torch demo_json demo_args edge_readings = Some m \<and>
    ml_startup demo_json demo_env (fst (train_pipeline demo_torch demo_json demo_args ''now'' edge_readings demo_files)) 3 ''store'' 10 =
      Inr (e, x) \<and> score e (em_x_test m) = Inr (map Num scores) \<and> length scores = length (em_x_test m)"
proof -
  obtain m where m: "trained_model demo_torch demo_json demo_args edge_readings = Some m" using edge_trained by blast
  have "0 < em_threshold m"
    using trained_model_parts(4)[OF m] by (auto simp: calibrate_threshold_def demo_torch_def split: if_splits)
  moreover have "length ort = length (em_x_test m) \<and> list_all (\<lambda>v. 0 \<le> v) ort"
    if "te_session demo_torch (em_scorer m) (em_x_test m) = Some ort" for ort
    using session_errors[OF m] that by (simp add: demo_torch_def)
  ultimately show ?thesis using exported_decisions_agree[OF demo_completed demo_serves m] m by blast
qed

subsection \<open>A refused export\<close>

text \<open>C17. The comparison comes after the graph is written. When the exported graph diverges the run fails, but
  the graph stays at its final path and no sidecar is written: the service that starts next on the
  directory does not come up, or, where a sidecar of that version exists, serves the refused graph.\<close>

theorem refused_export_stays:
  assumes "trained_model T c args readings = Some m" and "te_session T (em_scorer m) (em_x_test m) = Some ort"
    and "d \<in> set (relative_diffs ort (em_test_errors m))" and "1 / 1000 < d"
  shows "\<exists>fs'. train_pipeline T c args now readings fs = (fs', Inl ExportDiverges) \<and>
    dget (mf_models fs') (onnx_path args) = Some (te_session T (em_scorer m)) \<and> mf_sidecars fs' = mf_sidecars fs \<and>
    (serves E fs' dir (onnx_path args) \<longrightarrow>
      (dget (mf_sidecars fs) (sidecar (onnx_path args)) = None \<longrightarrow> ml_startup c E fs' started dir w = Inl LoadError) \<and>
      (\<forall>meta t. dget (mf_sidecars fs) (sidecar (onnx_path args)) = Some (JObj meta) \<and>
          Option.bind (dget meta ''error_threshold'') (to_float c) = Some t \<longrightarrow>
        (\<exists>e x. ml_startup c E fs' started dir w = Inr (e, x) \<and> ie_session e = Some (te_session T (em_scorer m)) \<and>
          ie_error_threshold e = t)))"
proof -
  let ?fs = "fs\<lparr>mf_models := dset (onnx_path args) (te_session T (em_scorer m)) (mf_models fs)\<rparr>"
  have "Max (set (relative_diffs ort (em_test_errors m))) > 1 / 1000"
    using Max_ge[OF List.finite_set assms(3)] assms(4) by (rule less_le_trans[rotated])
  then have run: "train_pipeline T c args now readings fs = (?fs, Inl ExportDiverges)"
    using assms by (auto simp: train_pipeline_def export_model_def Let_def)
  have no_sidecar: "ml_startup c E ?fs started dir w = Inl LoadError"
    if "serves E ?fs dir (onnx_path args)" and "dget (mf_sidecars fs) (sidecar (onnx_path args)) = None"
    using that by (auto simp: serves_def ml_startup_def load_initial_model_def load_model_def)
  have old: "\<exists>e x. ml_startup c E ?fs started dir w = Inr (e, x) \<and> ie_session e = Some (te_session T (em_scorer m)) \<and> ie_error_threshold e = t"
    if "serves E ?fs dir (onnx_path args)" and "dget (mf_sidecars fs) (sidecar (onnx_path args)) = Some (JObj meta)"
      and "Option.bind (dget meta ''error_threshold'') (to_float c) = Some t" for meta t
    using startup_loads[of E ?fs dir "onnx_path args" meta "te_session T (em_scorer m)" c t started w] that by simp
  show ?thesis
    by (rule exI[of _ ?fs]) (use run no_sidecar old in auto)
qed

definition demo_wrong :: "nat torch_env" where
  "demo_wrong = demo_torch\<lparr>te_session := \<lambda>f rows. Some (map (\<lambda>_. 50) rows)\<rparr>"

lemma demo_refused:
  "snd (train_pipeline demo_wrong demo_json demo_args ''now'' edge_readings demo_files) = Inl ExportDiverges"
  by code_simp

lemma export_refused_cases:
  assumes "snd (train_pipeline T c args now readings fs) = Inl ExportDiverges"
  obtains m ort d where "trained_model T c args readings = Some m" "te_session T (em_scorer m) (em_x_test m) = Some ort"
    "d \<in> set (relative_diffs ort (em_test_errors m))" "1 / 1000 < d"
proof -
  obtain m where m: "trained_model T c args readings = Some m" and ex: "snd (export_model T args now m fs) = Inl ExportDiverges"
    using assms by (auto simp: train_pipeline_def split: option.splits)
  obtain ort where ort: "te_session T (em_scorer m) (em_x_test m) = Some ort"
    and d: "relative_diffs ort (em_test_errors m) \<noteq> []" "1 / 1000 < Max (set (relative_diffs ort (em_test_errors m)))"
    using ex by (auto simp: export_model_def Let_def split: option.splits if_splits)
  from d(1) have "Max (set (relative_diffs ort (em_test_errors m))) \<in> set (relative_diffs ort (em_test_errors m))"
    by (intro Max_in) auto
  then show ?thesis using that m ort d(2) by blast
qed

theorem refused_export_stays_witness:
  "\<exists>fs'. train_pipeline demo_wrong demo_json demo_args ''now'' edge_readings demo_files = (fs', Inl ExportDiverges) \<and>
    ml_startup demo_json demo_env fs' 3 ''store'' 10 = Inl LoadError"
proof -
  obtain m ort d where "trained_model demo_wrong demo_json demo_args edge_readings = Some m"
    "te_session demo_wrong (em_scorer m) (em_x_test m) = Some ort" "d \<in> set (relative_diffs ort (em_test_errors m))" "1 / 1000 < d"
    using demo_refused by (rule export_refused_cases)
  from refused_export_stays[OF this, where now = "''now''" and fs = demo_files and E = demo_env and dir = "''store''" and
      started = 3 and w = 10] show ?thesis
    using demo_serves by (auto simp: demo_files_def)
qed

subsection \<open>The loss of an epoch\<close>

lemma batches_concat:
  "concat (map (\<lambda>k. slice (256 * k) 256 xs) [0..<n]) = take (256 * n) xs"
proof (induction n)
  case (Suc n)
  have "take (256 * Suc n) xs = take (256 * n) xs @ take 256 (drop (256 * n) xs)"
    by (metis mult_Suc_right add.commute take_add)
  then show ?case using Suc by (simp add: slice_def)
qed simp

lemma epoch_batches_concat:
  assumes "mset perm = mset [0..<length rows]"
  shows "mset (concat (epoch_batches perm rows)) = mset rows"
proof -
  have len: "length perm = length rows" using assms by (metis diff_zero length_upt mset_eq_length)
  have "concat (epoch_batches perm rows) = map (\<lambda>i. rows ! i) (concat (map (\<lambda>k. slice (256 * k) 256 perm) [0..<(length rows + 255) div 256]))"
    by (simp add: epoch_batches_def map_concat comp_def)
  also have "\<dots> = map (\<lambda>i. rows ! i) perm" unfolding batches_concat by (simp add: len)
  finally have "mset (concat (epoch_batches perm rows)) = image_mset (\<lambda>i. rows ! i) (mset perm)" by simp
  also have "\<dots> = mset (map (\<lambda>i. rows ! i) [0..<length rows])" by (simp add: assms)
  finally show ?thesis by (simp add: map_nth)
qed

definition width_kept :: "nat \<Rightarrow> autoencoder \<Rightarrow> bool" where
  "width_kept w m \<longleftrightarrow> 0 < w \<and> (\<forall>x. length x = w \<longrightarrow> (\<exists>y. ae_forward m x = Some y \<and> length y = w))"

definition row_loss :: "autoencoder \<Rightarrow> vec \<Rightarrow> rat" where
  "row_loss m x = mse (the (ae_forward m x)) x"

lemma mse_concat:
  assumes "list_all2 (\<lambda>y x. length y = w \<and> length x = w) ys xs" and "0 < w"
  shows "mse (concat ys) (concat xs) * of_nat (length xs) = sum_list (map2 mse ys xs)"
proof -
  have sq: "sum_list (map2 (\<lambda>a b. (a - b) ^ 2) (concat ys) (concat xs)) = sum_list (map2 (\<lambda>y x. mse y x * of_nat w) ys xs)"
    using assms(1)
  proof induction
    case (Cons y ys x xs)
    have "0 < w" by (rule assms(2))
    then show ?case using Cons by (simp add: mse_def)
  qed simp
  have len: "length (concat ys) = length xs * w"
    using assms(1) by induction auto
  have "sum_list (map2 (\<lambda>y x. mse y x * of_nat w) ys xs) = sum_list (map2 mse ys xs) * of_nat w"
    by (induction ys xs rule: list_induct2') (auto simp: algebra_simps)
  then show ?thesis
    using assms(2) by (cases "xs = []") (auto simp: mse_def[of "concat ys"] sq len)
qed

lemma mse_loss_rows:
  assumes "width_kept w m" and "\<forall>x \<in> set batch. length x = w" and "batch \<noteq> []"
  shows "\<exists>l. mse_loss T m batch = Some l \<and> l * of_nat (length batch) = sum_list (map (row_loss m) batch)"
proof -
  let ?out = "map (\<lambda>x. the (ae_forward m x)) batch"
  have f: "ae_forward m x = Some (the (ae_forward m x)) \<and> length (the (ae_forward m x)) = w" if "x \<in> set batch" for x
  proof -
    have "length x = w" using that assms(2) by blast
    then show ?thesis using assms(1) unfolding width_kept_def by fastforce
  qed
  then have "those (map (ae_forward m) batch) = Some ?out" unfolding those_Some by simp
  moreover have "list_all2 (\<lambda>y x. length y = w \<and> length x = w) ?out batch"
    using f assms(2) by (auto simp: list_all2_conv_all_nth)
  then have "mse (concat ?out) (concat batch) * of_nat (length batch) = sum_list (map2 mse ?out batch)"
    using assms(1) by (intro mse_concat[of w]) (auto simp: width_kept_def)
  moreover have "map2 mse ?out batch = map (row_loss m) batch"
    by (simp add: row_loss_def zip_map1 zip_same_conv_map)
  ultimately show ?thesis using assms(3) by (auto simp: mse_loss_def)
qed

lemma train_batches_frozen:
  assumes "\<forall>opt batch. snd (te_step T opt m batch) = m" and "width_kept w m"
    and "\<forall>batch \<in> set bs. batch \<noteq> [] \<and> (\<forall>x \<in> set batch. length x = w)"
  shows "\<exists>opt'. train_batches T bs (opt, m) s = Some ((opt', m), s + sum_list (map (row_loss m) (concat bs)))"
  using assms(3)
proof (induction bs arbitrary: opt s)
  case (Cons b bs)
  obtain l where l: "mse_loss T m b = Some l" "l * of_nat (length b) = sum_list (map (row_loss m) b)"
    using mse_loss_rows[OF assms(2), of b T] Cons.prems by auto
  obtain opt' where st: "te_step T opt m b = (opt', m)" using assms(1) by (metis prod.collapse)
  show ?case using Cons.IH[of opt' "s + sum_list (map (row_loss m) b)"] Cons.prems by (simp add: l st add.assoc)
qed simp

lemma epoch_batches_ok:
  assumes "mset perm = mset [0..<length rows]" and "\<forall>x \<in> set rows. length x = w"
  shows "\<forall>batch \<in> set (epoch_batches perm rows). batch \<noteq> [] \<and> (\<forall>x \<in> set batch. length x = w)"
proof
  fix batch assume b: "batch \<in> set (epoch_batches perm rows)"
  then obtain k where k: "k < (length rows + 255) div 256" "batch = map (\<lambda>i. rows ! i) (slice (256 * k) 256 perm)"
    by (auto simp: epoch_batches_def)
  have "length perm = length rows" using assms(1) by (metis diff_zero length_upt mset_eq_length)
  then have "0 < length batch" using k by (auto simp: length_slice)
  moreover have "set batch \<subseteq> set (concat (epoch_batches perm rows))" using b by auto
  then have "set batch \<subseteq> set rows" using mset_eq_setD[OF epoch_batches_concat[OF assms(1)]] by simp
  ultimately show "batch \<noteq> [] \<and> (\<forall>x \<in> set batch. length x = w)" using assms(2) by auto
qed

text \<open>The loss an epoch reports is the loss over the whole training set, however it is shuffled and
  cut into batches, when the step does not change the network: the batches are weighted by their size,
  the last one included.\<close>

theorem epoch_loss_of_set:
  assumes "\<forall>opt batch. snd (te_step T opt m batch) = m" and "width_kept w m"
    and "\<forall>x \<in> set x_train. length x = w" and "x_train \<noteq> []" and "\<forall>x \<in> set x_val. length x = w" and "x_val \<noteq> []"
    and "mset (te_randperm T epoch) = mset [0..<length x_train]"
  shows "\<exists>opt' train_loss val_loss. mse_loss T m x_train = Some train_loss \<and> mse_loss T m x_val = Some val_loss \<and>
    train_epoch T x_train x_val epoch (opt, m) =
      Some ((opt', m), \<lparr>ep_epoch = epoch, ep_train_loss = train_loss, ep_val_loss = val_loss\<rparr>)"
proof -
  let ?bs = "epoch_batches (te_randperm T epoch) x_train"
  obtain t where t: "mse_loss T m x_train = Some t" "t * of_nat (length x_train) = sum_list (map (row_loss m) x_train)"
    using mse_loss_rows[OF assms(2,3,4), of T] by blast
  obtain v where v: "mse_loss T m x_val = Some v" using mse_loss_rows[OF assms(2,5,6), of T] by blast
  obtain opt' where run: "train_batches T ?bs (opt, m) 0 = Some ((opt', m), 0 + sum_list (map (row_loss m) (concat ?bs)))"
    using train_batches_frozen[OF assms(1,2) epoch_batches_ok[OF assms(7,3)], of opt 0] by blast
  have "sum_list (map (row_loss m) (concat ?bs)) = sum_list (map (row_loss m) x_train)"
    using epoch_batches_concat[OF assms(7)] by (metis mset_map sum_mset_sum_list)
  also have "\<dots> / of_nat (length x_train) = t" using assms(4) by (simp add: t(2)[symmetric])
  finally have loss: "sum_list (map (row_loss m) (concat ?bs)) / of_nat (length x_train) = t" .
  have "train_epoch T x_train x_val epoch (opt, m) =
      Some ((opt', m), \<lparr>ep_epoch = epoch, ep_train_loss = t, ep_val_loss = v\<rparr>)"
    using assms(4) loss by (simp add: train_epoch_def run v)
  then show ?thesis using t(1) v by blast
qed

theorem epoch_loss_of_set_witness:
  "\<exists>opt' l. train_epoch demo_torch [[0, 1], [1, 0], [1, 1]] [[2, 2]] 1 (0, autoencoder_new (te_init demo_torch) 2 1) =
     Some ((opt', autoencoder_new (te_init demo_torch) 2 1), \<lparr>ep_epoch = 1, ep_train_loss = l, ep_val_loss = 4\<rparr>)"
proof -
  have "init_ok (te_init demo_torch)" by (simp add: init_ok_def demo_torch_def)
  then have w: "width_kept 2 (autoencoder_new (te_init demo_torch) 2 1)"
    using forward_shape by (auto simp: width_kept_def)
  have v: "mse_loss demo_torch (autoencoder_new (te_init demo_torch) 2 1) [[2, 2]] = Some 4" by code_simp
  have p: "mset (te_randperm demo_torch 1) = mset [0..<length [[0, 1], [1, 0], [1, 1 :: rat]]]"
    by (simp add: demo_torch_def upt_rec)
  have s: "\<forall>opt batch. snd (te_step demo_torch opt (autoencoder_new (te_init demo_torch) 2 1) batch) =
      autoencoder_new (te_init demo_torch) 2 1"
    by (simp add: demo_torch_def)
  show ?thesis using epoch_loss_of_set[OF s w _ _ _ _ p, of "[[2, 2]]" 0] v by auto
qed

text \<open>What a permutation of the rows and a step of the optimizer promise.\<close>

definition torch_ok :: "nat \<Rightarrow> nat \<Rightarrow> 'o torch_env \<Rightarrow> bool" where
  "torch_ok w n T \<longleftrightarrow> (\<forall>epoch. mset (te_randperm T epoch) = mset [0..<n]) \<and>
     (\<forall>opt m batch. width_kept w m \<longrightarrow> width_kept w (snd (te_step T opt m batch)))"

lemma mse_loss_nonneg:
  assumes "mse_loss T m batch = Some l" and "batch \<noteq> []"
  shows "0 \<le> l"
  using assms by (auto simp: mse_loss_def mse_nonneg)

lemma train_batches_returns:
  assumes "\<forall>opt m batch. width_kept w m \<longrightarrow> width_kept w (snd (te_step T opt m batch))"
    and "\<forall>batch \<in> set bs. batch \<noteq> [] \<and> (\<forall>x \<in> set batch. length x = w)" and "width_kept w (snd s)" and "0 \<le> a"
  shows "\<exists>s' a'. train_batches T bs s a = Some (s', a') \<and> width_kept w (snd s') \<and> 0 \<le> a'"
  using assms(2-4)
proof (induction bs arbitrary: s a)
  case Nil
  then show ?case by (cases s) auto
next
  case (Cons b bs)
  obtain opt m where s: "s = (opt, m)" by fastforce
  obtain l where l: "mse_loss T m b = Some l" using mse_loss_rows[of w m b T] Cons.prems by (auto simp: s)
  have "0 \<le> a + l * of_nat (length b)" using mse_loss_nonneg[OF l] Cons.prems by simp
  moreover have "width_kept w (snd (te_step T opt m b))" using assms(1) Cons.prems(2) by (simp add: s)
  ultimately show ?case using Cons.IH[of "te_step T opt m b"] Cons.prems(1) by (simp add: s l)
qed

lemma train_epoch_returns:
  assumes "torch_ok w (length x_train) T" and "width_kept w (snd s)" and "\<forall>x \<in> set (x_train @ x_val). length x = w"
    and "x_train \<noteq> []" and "x_val \<noteq> []"
  shows "\<exists>s' en. train_epoch T x_train x_val epoch s = Some (s', en) \<and> width_kept w (snd s') \<and>
    ep_epoch en = epoch \<and> 0 \<le> ep_train_loss en \<and> 0 \<le> ep_val_loss en"
proof -
  have p: "mset (te_randperm T epoch) = mset [0..<length x_train]" using assms(1) by (simp add: torch_ok_def)
  have "\<forall>x \<in> set x_train. length x = w" using assms(3) by simp
  from train_batches_returns[OF _ epoch_batches_ok[OF p this] assms(2), of T 0] assms(1)
  obtain s' a where s': "train_batches T (epoch_batches (te_randperm T epoch) x_train) s 0 = Some (s', a)"
      "width_kept w (snd s')" "0 \<le> a" by (auto simp: torch_ok_def)
  obtain v where v: "mse_loss T (snd s') x_val = Some v" using mse_loss_rows[OF s'(2) _ assms(5), of T] assms(3) by auto
  show ?thesis using s' v assms(4) mse_loss_nonneg[OF v assms(5)] by (simp add: train_epoch_def split_beta)
qed

text \<open>Training returns. Given rows of the width of the network for both parts, it does every epoch and
  reports them in order with losses that are not negative; the network keeps its width.\<close>

theorem training_returns:
  assumes "torch_ok N_FEATURES (length x_train) T" and "init_ok (te_init T)"
    and "\<forall>x \<in> set (x_train @ x_val). row_ok x" and "x_train \<noteq> []" and "x_val \<noteq> []"
  shows "\<exists>m h. train_edge T (autoencoder_new (te_init T) N_FEATURES 4) x_train x_val epochs = Some (m, h) \<and>
    map ep_epoch h = [1..<Suc epochs] \<and> (\<forall>en \<in> set h. 0 \<le> ep_train_loss en \<and> 0 \<le> ep_val_loss en) \<and> width_kept N_FEATURES m"
proof -
  have w: "\<forall>x \<in> set (x_train @ x_val). length x = N_FEATURES" using assms(3) by (auto simp: row_ok_def)
  have "\<exists>m h. train_epochs T x_train x_val es s = Some (m, h) \<and> map ep_epoch h = es \<and>
      (\<forall>en \<in> set h. 0 \<le> ep_train_loss en \<and> 0 \<le> ep_val_loss en) \<and> width_kept N_FEATURES m"
    if "width_kept N_FEATURES (snd s)" for es s
    using that
  proof (induction es arbitrary: s)
    case (Cons e es)
    obtain s' en where en: "train_epoch T x_train x_val e s = Some (s', en)" "width_kept N_FEATURES (snd s')"
      "ep_epoch en = e" "0 \<le> ep_train_loss en" "0 \<le> ep_val_loss en"
      using train_epoch_returns[OF assms(1) Cons.prems w assms(4,5), of e] by blast
    obtain m h where "train_epochs T x_train x_val es s' = Some (m, h)" "map ep_epoch h = es"
      "\<forall>en \<in> set h. 0 \<le> ep_train_loss en \<and> 0 \<le> ep_val_loss en" "width_kept N_FEATURES m" using Cons.IH[OF en(2)] by blast
    then show ?case by (intro exI[of _ m] exI[of _ "en # h"]) (simp add: en)
  qed simp
  moreover have "width_kept N_FEATURES (autoencoder_new (te_init T) N_FEATURES 4)"
    using forward_shape[OF assms(2)] by (auto simp: width_kept_def N_FEATURES_def)
  ultimately show ?thesis by (simp add: train_edge_def)
qed

theorem training_returns_witness:
  "\<exists>m h. train_edge demo_torch (autoencoder_new (te_init demo_torch) N_FEATURES 4) (replicate 3 (replicate 7 0)) [replicate 7 1] 5 =
     Some (m, h) \<and> map ep_epoch h = [1, 2, 3, 4, 5]"
proof -
  have t: "torch_ok N_FEATURES (length (replicate 3 (replicate 7 (0 :: rat)))) demo_torch"
    by (auto simp: torch_ok_def demo_torch_def upt_rec)
  have i: "init_ok (te_init demo_torch)" by (simp add: init_ok_def demo_torch_def)
  have r: "\<forall>x \<in> set (replicate 3 (replicate 7 0) @ [replicate 7 1]). row_ok x"
    by (auto simp: row_ok_def N_FEATURES_def DEVICE_TYPES_def SENSOR_FIELDS_def FEATURE_CLIP_def)
  from training_returns[OF t i r, of 5] show ?thesis by (fastforce simp: upt_rec eval_nat_numeral)
qed

subsection \<open>The statistics\<close>

lemma type_stats_apply: "type_stats T readings (ty, f0, f1) =
    Option.bind (field_stats T readings ty f0) (\<lambda>s0. Option.bind (field_stats T readings ty f1) (\<lambda>s1. Some (ty, JObj [(f0, s0), (f1, s1)])))"
  by (simp add: type_stats_def)

lemma type_stats_get:
  assumes "those (map (type_stats T readings) ffs) = Some stats" and "(ty, f0, f1) \<in> set ffs" and "distinct (map fst ffs)"
  shows "\<exists>s0 s1. dget stats ty = Some (JObj [(f0, s0), (f1, s1)]) \<and> field_stats T readings ty f0 = Some s0 \<and>
    field_stats T readings ty f1 = Some s1"
  using assms
proof (induction ffs arbitrary: stats)
  case (Cons ff ffs)
  obtain ty' g0 g1 where ff: "ff = (ty', g0, g1)" by (cases ff)
  obtain s0 s1 rest where s: "field_stats T readings ty' g0 = Some s0" "field_stats T readings ty' g1 = Some s1"
    and rest: "those (map (type_stats T readings) ffs) = Some rest" and stats: "stats = (ty', JObj [(g0, s0), (g1, s1)]) # rest"
    using Cons.prems(1) by (auto simp: ff type_stats_apply bind_eq_Some_conv split: option.splits)
  show ?case
  proof (cases "ty = ty'")
    case True
    then have "(ty, f0, f1) \<notin> set ffs" using Cons.prems(3) by (force simp: ff)
    then show ?thesis using Cons.prems(2) True s by (auto simp: ff stats)
  next
    case False
    then show ?thesis using Cons.IH[OF rest] Cons.prems(2,3) by (simp add: ff stats)
  qed
qed simp

lemma field_stats_scale:
  assumes "compute_feature_stats T readings = Some stats" and "(ty, f0, f1) \<in> set SENSOR_FIELDS"
    and "field_values readings ty (if index = 0 then f0 else f1) = Some values"
  shows "fx_scale (fx_new w (Some (JObj stats))) ty index =
    Some (np_mean T values, max (if values = [] then te_nan T else te_std T values) (1 / 1000000))"
proof -
  have d: "distinct (map fst SENSOR_FIELDS)" by (simp add: SENSOR_FIELDS_def)
  obtain s0 s1 where s: "dget stats ty = Some (JObj [(f0, s0), (f1, s1)])" "field_stats T readings ty f0 = Some s0"
      "field_stats T readings ty f1 = Some s1"
    using type_stats_get[OF assms(1)[unfolded compute_feature_stats_def] assms(2) d] by blast
  have f: "dget SENSOR_FIELDS ty = Some (f0, f1)" "f0 \<noteq> f1" using assms(2) by (auto simp: SENSOR_FIELDS_def)
  have "stats \<noteq> []" using s(1) by auto
  then have "fx_stats (fx_new w (Some (JObj stats))) = JObj stats" by (simp add: fx_new_def falsy_def)
  then show ?thesis
    using s f assms(3)
    by (cases "index = 0") (auto simp: fx_scale_def json_dict_def falsy_def scale_pair_def json_num_def field_stats_def)
qed

text \<open>The statistics standardise the normal readings. For each sensor field of each known type with normal
  readings, the scale the extractor uses gives the normal values of that field mean zero, and, where the deviation of
  numpy is the root of their variance and not negligible, variance one.\<close>

theorem normal_readings_standardised:
  assumes "compute_feature_stats T readings = Some stats" and "(ty, f0, f1) \<in> set SENSOR_FIELDS"
    and "field_values readings ty (if index = 0 then f0 else f1) = Some values" and "values \<noteq> []"
  shows "\<exists>mean std. fx_scale (fx_new w (Some (JObj stats))) ty index = Some (mean, std) \<and> 0 < std \<and>
    sum_list (map (\<lambda>v. (v - mean) / std) values) = 0 \<and>
    (1 / 1000000 \<le> te_std T values \<and> te_std T values ^ 2 * of_nat (length values) = sum_list (map (\<lambda>v. (v - mean) ^ 2) values) \<longrightarrow>
      sum_list (map (\<lambda>v. ((v - mean) / std) ^ 2) values) = of_nat (length values))"
proof -
  let ?mean = "sum_list values / of_nat (length values)" and ?std = "max (te_std T values) (1 / 1000000)"
  have sc: "fx_scale (fx_new w (Some (JObj stats))) ty index = Some (?mean, ?std)"
    using field_stats_scale[OF assms(1-3)] assms(4) by (simp add: np_mean_def)
  have pos: "0 < ?std" by (simp add: less_max_iff_disj)
  have div: "sum_list (map (\<lambda>v. f v / c) xs) = sum_list (map f xs) / c" for f and c :: rat and xs :: "rat list"
    by (induction xs) (simp_all add: add_divide_distrib)
  have "sum_list (map (\<lambda>v. v - c) xs) = sum_list xs - c * of_nat (length xs)" for c :: rat and xs
    by (induction xs) (simp_all add: algebra_simps)
  then have "sum_list (map (\<lambda>v. (v - ?mean) / ?std) values) = 0" using assms(4) by (simp only: div) simp
  moreover have "sum_list (map (\<lambda>v. ((v - ?mean) / ?std) ^ 2) values) = of_nat (length values)"
    if "1 / 1000000 \<le> te_std T values"
      "te_std T values ^ 2 * of_nat (length values) = sum_list (map (\<lambda>v. (v - ?mean) ^ 2) values)"
  proof -
    have "?std = te_std T values" using that(1) by simp
    moreover have "te_std T values \<noteq> 0" using that(1) by auto
    ultimately show ?thesis by (simp only: power_divide div that(2)[symmetric]) simp
  qed
  ultimately show ?thesis using sc pos by blast
qed

theorem normal_readings_standardised_witness:
  "\<exists>mean std. fx_scale (fx_new 10 (Some (JObj (the (compute_feature_stats demo_torch edge_readings))))) ''temperature_sensor'' 0 =
     Some (mean, std) \<and> sum_list (map (\<lambda>v. (v - mean) / std) [20, 20, 20, 20]) = 0"
proof -
  have s: "compute_feature_stats demo_torch edge_readings = Some (the (compute_feature_stats demo_torch edge_readings))"
    by code_simp
  have f: "(''temperature_sensor'', ''temperature_celsius'', ''humidity_percent'') \<in> set SENSOR_FIELDS" by (simp add: SENSOR_FIELDS_def)
  have v: "field_values edge_readings ''temperature_sensor'' (if 0 = (0 :: nat) then ''temperature_celsius'' else ''humidity_percent'') =
      Some [20, 20, 20, 20]" by code_simp
  from normal_readings_standardised[OF s f v list.distinct(2), of 10] show ?thesis by blast
qed

end
