(* ===== verification/ModelScripts.thy ===== *)
theory ModelScripts imports DataLoading Networks ModelRegistry Inference begin

section \<open>Training and evaluation scripts\<close>

text \<open>
  \<open>training_scripts/train_anomaly.py\<close> and \<open>training_scripts/evaluate.py\<close>: the data of the loader or synthetic ones,
  the loop with its losses, the export and the registration; and the evaluation of a file with its
  labels, threshold and metrics. Torch, numpy and the file system are the record \<open>script_env\<close>, an argument;
  \<open>sn_f32\<close> is the rounding to single precision; \<open>sn_nan\<close> and \<open>sn_inf\<close> stand for the values nan and inf.
\<close>

datatype network = Auto autoencoder | Lstm lstm_predictor

text \<open>What \<open>torch.load\<close> finds: the parameters of the linear layers of an autoencoder, or those of a predictor.\<close>

datatype checkpoint = AutoState "(vec list \<times> vec) list" | LstmState nat nat "vec list \<Rightarrow> vec list" "vec list \<times> vec"

record 'o script_env =
  sn_init :: initialiser
  sn_recurrent :: "nat \<Rightarrow> nat \<Rightarrow> vec list \<Rightarrow> vec list"
  sn_optimizer :: 'o
  sn_step :: "'o \<Rightarrow> network \<Rightarrow> vec list \<Rightarrow> 'o \<times> network"
  sn_randperm :: "nat \<Rightarrow> nat list"
  sn_randn :: "nat \<Rightarrow> nat \<Rightarrow> nat \<Rightarrow> vec list"
  sn_permutation :: "nat \<Rightarrow> nat list"
  sn_argsort :: "rat list \<Rightarrow> nat list"
  sn_std :: "rat list \<Rightarrow> rat"
  sn_nan :: rat
  sn_inf :: rat
  sn_f32 :: "real \<Rightarrow> rat"
  sn_load :: "string \<Rightarrow> checkpoint option"

subsection \<open>Models\<close>

definition lstm_new :: "'o script_env \<Rightarrow> nat \<Rightarrow> nat \<Rightarrow> nat \<Rightarrow> lstm_predictor" where
  "lstm_new S input_dim hidden_dim output_dim = \<lparr>lp_input_dim = input_dim, lp_output_dim = output_dim,
     lp_lstm = sn_recurrent S input_dim hidden_dim, lp_fc = linear (sn_init S) 0 hidden_dim output_dim\<rparr>"

definition make_network :: "'o script_env \<Rightarrow> string \<Rightarrow> nat \<Rightarrow> network option" where
  "make_network S model_type input_dim =
     (if model_type = ''autoencoder'' then Some (Auto (autoencoder_new (sn_init S) input_dim (max (input_dim div 2) 2)))
      else if model_type = ''lstm'' then Some (Lstm (lstm_new S input_dim 32 input_dim))
      else None)"

text \<open>\<open>model(x)\<close> on one row; a predictor gets the row as a sequence of length one.\<close>

definition network_forward :: "network \<Rightarrow> vec \<Rightarrow> vec option" where
  "network_forward m x = (case m of Auto a \<Rightarrow> ae_forward a x | Lstm p \<Rightarrow> lstm_forward p [x])"

text \<open>\<open>load_state_dict\<close>: it raises unless every tensor is there with its shape.\<close>

definition same_shape :: "vec list \<times> vec \<Rightarrow> layer \<Rightarrow> bool" where
  "same_shape p l = (case l of Linear n w b \<Rightarrow>
     length (fst p) = length w \<and> (\<forall>r \<in> set (fst p). length r = n) \<and> length (snd p) = length b | ReLU \<Rightarrow> False)"

fun load_layers :: "(vec list \<times> vec) list \<Rightarrow> layer list \<Rightarrow> (layer list \<times> (vec list \<times> vec) list) option" where
  "load_layers ps [] = Some ([], ps)"
| "load_layers ps (ReLU # ls) = map_option (\<lambda>(ls, ps). (ReLU # ls, ps)) (load_layers ps ls)"
| "load_layers [] (Linear n w b # ls) = None"
| "load_layers (p # ps) (Linear n w b # ls) =
     (if same_shape p (Linear n w b) then map_option (\<lambda>(ls, ps). (Linear n (fst p) (snd p) # ls, ps)) (load_layers ps ls)
      else None)"

definition load_state_dict :: "network \<Rightarrow> checkpoint \<Rightarrow> network option" where
  "load_state_dict m c = (case (m, c) of
     (Auto a, AutoState ps) \<Rightarrow> Option.bind (load_layers ps (ae_encoder a)) (\<lambda>(enc, ps).
       Option.bind (load_layers ps (ae_decoder a)) (\<lambda>(dec, ps).
         if ps = [] then Some (Auto (a\<lparr>ae_encoder := enc, ae_decoder := dec\<rparr>)) else None))
   | (Lstm p, LstmState n h f fc) \<Rightarrow>
       if n = lp_input_dim p \<and> h = in_features (lp_fc p) \<and> same_shape fc (lp_fc p)
       then Some (Lstm (p\<lparr>lp_lstm := f, lp_fc := Linear h (fst fc) (snd fc)\<rparr>)) else None
   | _ \<Rightarrow> None)"

definition load_pytorch_model :: "'o script_env \<Rightarrow> string \<Rightarrow> nat \<Rightarrow> string \<Rightarrow> network option" where
  "load_pytorch_model S model_type input_dim model_path =
     Option.bind (make_network S model_type input_dim) (\<lambda>model.
     Option.bind (sn_load S model_path) (load_state_dict model))"

subsection \<open>Training\<close>

type_synonym source = "load_error + (real list list \<times> real list list)"

definition to_f32 :: "'o script_env \<Rightarrow> real list list \<Rightarrow> vec list" where
  "to_f32 S rows = map (map (sn_f32 S)) rows"

text \<open>\<open>load_data\<close>; the argument is what the loader returned.\<close>

definition load_data :: "'o script_env \<Rightarrow> source \<Rightarrow> vec list \<times> vec list" where
  "load_data S loaded = (case loaded of Inr (x_train, x_val) \<Rightarrow> (to_f32 S x_train, to_f32 S x_val)
     | Inl _ \<Rightarrow> (sn_randn S 0 2000 8, sn_randn S 1 400 8))"

text \<open>\<open>nn.MSELoss\<close> of a batch and its output.\<close>

definition batch_loss :: "'o script_env \<Rightarrow> network \<Rightarrow> vec list \<Rightarrow> rat option" where
  "batch_loss S model batch = map_option (\<lambda>out. if batch = [] then sn_nan S else mse (concat out) (concat batch))
     (those (map (network_forward model) batch))"

fun run_batches :: "'o script_env \<Rightarrow> vec list list \<Rightarrow> 'o \<times> network \<Rightarrow> rat \<times> nat \<Rightarrow> (('o \<times> network) \<times> rat \<times> nat) option" where
  "run_batches S [] s (epoch_loss, n_batches) = Some (s, epoch_loss, n_batches)"
| "run_batches S (batch # bs) s (epoch_loss, n_batches) =
     Option.bind (batch_loss S (snd s) batch) (\<lambda>loss.
       run_batches S bs (sn_step S (fst s) (snd s) batch) (epoch_loss + loss, n_batches + 1))"

definition cut_batches :: "nat \<Rightarrow> nat list \<Rightarrow> vec list \<Rightarrow> vec list list" where
  "cut_batches batch_size indices rows =
     map (\<lambda>k. map (\<lambda>i. rows ! i) (slice (batch_size * k) batch_size indices)) [0..<(length rows + batch_size - 1) div batch_size]"

text \<open>One epoch: the mean over the batches and the loss on the validation rows.\<close>

definition epoch_losses :: "'o script_env \<Rightarrow> nat \<Rightarrow> vec list \<Rightarrow> vec list \<Rightarrow> nat \<Rightarrow> 'o \<times> network \<Rightarrow> (('o \<times> network) \<times> rat \<times> rat) option" where
  "epoch_losses S batch_size x_train x_val epoch s =
     Option.bind (run_batches S (cut_batches batch_size (sn_randperm S epoch) x_train) s (0, 0)) (\<lambda>(s, epoch_loss, n_batches).
     Option.bind (batch_loss S (snd s) x_val) (\<lambda>val_loss.
       Some (s, epoch_loss / of_nat (max n_batches 1), val_loss)))"

fun run_epochs :: "'o script_env \<Rightarrow> nat \<Rightarrow> vec list \<Rightarrow> vec list \<Rightarrow> nat list \<Rightarrow> 'o \<times> network \<Rightarrow> (network \<times> (rat \<times> rat) list) option" where
  "run_epochs S batch_size x_train x_val [] s = Some (snd s, [])"
| "run_epochs S batch_size x_train x_val (epoch # es) s =
     Option.bind (epoch_losses S batch_size x_train x_val epoch s) (\<lambda>(s, losses).
       map_option (\<lambda>(model, history). (model, losses # history)) (run_epochs S batch_size x_train x_val es s))"

text \<open>
  \<open>train\<close>: a batch size of zero is no step for \<open>range\<close> and raises in the first epoch, a negative one gives no
  batch; without an epoch there is no last loss. A loss that is nan is never the best one.
\<close>

definition train_anomaly :: "'o script_env \<Rightarrow> network \<Rightarrow> vec list \<Rightarrow> vec list \<Rightarrow> int \<Rightarrow> nat \<Rightarrow>
    (network \<times> rat \<times> rat \<times> rat option \<times> nat) option" where
  "train_anomaly S model x_train x_val batch_size epochs =
     (if batch_size = 0 then None
      else Option.bind (run_epochs S (nat batch_size) (if batch_size < 0 then [] else x_train) x_val [0..<epochs] (sn_optimizer S, model))
        (\<lambda>(model, history). map_option (\<lambda>(final_train_loss, final_val_loss, best, total_epochs).
            (model, final_train_loss, final_val_loss, if x_val = [] then None else best, total_epochs)) (training_metrics history)))"

record train_args =
  ta_model :: string
  ta_epochs :: nat
  ta_batch_size :: int
  ta_output_dir :: string
  ta_register :: bool
  ta_version :: string

definition metrics_json :: "'o script_env \<Rightarrow> rat \<Rightarrow> rat \<times> rat \<times> rat option \<times> nat \<Rightarrow> json_object" where
  "metrics_json S elapsed m = (case m of (final_train_loss, final_val_loss, best, total_epochs) \<Rightarrow>
     [(''final_train_loss'', JFloat final_train_loss), (''final_val_loss'', JFloat final_val_loss),
      (''best_val_loss'', JFloat (case best of None \<Rightarrow> sn_inf S | Some b \<Rightarrow> b)), (''total_epochs'', JInt (int total_epochs)),
      (''training_time_seconds'', JFloat (py_round elapsed 2))])"

text \<open>\<open>main\<close>: the exported file, and the answer of the registry when it is asked; None where the script raises.\<close>

definition train_main :: "'o script_env \<Rightarrow> (json_object \<Rightarrow> ('w, http_error option, json) action) \<Rightarrow> rat \<Rightarrow> train_args \<Rightarrow> source \<Rightarrow>
    'w \<Rightarrow> 'w \<times> ((string \<times> network) \<times> json option) option" where
  "train_main S post elapsed args loaded w =
     (let (x_train, x_val) = load_data S loaded; input_dim = length (hd x_train) in
      case Option.bind (make_network S (ta_model args) input_dim) (\<lambda>model.
          train_anomaly S model x_train x_val (ta_batch_size args) (ta_epochs args)) of
        None \<Rightarrow> (w, None)
      | Some (model, metrics) \<Rightarrow>
          let model_name = ''anomaly-'' @ ta_model args;
              output_path = path_join (ta_output_dir args) (model_name @ ''-v'' @ ta_version args @ ''.onnx'')
          in if ta_register args
             then (case exporter_register post model_name (ta_version args) ''onnx'' output_path (metrics_json S elapsed metrics)
                     (''Anomaly detection '' @ ta_model args @ '' trained on IoT sensor data'') w of
                   (w, result) \<Rightarrow> (w, Some ((output_path, model), result)))
             else (w, Some ((output_path, model), None)))"

subsection \<open>Evaluation\<close>

text \<open>\<open>int(x)\<close> of a float, and the slice \<open>xs[i:]\<close>.\<close>

definition trunc :: "rat \<Rightarrow> int" where "trunc x = (if 0 \<le> x then \<lfloor>x\<rfloor> else \<lceil>x\<rceil>)"

definition slice_from :: "int \<Rightarrow> 'a list \<Rightarrow> 'a list" where
  "slice_from i xs = (if 0 \<le> i then drop (nat i) xs else drop (length xs - nat (- i)) xs)"

definition row_mean :: "vec \<Rightarrow> rat" where "row_mean xs = sum_list xs / of_nat (length xs)"

definition row_var :: "vec \<Rightarrow> rat" where
  "row_var xs = row_mean (map (\<lambda>v. (v - row_mean xs) ^ 2) xs)"

definition variance_labels :: "'o script_env \<Rightarrow> vec list \<Rightarrow> rat \<Rightarrow> int list" where
  "variance_labels S rows anomaly_ratio =
     (let n = length rows; anomaly_indices = slice_from (trunc (of_nat n * (1 - anomaly_ratio))) (sn_argsort S (map row_var rows))
      in map (\<lambda>i. if i \<in> set anomaly_indices then 1 else 0) [0..<n])"

definition synthetic_data :: "'o script_env \<Rightarrow> nat \<Rightarrow> rat \<Rightarrow> (vec list \<times> int list) option" where
  "synthetic_data S n_samples anomaly_ratio =
     (let n_normal = trunc (of_nat n_samples * (1 - anomaly_ratio)); n_anomaly = int n_samples - n_normal in
      if n_normal < 0 \<or> n_anomaly < 0 then None
      else let x = sn_randn S 0 (nat n_normal) 8 @ map (map (\<lambda>v. v * 3 + 5)) (sn_randn S 1 (nat n_anomaly) 8);
               y = replicate (nat n_normal) 0 @ replicate (nat n_anomaly) 1; perm = sn_permutation S (length x)
           in Some (map (\<lambda>i. x ! i) perm, map (\<lambda>i. y ! i) perm))"

definition load_test_data :: "'o script_env \<Rightarrow> source \<Rightarrow> nat \<Rightarrow> rat \<Rightarrow> (vec list \<times> int list) option" where
  "load_test_data S loaded n_samples anomaly_ratio = (case loaded of
     Inr (_, x_test) \<Rightarrow> let rows = to_f32 S x_test in Some (rows, variance_labels S rows anomaly_ratio)
   | Inl _ \<Rightarrow> synthetic_data S n_samples anomaly_ratio)"

definition compute_reconstruction_error :: "network \<Rightarrow> vec list \<Rightarrow> rat list option" where
  "compute_reconstruction_error model rows = those (map (\<lambda>x. map_option (mse x) (network_forward model x)) rows)"

record eval_args =
  va_model_path :: string
  va_model_type :: string
  va_input_dim :: nat
  va_threshold :: "rat option"
  va_anomaly_ratio :: rat
  va_n_samples :: nat

definition ends_with :: "string \<Rightarrow> string \<Rightarrow> bool" where
  "ends_with suff s \<longleftrightarrow> length suff \<le> length s \<and> drop (length s - length suff) s = suff"

text \<open>For an ONNX file the script creates a new network; the path is all it looks at.\<close>

definition eval_model :: "'o script_env \<Rightarrow> eval_args \<Rightarrow> network option" where
  "eval_model S args =
     (if ends_with ''.onnx'' (va_model_path args)
      then if va_model_type args = ''autoencoder''
           then Some (Auto (autoencoder_new (sn_init S) (va_input_dim args) (max (va_input_dim args div 2) 2)))
           else Some (Lstm (lstm_new S (va_input_dim args) 32 (va_input_dim args)))
      else load_pytorch_model S (va_model_type args) (va_input_dim args) (va_model_path args))"

definition error_threshold :: "'o script_env \<Rightarrow> eval_args \<Rightarrow> rat list \<Rightarrow> rat" where
  "error_threshold S args errors = (case va_threshold args of Some t \<Rightarrow> t
     | None \<Rightarrow> sum_list errors / of_nat (length errors) + 2 * sn_std S errors)"

definition classify :: "rat \<Rightarrow> rat list \<Rightarrow> int list" where
  "classify threshold errors = map (\<lambda>e. if e > threshold then 1 else 0) errors"

text \<open>\<open>main\<close> up to the report: the threshold, the labels and the metrics. No error has a minimum.\<close>

definition evaluate_main :: "'o script_env \<Rightarrow> eval_args \<Rightarrow> source \<Rightarrow> (rat \<times> int list \<times> metrics) option" where
  "evaluate_main S args loaded =
     Option.bind (eval_model S args) (\<lambda>model.
     Option.bind (load_test_data S loaded (va_n_samples args) (va_anomaly_ratio args)) (\<lambda>(x_test, y_labels).
     Option.bind (compute_reconstruction_error model x_test) (\<lambda>errors.
       if errors = [] then None
       else let threshold = error_threshold S args errors; y_pred = classify threshold errors
            in Some (threshold, y_pred, compute_metrics y_labels y_pred))))"

end
