(* ===== verification/ScriptProps.thy ===== *)
theory ScriptProps imports ModelScripts "HOL-Library.Multiset" begin

section \<open>Properties of the training and evaluation scripts\<close>

text \<open>
  What an evaluation of an ONNX file measures, how many samples the default threshold can flag, the
  labels of both kinds of test data, and the metrics of a training run.
\<close>


subsection \<open>The default threshold\<close>

lemma count_bound:
  fixes f :: "'a \<Rightarrow> rat"
  assumes "\<forall>x \<in> set xs. 0 \<le> f x"
  shows "t * of_nat (length [x \<leftarrow> xs. t \<le> f x]) \<le> sum_list (map f xs)"
  using assms by (induction xs) (auto simp: algebra_simps add_mono add_increasing)

lemma shifted_square_sum:
  fixes m d :: rat
  shows "sum_list (map (\<lambda>x. (x - m + d) ^ 2) xs) =
    sum_list (map (\<lambda>x. (x - m) ^ 2) xs) + 2 * d * (sum_list xs - of_nat (length xs) * m) + of_nat (length xs) * d ^ 2"
  by (induction xs) (simp_all add: algebra_simps power2_eq_square)

text \<open>The default threshold bounds what can be flagged. With the mean plus two deviations of the errors as the threshold,
  at most a fifth of the samples are classified as anomalies, whatever the model and the data are.\<close>

theorem default_threshold_flags_few:
  assumes "va_threshold args = None" and "errors \<noteq> []" and "0 \<le> sn_std S errors"
    and "sn_std S errors ^ 2 * of_nat (length errors) = sum_list (map (\<lambda>e. (e - row_mean errors) ^ 2) errors)"
  shows "5 * length [l \<leftarrow> classify (error_threshold S args errors) errors. l = 1] \<le> length errors"
proof -
  define m s n where "m = row_mean errors" and "s = sn_std S errors" and "n = length errors"
  have n: "0 < (of_nat n :: rat)" and sum: "sum_list errors = of_nat n * m"
    using assms(2) by (simp_all add: n_def m_def row_mean_def)
  have t: "error_threshold S args errors = m + 2 * s" by (simp add: error_threshold_def assms(1) m_def s_def row_mean_def)
  have flagged: "length [l \<leftarrow> classify (m + 2 * s) errors. l = 1] = length [e \<leftarrow> errors. m + 2 * s < e]"
    by (induction errors) (simp_all add: classify_def)
  show ?thesis
  proof (cases "s = 0")
    case True
    then have "sum_list (map (\<lambda>e. (e - m) ^ 2) errors) = 0" using assms(4) by (simp add: m_def s_def)
    then have "\<forall>x \<in> set (map (\<lambda>e. (e - m) ^ 2) errors). x = 0"
      by (subst (asm) sum_list_nonneg_eq_0_iff) auto
    then have "[e \<leftarrow> errors. m + 2 * s < e] = []" using True by (auto simp: filter_empty_conv)
    then show ?thesis by (simp add: t flagged)
  next
    case False
    then have s: "0 < s" using assms(3) by (simp add: s_def)
    have "(25 / 4 * s ^ 2) * of_nat (length [e \<leftarrow> errors. 25 / 4 * s ^ 2 \<le> (e - m + s / 2) ^ 2])
        \<le> sum_list (map (\<lambda>e. (e - m + s / 2) ^ 2) errors)"
      by (rule count_bound) simp
    also have "\<dots> = s ^ 2 * of_nat n + of_nat n * (s / 2) ^ 2"
      unfolding shifted_square_sum sum using assms(4) by (simp add: m_def s_def n_def)
    also have "\<dots> = (25 / 4 * s ^ 2) * (of_nat n / 5)" by (simp add: power2_eq_square field_simps)
    finally have "(of_nat (length [e \<leftarrow> errors. 25 / 4 * s ^ 2 \<le> (e - m + s / 2) ^ 2]) :: rat) \<le> of_nat n / 5"
      by (rule mult_left_le_imp_le) (use s in simp)
    moreover have "length [e \<leftarrow> errors. m + 2 * s < e] \<le> length [e \<leftarrow> errors. 25 / 4 * s ^ 2 \<le> (e - m + s / 2) ^ 2]"
    proof -
      have "25 / 4 * s ^ 2 \<le> (e - m + s / 2) ^ 2" if "m + 2 * s < e" for e
      proof -
        have "(5 / 2 * s) ^ 2 \<le> (e - m + s / 2) ^ 2" using that s by (intro power_mono) simp_all
        then show ?thesis by (simp add: power2_eq_square)
      qed
      then have "filter (\<lambda>e. m + 2 * s < e) errors = filter (\<lambda>e. m + 2 * s < e) (filter (\<lambda>e. 25 / 4 * s ^ 2 \<le> (e - m + s / 2) ^ 2) errors)"
        by (induction errors) auto
      then show ?thesis by (metis length_filter_le)
    qed
    then have "(of_nat (length [e \<leftarrow> errors. m + 2 * s < e]) :: rat) \<le> of_nat (length [e \<leftarrow> errors. 25 / 4 * s ^ 2 \<le> (e - m + s / 2) ^ 2])"
      by (simp only: of_nat_le_iff)
    ultimately have "(of_nat (5 * length [e \<leftarrow> errors. m + 2 * s < e]) :: rat) \<le> of_nat n" by simp
    then have "5 * length [e \<leftarrow> errors. m + 2 * s < e] \<le> n" by (simp only: of_nat_le_iff)
    then show ?thesis by (simp add: t flagged n_def)
  qed
qed

text \<open>An environment with a network of zeros, a sorting \<open>argsort\<close> and a deviation of one half.\<close>

definition demo_scripts :: "nat script_env" where
  "demo_scripts = \<lparr>sn_init = (\<lambda>_ n m. (replicate m (replicate n 0), replicate m 0)), sn_recurrent = (\<lambda>_ h _. [replicate h 0]),
     sn_optimizer = 0, sn_step = (\<lambda>k m _. (k + 1, m)), sn_randperm = (\<lambda>_. [0, 1]), sn_randn = (\<lambda>_ n w. replicate n (replicate w 0)),
     sn_permutation = (\<lambda>n. [0..<n]), sn_argsort = (\<lambda>vs. sort_key (\<lambda>i. vs ! i) [0..<length vs]), sn_std = (\<lambda>_. 2),
     sn_nan = 0, sn_inf = 0, sn_f32 = (\<lambda>_. 0), sn_load = (\<lambda>_. None)\<rparr>"

definition demo_eval :: eval_args where
  "demo_eval = \<lparr>va_model_path = ''a.onnx'', va_model_type = ''autoencoder'', va_input_dim = 8, va_threshold = None,
     va_anomaly_ratio = 1 / 4, va_n_samples = 4\<rparr>"


theorem default_threshold_flags_few_witness:
  "5 * length [l \<leftarrow> classify (error_threshold demo_scripts demo_eval [0, 0, 0, 0, 5]) [0, 0, 0, 0, 5 :: rat]. l = 1] \<le> 5"
proof -
  have "va_threshold demo_eval = None" "[0, 0, 0, 0, 5 :: rat] \<noteq> []" "0 \<le> sn_std demo_scripts [0, 0, 0, 0, 5]"
    "sn_std demo_scripts [0, 0, 0, 0, 5] ^ 2 * of_nat (length [0, 0, 0, 0, 5 :: rat]) =
      sum_list (map (\<lambda>e. (e - row_mean [0, 0, 0, 0, 5]) ^ 2) [0, 0, 0, 0, 5])"
    by (simp_all add: demo_eval_def demo_scripts_def row_mean_def power2_eq_square)
  from default_threshold_flags_few[OF this] show ?thesis by simp
qed

subsection \<open>Labels\<close>

text \<open>What \<open>argsort\<close> and \<open>permutation\<close> promise.\<close>

definition numpy_ok :: "'o script_env \<Rightarrow> bool" where
  "numpy_ok S \<longleftrightarrow> (\<forall>vs. mset (sn_argsort S vs) = mset [0..<length vs] \<and> sorted (map (\<lambda>i. vs ! i) (sn_argsort S vs))) \<and>
     (\<forall>n. mset (sn_permutation S n) = mset [0..<n]) \<and> (\<forall>k n w. length (sn_randn S k n w) = n)"

lemma count_members:
  assumes "distinct is" and "set is \<subseteq> {..<n}"
  shows "length [l \<leftarrow> map (\<lambda>i. if i \<in> set is then 1 else (0 :: int)) [0..<n]. l = 1] = length is"
proof -
  have "length [l \<leftarrow> map (\<lambda>i. if i \<in> set is then 1 else (0 :: int)) [0..<n]. l = 1] = length [i \<leftarrow> [0..<n]. i \<in> set is]"
    by (induction n) simp_all
  also have "\<dots> = card (set is)"
    using assms(2) by (subst distinct_card[symmetric]) (auto intro!: arg_cong[where f = card])
  finally show ?thesis using assms(1) by (simp add: distinct_card)
qed

lemma sorted_dropped:
  assumes "sorted (map f xs)" and "i \<in> set (drop k xs)" and "j \<in> set xs" and "j \<notin> set (drop k xs)"
  shows "f j \<le> f i"
proof -
  have "j \<in> set (take k xs)" using assms(3,4) by (metis UnE append_take_drop_id set_append)
  moreover have "sorted (map f (take k xs) @ map f (drop k xs))" using assms(1) by (metis append_take_drop_id map_append)
  ultimately show ?thesis using assms(2) by (auto simp: sorted_append)
qed

text \<open>Rows of the loader are labelled by their variance. Exactly the rounded share of the rows is labelled an
  anomaly, and no row that is not labelled has a greater variance than one that is.\<close>

theorem variance_labels_top:
  assumes "numpy_ok S" and "0 \<le> anomaly_ratio" and "anomaly_ratio \<le> 1"
  shows "let labels = variance_labels S rows anomaly_ratio in length labels = length rows \<and>
    length [l \<leftarrow> labels. l = 1] = length rows - nat \<lfloor>of_nat (length rows) * (1 - anomaly_ratio)\<rfloor> \<and>
    (\<forall>i < length rows. \<forall>j < length rows. labels ! i = 1 \<longrightarrow> labels ! j = 0 \<longrightarrow> row_var (rows ! j) \<le> row_var (rows ! i))"
proof -
  define n vs ord k where "n = length rows" and "vs = map row_var rows" and "ord = sn_argsort S vs"
    and "k = nat \<lfloor>of_nat n * (1 - anomaly_ratio)\<rfloor>"
  have idx: "slice_from (trunc (of_nat n * (1 - anomaly_ratio))) xs = drop k xs" for xs :: "nat list"
    using assms(3) by (simp add: slice_from_def trunc_def k_def)
  have labels: "variance_labels S rows anomaly_ratio = map (\<lambda>i. if i \<in> set (drop k ord) then 1 else 0) [0..<n]"
    by (simp add: variance_labels_def Let_def n_def[symmetric] idx vs_def[symmetric] ord_def[symmetric])
  have "mset ord = mset [0..<length vs] \<and> sorted (map (\<lambda>i. vs ! i) ord)"
    using assms(1) unfolding numpy_ok_def ord_def by blast
  then have perm: "mset ord = mset [0..<n]" and sorted: "sorted (map (\<lambda>i. vs ! i) ord)" by (simp_all add: vs_def n_def)
  have dist: "distinct ord" unfolding mset_eq_imp_distinct_iff[OF perm] by (rule distinct_upt)
  have ord: "set ord = {..<n}" "length ord = n" 
    unfolding mset_eq_setD[OF perm] mset_eq_length[OF perm] by (simp_all add: atLeast0LessThan)
  have drop: "set (drop k ord) \<subseteq> {..<n}" "length (drop k ord) = n - k" using ord by (auto dest: in_set_dropD)
  have count: "length [l \<leftarrow> variance_labels S rows anomaly_ratio. l = 1] = n - k"
    unfolding labels count_members[OF distinct_drop[OF dist] drop(1)] by (rule drop(2))
  have "row_var (rows ! j) \<le> row_var (rows ! i)"
    if i: "i < n" and j: "j < n" and li: "variance_labels S rows anomaly_ratio ! i = 1" and lj: "variance_labels S rows anomaly_ratio ! j = 0" for i j
  proof -
    have "i \<in> set (drop k ord)" "j \<notin> set (drop k ord)" using i j li lj by (simp_all add: labels split: if_splits)
    then have "vs ! j \<le> vs ! i" using sorted_dropped[OF sorted, of i k j] j ord(1) by simp
    then show ?thesis using i j by (simp add: vs_def n_def)
  qed
  moreover have "length (variance_labels S rows anomaly_ratio) = n" by (simp add: labels)
  ultimately show ?thesis using count unfolding Let_def n_def k_def by blast
qed

theorem variance_labels_top_witness:
  "length [l \<leftarrow> variance_labels demo_scripts [[0, 0], [0, 2], [1, 1], [0, 4]] (1 / 4). l = 1] = 1"
proof -
  have "sorted (map (\<lambda>i. vs ! i) (sort_key (\<lambda>i. vs ! i) [0..<length vs]))" for vs :: "rat list" by simp
  then have "numpy_ok demo_scripts" by (simp add: numpy_ok_def demo_scripts_def)
  from variance_labels_top[OF this, of "1 / 4" "[[0, 0], [0, 2], [1, 1], [0, 4]]"] show ?thesis by (simp add: Let_def)
qed

text \<open>The shuffle of the synthetic data keeps every label with its row: as a multiset the labelled rows are
  the normal draws with 0 and the shifted ones with 1, in the numbers of the given ratio.\<close>

theorem synthetic_labels_follow:
  assumes "numpy_ok S" and "0 \<le> anomaly_ratio" and "anomaly_ratio \<le> 1"
  shows "let k = nat \<lfloor>of_nat n_samples * (1 - anomaly_ratio)\<rfloor> in k \<le> n_samples \<and>
    (\<exists>x y. synthetic_data S n_samples anomaly_ratio = Some (x, y) \<and> length x = length y \<and>
      mset (zip x y) = mset (map (\<lambda>v. (v, 0)) (sn_randn S 0 k 8) @ map (\<lambda>v. (map (\<lambda>e. e * 3 + 5) v, 1)) (sn_randn S 1 (n_samples - k) 8)))"
proof -
  define z where "z = of_nat n_samples * (1 - anomaly_ratio)"
  define k where "k = nat \<lfloor>z\<rfloor>"
  have z: "0 \<le> z" "z \<le> of_nat n_samples"
    using assms(2,3) mult_left_mono[of "1 - anomaly_ratio" 1 "of_nat n_samples"] by (simp_all add: z_def)
  then have t: "trunc z = int k" "k \<le> n_samples" by (simp_all add: trunc_def k_def nat_le_iff floor_le_iff)
  define x y where "x = sn_randn S 0 k 8 @ map (map (\<lambda>v. v * 3 + 5)) (sn_randn S 1 (n_samples - k) 8)"
    and "y = replicate k 0 @ replicate (n_samples - k) (1 :: int)"
  define perm where "perm = sn_permutation S (length x)"
  have len: "length (sn_randn S j n w) = n" for j n w using assms(1) by (simp add: numpy_ok_def)
  have lx: "length x = n_samples" "length y = n_samples" using t(2) by (simp_all add: x_def y_def len)
  have syn: "synthetic_data S n_samples anomaly_ratio = Some (map (\<lambda>i. x ! i) perm, map (\<lambda>i. y ! i) perm)"
    unfolding synthetic_data_def z_def[symmetric] t(1) Let_def using t(2) by (simp add: x_def y_def perm_def nat_diff_distrib')
  have perm: "mset perm = mset [0..<length x]" using assms(1) by (simp add: numpy_ok_def perm_def)
  have "zip (map (\<lambda>i. x ! i) perm) (map (\<lambda>i. y ! i) perm) = map (\<lambda>i. zip x y ! i) perm"
    using mset_eq_setD[OF perm] lx by (auto simp: zip_map1 zip_map2 zip_same_conv_map)
  then have "mset (zip (map (\<lambda>i. x ! i) perm) (map (\<lambda>i. y ! i) perm)) = mset (map (\<lambda>i. zip x y ! i) [0..<length (zip x y)])"
    using perm lx by (simp add: mset_map)
  also have "\<dots> = mset (zip x y)" by (simp only: map_nth)
  finally have same: "mset (zip (map (\<lambda>i. x ! i) perm) (map (\<lambda>i. y ! i) perm)) = mset (zip x y)" .
  have pairs: "zip x y = map (\<lambda>v. (v, 0)) (sn_randn S 0 k 8) @ map (\<lambda>v. (map (\<lambda>e. e * 3 + 5) v, 1)) (sn_randn S 1 (n_samples - k) 8)"
    by (simp add: x_def y_def zip_append len zip_replicate2)
  show ?thesis unfolding z_def[symmetric] Let_def k_def[symmetric] using t(2) syn same pairs by simp
qed

theorem synthetic_labels_follow_witness:
  "\<exists>x y. synthetic_data demo_scripts 4 (1 / 4) = Some (x, y) \<and> length x = length y"
proof -
  have "sorted (map (\<lambda>i. vs ! i) (sort_key (\<lambda>i. vs ! i) [0..<length vs]))" for vs :: "rat list" by simp
  then have "numpy_ok demo_scripts" by (simp add: numpy_ok_def demo_scripts_def)
  from synthetic_labels_follow[OF this, of "1 / 4" 4] show ?thesis by (auto simp: Let_def)
qed

subsection \<open>A training run\<close>

definition network_total :: "nat \<Rightarrow> network \<Rightarrow> bool" where
  "network_total w m \<longleftrightarrow> (\<forall>x. length x = w \<longrightarrow> network_forward m x \<noteq> None)"

lemma those_total:
  assumes "\<forall>x \<in> set xs. f x \<noteq> None"
  shows "those (map f xs) = Some (map (\<lambda>x. the (f x)) xs)"
  using assms by (auto simp: those_Some)

lemma batch_loss_total:
  assumes "network_total w m" and "\<forall>x \<in> set batch. length x = w"
  shows "\<exists>l. batch_loss S m batch = Some l \<and> (batch \<noteq> [] \<longrightarrow> 0 \<le> l)"
proof -
  have "\<forall>x \<in> set batch. network_forward m x \<noteq> None" using assms by (auto simp: network_total_def)
  from those_total[OF this] show ?thesis by (simp add: batch_loss_def mse_nonneg)
qed

lemma run_batches_total:
  assumes "\<forall>opt m batch. network_total w m \<longrightarrow> network_total w (snd (sn_step S opt m batch))"
    and "\<forall>batch \<in> set bs. \<forall>x \<in> set batch. length x = w" and "network_total w (snd s)"
  shows "\<exists>s' a'. run_batches S bs s a = Some (s', a') \<and> network_total w (snd s')"
  using assms(2,3)
proof (induction bs arbitrary: s a)
  case Nil
  then show ?case by (cases a) simp
next
  case (Cons b bs)
  have b: "\<forall>x \<in> set b. length x = w" and bs: "\<forall>batch \<in> set bs. \<forall>x \<in> set batch. length x = w" using Cons.prems(1) by simp_all
  obtain l where l: "batch_loss S (snd s) b = Some l" using batch_loss_total[OF Cons.prems(2) b] by blast
  have "network_total w (snd (sn_step S (fst s) (snd s) b))" using assms(1) Cons.prems(2) by blast
  note ih = Cons.IH[OF bs this]
  show ?case using ih[of "(fst a + l, snd a + 1)"] by (cases a) (simp add: l)
qed

lemma cut_batches_widths:
  assumes "mset indices = mset [0..<length rows]" and "\<forall>x \<in> set rows. length x = w"
  shows "\<forall>batch \<in> set (cut_batches k indices rows). \<forall>x \<in> set batch. length x = w"
proof (intro ballI)
  fix batch x assume "batch \<in> set (cut_batches k indices rows)" and x: "x \<in> set batch"
  then obtain j where "batch = map (\<lambda>i. rows ! i) (slice (k * j) k indices)" by (auto simp: cut_batches_def)
  then obtain i where i: "i \<in> set indices" "x = rows ! i" using x set_slice by fastforce
  then have "i < length rows" using mset_eq_setD[OF assms(1)] by simp
  then show "length x = w" using assms(2) i(2) by simp
qed

lemma run_epochs_total:
  assumes "\<forall>opt m batch. network_total w m \<longrightarrow> network_total w (snd (sn_step S opt m batch))"
    and "\<forall>epoch. mset (sn_randperm S epoch) = mset [0..<length x_train]" and "\<forall>x \<in> set x_train. length x = w"
    and "\<forall>x \<in> set x_val. length x = w" and "x_val \<noteq> []" and "network_total w (snd s)"
  shows "\<exists>m h. run_epochs S k x_train x_val es s = Some (m, h) \<and> network_total w m \<and> length h = length es \<and> (\<forall>(_, v) \<in> set h. 0 \<le> v)"
  using assms(6)
proof (induction es arbitrary: s)
  case (Cons e es)
  have perm: "mset (sn_randperm S e) = mset [0..<length x_train]" using assms(2) by blast
  obtain s' a n where b: "run_batches S (cut_batches k (sn_randperm S e) x_train) s (0, 0) = Some (s', a, n)" "network_total w (snd s')"
    using run_batches_total[OF assms(1) cut_batches_widths[OF perm assms(3)] Cons.prems, of k "(0, 0)"] by auto
  obtain v where v: "batch_loss S (snd s') x_val = Some v" "0 \<le> v" using batch_loss_total[OF b(2) assms(4)] assms(5) by blast
  have "epoch_losses S k x_train x_val e s = Some (s', a / of_nat (max n 1), v)" by (simp add: epoch_losses_def b(1) v(1))
  moreover obtain m h where "run_epochs S k x_train x_val es s' = Some (m, h)" "network_total w m" "length h = length es"
      "\<forall>(_, v) \<in> set h. 0 \<le> v" using Cons.IH[OF b(2)] by blast
  ultimately show ?case using v(2) by (intro exI[of _ m] exI[of _ "(a / of_nat (max n 1), v) # h"]) simp
qed simp

lemma best_val_loss_min:
  assumes "vs \<noteq> []"
  shows "\<exists>b. best_val_loss vs = Some b \<and> b \<in> set vs \<and> (\<forall>v \<in> set vs. b \<le> v)"
proof -
  have "\<exists>b. fold (\<lambda>v b. case b of None \<Rightarrow> Some v | Some x \<Rightarrow> if v < x then Some v else Some x) vs (Some a) = Some b \<and>
      b \<in> set (a # vs) \<and> (\<forall>v \<in> set (a # vs). b \<le> v)" for a and vs :: "rat list"
  proof (induction vs arbitrary: a)
    case (Cons v vs)
    show ?case
    proof (cases "v < a")
      case True
      then show ?thesis using Cons.IH[of v] by (auto intro: order_trans less_imp_le)
    next
      case False
      then show ?thesis using Cons.IH[of a] by (auto simp: not_less intro: order_trans)
    qed
  qed simp
  then show ?thesis using assms by (cases vs) (auto simp: best_val_loss_def)
qed

text \<open>A training run reports what it did. With a positive batch size, at least one epoch, rows of the width of the network and a
  step that keeps it total, \<open>train\<close> returns; it counts every epoch, and the best validation loss is not
  negative and not above the last one.\<close>

theorem training_run_reports:
  assumes "\<forall>opt m batch. network_total w m \<longrightarrow> network_total w (snd (sn_step S opt m batch))"
    and "\<forall>epoch. mset (sn_randperm S epoch) = mset [0..<length x_train]" and "network_total w model"
    and "\<forall>x \<in> set (x_train @ x_val). length x = w" and "x_val \<noteq> []" and "0 < batch_size" and "0 < epochs"
  shows "\<exists>m train_loss val_loss best. train_anomaly S model x_train x_val batch_size epochs =
      Some (m, train_loss, val_loss, Some best, epochs) \<and> network_total w m \<and> 0 \<le> best \<and> best \<le> val_loss"
proof -
  have x: "\<forall>x \<in> set x_train. length x = w" "\<forall>x \<in> set x_val. length x = w" using assms(4) by simp_all
  have "network_total w (snd (sn_optimizer S, model))" using assms(3) by simp
  from run_epochs_total[OF assms(1,2) x assms(5) this, of "nat batch_size" "[0..<epochs]"]
  obtain m h where h: "run_epochs S (nat batch_size) x_train x_val [0..<epochs] (sn_optimizer S, model) = Some (m, h)"
    "network_total w m" "length h = epochs" "\<forall>(_, v) \<in> set h. 0 \<le> v" by auto
  have ne: "h \<noteq> []" using h(3) assms(7) by auto
  then obtain b where b: "best_val_loss (map snd h) = Some b" "b \<in> set (map snd h)" "\<forall>v \<in> set (map snd h). b \<le> v"
    using best_val_loss_min[of "map snd h"] by auto
  have "b \<le> snd (last h)" using b(3) ne by simp
  moreover have "0 \<le> b" using b(2) h(4) by auto
  ultimately show ?thesis
    using h ne b(1) assms(5,6) by (simp add: train_anomaly_def training_metrics_def)
qed

theorem training_run_reports_witness:
  "\<exists>m train_loss val_loss best. train_anomaly demo_scripts (the (make_network demo_scripts ''autoencoder'' 3)) [[1, 2, 3], [4, 5, 6]] [[7, 8, 9]] 1 3 =
     Some (m, train_loss, val_loss, Some best, 3) \<and> best \<le> val_loss"
proof -
  have init: "init_ok (sn_init demo_scripts)" by (simp add: init_ok_def demo_scripts_def)
  have m: "network_total 3 (the (make_network demo_scripts ''autoencoder'' 3))"
    unfolding network_total_def
  proof (intro allI impI)
    fix x :: vec assume "length x = 3"
    from forward_shape[OF init this, of "max (3 div 2) 2"]
    show "network_forward (the (make_network demo_scripts ''autoencoder'' 3)) x \<noteq> None"
      by (auto simp: make_network_def network_forward_def)
  qed
  have step: "\<forall>opt m batch. network_total 3 m \<longrightarrow> network_total 3 (snd (sn_step demo_scripts opt m batch))"
    and perm: "\<forall>epoch. mset (sn_randperm demo_scripts epoch) = mset [0..<length [[1, 2, 3], [4, 5, 6 :: rat]]]"
    by (simp_all add: demo_scripts_def upt_rec)
  from training_run_reports[OF step perm m, of "[[7, 8, 9]]" 1 3] show ?thesis by auto
qed

end
