(* ===== verification/Dashboard.thy ===== *)
theory Dashboard imports Ingestion begin

section \<open>Dashboard\<close>

text \<open>
  \<open>dashboard/app.py\<close>: the commands it runs for the stack, the simulator and the tests, the status it
  collects, and the live feed over the two streams. Running a command, asking a health URL and the read
  commands of Redis are arguments; the rendering of the page is not modelled.
\<close>

subsection \<open>Commands\<close>

datatype run_outcome = Finished int string string | TimedOut | NotFound string

text \<open>The environment variables set for a command, the command, and its timeout.\<close>

type_synonym 'w runner = "(string \<times> string) list \<Rightarrow> string list \<Rightarrow> nat \<Rightarrow> 'w \<Rightarrow> 'w \<times> run_outcome"

record cmd_result =
  cr_ok :: bool
  cr_stdout :: string
  cr_stderr :: string

definition run_cmd :: "'w runner \<Rightarrow> string list \<Rightarrow> nat \<Rightarrow> 'w \<Rightarrow> 'w \<times> cmd_result" where
  "run_cmd exec cmd timeout w = (case exec [] cmd timeout w of
     (w, Finished code out err) \<Rightarrow> (w, \<lparr>cr_ok = (code = 0), cr_stdout = out, cr_stderr = err\<rparr>)
   | (w, TimedOut) \<Rightarrow> (w, \<lparr>cr_ok = False, cr_stdout = '''', cr_stderr = ''Command timed out''\<rparr>)
   | (w, NotFound e) \<Rightarrow> (w, \<lparr>cr_ok = False, cr_stdout = '''', cr_stderr = ''Command not found: '' @ e\<rparr>))"

definition compose_cmd :: "string \<Rightarrow> string list \<Rightarrow> string list" where
  "compose_cmd compose_file args =
     [''docker'', ''compose'', ''-f'', compose_file, ''--project-name'', ''iot-edge-gateway''] @ args"

definition compose_test_cmd :: "string \<Rightarrow> string list \<Rightarrow> string list" where
  "compose_test_cmd compose_test_file args =
     [''docker'', ''compose'', ''-f'', compose_test_file, ''--project-name'', ''iot-edge-gateway-test''] @ args"

definition COMPOSE_SERVICES :: "string list" where
  "COMPOSE_SERVICES = [''redis'', ''postgres'', ''mosquitto'', ''data-ingestion'', ''data-persistence'', ''ml-inference'']"

definition DOCKER_ONLY :: "string list" where
  "DOCKER_ONLY = [''iot-edge-gateway-prometheus-1'', ''iot-edge-gateway-grafana-1'']"

subsection \<open>Texts\<close>

text \<open>
  \<open>str.splitlines\<close>, \<open>str.strip\<close> and \<open>in\<close> on 8-bit characters; \<open>str.lower\<close>, which is in the prelude, on ASCII letters:
  the words looked for have no others.
\<close>

definition is_break :: "char \<Rightarrow> bool" where
  "is_break c \<longleftrightarrow> (of_char c :: nat) \<in> {10, 11, 12, 13, 28, 29, 30, 133}"

fun lines_from :: "string \<Rightarrow> string \<Rightarrow> string list" where
  "lines_from cur [] = (if cur = [] then [] else [cur])"
| "lines_from cur [c] = (if is_break c then [cur] else [cur @ [c]])"
| "lines_from cur (c # d # cs) =
     (if c = CHR 0x0D \<and> d = CHR 0x0A then cur # lines_from [] cs
      else if is_break c then cur # lines_from [] (d # cs)
      else lines_from (cur @ [c]) (d # cs))"

definition splitlines :: "string \<Rightarrow> string list" where "splitlines s = lines_from [] s"

definition is_space :: "char \<Rightarrow> bool" where
  "is_space c \<longleftrightarrow> is_break c \<or> (of_char c :: nat) \<in> {9, 31, 32, 160}"

definition strip :: "string \<Rightarrow> string" where
  "strip s = rev (dropWhile is_space (rev (dropWhile is_space s)))"


definition contains :: "string \<Rightarrow> string \<Rightarrow> bool" where
  "contains sub s \<longleftrightarrow> list_ex (\<lambda>i. take (length sub) (drop i s) = sub) [0..<Suc (length s)]"

definition join_lines :: "string list \<Rightarrow> string" where
  "join_lines ls = (case ls of [] \<Rightarrow> [] | l # ls \<Rightarrow> l @ concat (map (\<lambda>l. CHR 0x0A # l) ls))"

definition ERROR_WORDS :: "string list" where
  "ERROR_WORDS = [''error'', ''failed'', ''cannot'', ''unable'', ''conflict'', ''address already in use'']"

definition error_lines :: "string \<Rightarrow> string list" where
  "error_lines err = [line \<leftarrow> splitlines err. list_ex (\<lambda>kw. contains kw (map lower_char line)) ERROR_WORDS]"

definition format_result :: "cmd_result \<Rightarrow> cmd_result" where
  "format_result r = (if cr_ok r then r\<lparr>cr_stderr := ''''\<rparr>
     else let ls = error_lines (cr_stderr r)
       in r\<lparr>cr_stderr := if ls \<noteq> [] then join_lines (take 10 ls) else drop (length (cr_stderr r) - 500) (cr_stderr r)\<rparr>)"

subsection \<open>Stack, simulator and tests\<close>

definition up_cmd :: "string \<Rightarrow> string list" where
  "up_cmd compose_file = compose_cmd compose_file ([''up'', ''--build'', ''-d''] @ COMPOSE_SERVICES)"

definition stack_up :: "'w runner \<Rightarrow> string \<Rightarrow> 'w \<Rightarrow> 'w \<times> cmd_result" where
  "stack_up exec compose_file w =
     (let (w, result) = run_cmd exec (up_cmd compose_file) 300 w;
          (w, _) = run_cmd exec ([''docker'', ''start''] @ DOCKER_ONLY) 120 w
      in (w, format_result result))"

definition stack_down :: "'w runner \<Rightarrow> string \<Rightarrow> 'w \<Rightarrow> 'w \<times> cmd_result" where
  "stack_down exec compose_file w =
     (let (w, _) = run_cmd exec ([''docker'', ''stop''] @ DOCKER_ONLY) 120 w;
          (w, result) = run_cmd exec (compose_cmd compose_file (''stop'' # COMPOSE_SERVICES)) 120 w
      in (w, format_result result))"

definition stack_restart :: "'w runner \<Rightarrow> string \<Rightarrow> 'w \<Rightarrow> 'w \<times> cmd_result" where
  "stack_restart exec compose_file w =
     (let (w, _) = run_cmd exec ([''docker'', ''stop''] @ DOCKER_ONLY) 120 w;
          (w, _) = run_cmd exec (compose_cmd compose_file (''stop'' # COMPOSE_SERVICES)) 120 w;
          (w, result) = run_cmd exec (up_cmd compose_file) 300 w;
          (w, _) = run_cmd exec ([''docker'', ''start''] @ DOCKER_ONLY) 120 w
      in (w, format_result result))"

definition stack_logs :: "'w runner \<Rightarrow> string \<Rightarrow> string option \<Rightarrow> string \<Rightarrow> 'w \<Rightarrow> 'w \<times> string" where
  "stack_logs exec compose_file service tail w =
     (let cmd = compose_cmd compose_file [''logs'', ''--tail'', tail, ''--no-color''] @
            (case service of Some s \<Rightarrow> if s = [] then [] else [s] | None \<Rightarrow> []);
          (w, result) = run_cmd exec cmd 120 w
      in (w, if cr_stdout result \<noteq> [] then cr_stdout result else cr_stderr result))"

text \<open>The texts of the three settings; here a missing command is not caught.\<close>

definition simulator_start :: "'w runner \<Rightarrow> string \<Rightarrow> string \<Rightarrow> string \<Rightarrow> string \<Rightarrow> ('w, http_error, cmd_result) action" where
  "simulator_start exec compose_file num_devices interval anomaly_rate w =
     (case exec [(''NUM_DEVICES'', num_devices), (''PUBLISH_INTERVAL_SECONDS'', interval), (''ANOMALY_RATE'', anomaly_rate)]
        (compose_cmd compose_file [''--profile'', ''simulate'', ''up'', ''-d'', ''simulator'']) 120 w of
        (w, Finished code out err) \<Rightarrow> ret \<lparr>cr_ok = (code = 0), cr_stdout = out, cr_stderr = err\<rparr> w
      | (w, TimedOut) \<Rightarrow> ret \<lparr>cr_ok = False, cr_stdout = '''', cr_stderr = ''Timed out starting simulator''\<rparr> w
      | (w, NotFound _) \<Rightarrow> raise (HTTPError 500) w)"

definition simulator_stop :: "'w runner \<Rightarrow> string \<Rightarrow> 'w \<Rightarrow> 'w \<times> cmd_result" where
  "simulator_stop exec compose_file w =
     run_cmd exec (compose_cmd compose_file [''--profile'', ''simulate'', ''stop'', ''simulator'']) 120 w"

definition test_runner_cmd_raw :: "string \<Rightarrow> string list \<Rightarrow> string list" where
  "test_runner_cmd_raw compose_file args =
     compose_cmd compose_file ([''--profile'', ''test'', ''run'', ''--rm'', ''--no-deps'', ''test-runner''] @ args)"

definition test_runner_cmd :: "string \<Rightarrow> string list \<Rightarrow> string list" where
  "test_runner_cmd compose_file args =
     compose_cmd compose_file ([''--profile'', ''test'', ''run'', ''--rm'', ''--no-deps'', ''test-runner'', ''python'', ''-m'', ''pytest''] @ args)"

definition suite_cmd :: "string \<Rightarrow> string \<Rightarrow> string list" where
  "suite_cmd compose_file suite =
     (let flags = [''-v'', ''--tb=short'', ''--no-header''] in
      if suite = ''unit'' then test_runner_cmd compose_file (''tests/unit/'' # flags)
      else if suite = ''integration'' then test_runner_cmd compose_file (''tests/integration/'' # flags)
      else if suite = ''e2e'' then test_runner_cmd compose_file (''tests/e2e/'' # flags)
      else if suite = ''load'' then test_runner_cmd_raw compose_file [''python'', ''-m'', ''locust'', ''-f'', ''tests/load/locustfile.py'',
        ''--host'', ''http://data-ingestion:8001'', ''--headless'', ''-u'', ''10'', ''-r'', ''2'', ''-t'', ''30s'', ''--only-summary'']
      else test_runner_cmd compose_file (''tests/'' # flags))"

record test_report =
  tp_suite :: string
  tp_passed :: bool
  tp_output :: string
  tp_errors :: string

definition run_tests :: "'w runner \<Rightarrow> string \<Rightarrow> string \<Rightarrow> 'w \<Rightarrow> 'w \<times> test_report" where
  "run_tests exec compose_file suite w =
     (let (w, build) = run_cmd exec (compose_cmd compose_file [''--profile'', ''test'', ''build'', ''test-runner'']) 300 w in
      if \<not> cr_ok build then (w, \<lparr>tp_suite = suite, tp_passed = False, tp_output = ''Failed to build test-runner image.'',
        tp_errors = cr_stderr build\<rparr>)
      else let (w, result) = run_cmd exec (suite_cmd compose_file suite) 300 w
        in (w, \<lparr>tp_suite = suite, tp_passed = cr_ok result,
          tp_output = (if cr_stdout result \<noteq> [] then cr_stdout result else cr_stderr result),
          tp_errors = (if cr_ok result then '''' else cr_stderr result)\<rparr>))"

subsection \<open>Status\<close>

text \<open>The services with their health URLs; \<open>h\<close> gives the host of a service, inside or outside of Docker.\<close>

definition SERVICES :: "(string \<Rightarrow> string) \<Rightarrow> (string, string option) dict" where
  "SERVICES h = [(''redis'', None), (''postgres'', None), (''mosquitto'', None),
     (''data-ingestion'', Some (''http://'' @ h ''data-ingestion'' @ '':8001/health'')), (''data-persistence'', None),
     (''ml-inference'', Some (''http://'' @ h ''ml-inference'' @ '':8004/health'')),
     (''prometheus'', Some (''http://'' @ h ''prometheus'' @ '':9090/-/healthy'')),
     (''grafana'', Some (''http://'' @ h ''grafana'' @ '':3000/api/health'')), (''simulator'', None)]"

text \<open>
  One line of \<open>docker compose ps\<close>: a text that is no JSON is skipped; a value that is not an object has no
  \<open>get\<close>, and a name that is not a text is taken to raise as well. None is an exception.
\<close>

definition ps_line :: "codec \<Rightarrow> string \<Rightarrow> (string, json_object) dict \<Rightarrow> (string, json_object) dict option" where
  "ps_line c line services = (case cd_loads c line of
     None \<Rightarrow> Some services
   | Some (JObj svc) \<Rightarrow> (case dget_or svc ''Service'' (dget_or svc ''Name'' (JStr ''unknown'')) of
        JStr name \<Rightarrow> Some (dset name [(''state'', dget_or svc ''State'' (JStr ''unknown'')),
          (''health'', dget_or svc ''Health'' (JStr '''')), (''status'', dget_or svc ''Status'' (JStr ''''))] services)
      | _ \<Rightarrow> None)
   | Some _ \<Rightarrow> None)"

fun ps_lines :: "codec \<Rightarrow> string list \<Rightarrow> (string, json_object) dict \<Rightarrow> (string, json_object) dict option" where
  "ps_lines c [] services = Some services"
| "ps_lines c (line # ls) services = Option.bind (ps_line c line services) (ps_lines c ls)"

text \<open>\<open>http url\<close> is the status and the parsed body of the answer; None where the request or the parsing raises.\<close>

definition http_health :: "(string \<Rightarrow> (nat \<times> json) option) \<Rightarrow> string \<Rightarrow> json" where
  "http_health http url = (case http url of Some (status, body) \<Rightarrow> if status = 200 then body else JNull | None \<Rightarrow> JNull)"

definition check_health :: "(string \<Rightarrow> (nat \<times> json) option) \<Rightarrow> string \<times> string option \<Rightarrow>
    (string, json_object) dict \<Rightarrow> (string, json_object) dict" where
  "check_health http info services = (case info of
     (name, Some url) \<Rightarrow> if dhas services name then dmodify name (dset ''http_health'' (http_health http url)) services else services
   | (name, None) \<Rightarrow> services)"

definition get_status :: "'w runner \<Rightarrow> string \<Rightarrow> codec \<Rightarrow> (string \<Rightarrow> string) \<Rightarrow> (string \<Rightarrow> (nat \<times> json) option) \<Rightarrow>
    ('w, http_error, (string, json_object) dict) action" where
  "get_status exec compose_file c h http w =
     (let (w, result) = run_cmd exec (compose_cmd compose_file [''ps'', ''--format'', ''json'', ''-a'']) 120 w;
          lines = (if cr_ok result \<and> strip (cr_stdout result) \<noteq> [] then splitlines (strip (cr_stdout result)) else [])
      in case ps_lines c lines [] of
           None \<Rightarrow> raise (HTTPError 500) w
         | Some services \<Rightarrow> ret (fold (check_health http) (SERVICES h) services) w)"

text \<open>
  \<open>ws_status\<close>: per turn what the health endpoints answer, whether the client is gone when the status is sent,
  and what happens until the next turn. A status that raises ends the socket.
\<close>

fun ws_status :: "'w runner \<Rightarrow> string \<Rightarrow> codec \<Rightarrow> (string \<Rightarrow> string) \<Rightarrow>
    ((string \<Rightarrow> (nat \<times> json) option) \<times> bool \<times> ('w \<Rightarrow> 'w)) list \<Rightarrow> 'w \<Rightarrow> 'w \<times> (string, json_object) dict list" where
  "ws_status exec compose_file c h [] w = (w, [])"
| "ws_status exec compose_file c h ((http, gone, between) # ts) w = (case get_status exec compose_file c h http w of
     (w, Inl _) \<Rightarrow> (w, [])
   | (w, Inr status) \<Rightarrow> if gone then (w, [])
       else (case ws_status exec compose_file c h ts (between w) of (w, sent) \<Rightarrow> (w, status # sent)))"

subsection \<open>Streams\<close>

record 's dash_server =
  dv_xrevrange :: "string \<Rightarrow> int \<Rightarrow> ('s, redis_error, stream_entry list) action"
  dv_xlen :: "string \<Rightarrow> ('s, redis_error, nat) action"
  dv_entries_added :: "string \<Rightarrow> ('s, redis_error, int) action"

text \<open>\<open>{"id": eid, **data}\<close>: a field of the same name wins.\<close>

definition with_id :: "stream_entry \<Rightarrow> fields" where
  "with_id e = fold (\<lambda>(k, v) d. dset k v d) (snd e) [(''id'', fst e)]"

definition recent_entries :: "'s dash_server \<Rightarrow> string \<Rightarrow> int \<Rightarrow> 's \<Rightarrow> 's \<times> fields list \<times> bool" where
  "recent_entries D stream count s = (case dv_xrevrange D stream count s of
     (s, Inl _) \<Rightarrow> (s, [], True) | (s, Inr es) \<Rightarrow> (s, map with_id es, False))"

definition recent_telemetry :: "'s dash_server \<Rightarrow> int \<Rightarrow> 's \<Rightarrow> 's \<times> fields list \<times> bool" where
  "recent_telemetry D count = recent_entries D RAW_TELEMETRY count"

definition recent_alerts :: "'s dash_server \<Rightarrow> int \<Rightarrow> 's \<Rightarrow> 's \<times> fields list \<times> bool" where
  "recent_alerts D count = recent_entries D ALERTS count"

definition dashboard_stats :: "'s dash_server \<Rightarrow> 's \<Rightarrow> 's \<times> (nat \<times> nat) \<times> bool" where
  "dashboard_stats D s = (case dv_xlen D RAW_TELEMETRY s of
     (s, Inl _) \<Rightarrow> (s, (0, 0), True)
   | (s, Inr tlen) \<Rightarrow> (case dv_xlen D ALERTS s of (s, Inl _) \<Rightarrow> (s, (0, 0), True) | (s, Inr alen) \<Rightarrow> (s, (tlen, alen), False)))"

text \<open>\<open>_stream_id_gt\<close>; it raises on a text that is not two integers.\<close>

definition id_less :: "nat \<times> nat \<Rightarrow> nat \<times> nat \<Rightarrow> bool" where
  "id_less a b \<longleftrightarrow> fst a < fst b \<or> fst a = fst b \<and> snd a < snd b"

definition parse_id :: "string \<Rightarrow> (nat \<times> nat) option" where
  "parse_id i = (case split_on (CHR ''-'') i of
     [ms, sq] \<Rightarrow> Option.bind (py_int ms) (\<lambda>a. Option.bind (py_int sq) (\<lambda>b. Some (a, b))) | _ \<Rightarrow> None)"

definition stream_id_gt :: "string \<Rightarrow> string \<Rightarrow> bool option" where
  "stream_id_gt a b = Option.bind (parse_id a) (\<lambda>x. Option.bind (parse_id b) (\<lambda>y. Some (id_less y x)))"

fun newer_entry :: "string \<Rightarrow> stream_entry list \<Rightarrow> fields list option" where
  "newer_entry last_id [] = Some []"
| "newer_entry last_id (e # es) = Option.bind (stream_id_gt (fst e) last_id) (\<lambda>gt.
     map_option (\<lambda>rs. if gt then with_id e # rs else rs) (newer_entry last_id es))"

text \<open>One stream in one turn of \<open>ws_live\<close>: the newest 50 entries, in the order of the stream, that are newer than the last one sent.\<close>

definition live_feed :: "'s dash_server \<Rightarrow> string \<Rightarrow> string \<Rightarrow> ('s, unit, fields list \<times> string) action" where
  "live_feed D stream last_id s = (case dv_xrevrange D stream 50 s of
     (s, Inl _) \<Rightarrow> raise () s
   | (s, Inr es) \<Rightarrow> (case newer_entry last_id (rev es) of
        None \<Rightarrow> raise () s | Some rs \<Rightarrow> ret (rs, case es of [] \<Rightarrow> last_id | e # _ \<Rightarrow> fst e) s))"

text \<open>The rate; whatever raises here, a division by zero included, is swallowed and leaves the marks as they are.\<close>

definition live_rate :: "'s dash_server \<Rightarrow> time \<Rightarrow> (int \<times> time) option \<Rightarrow> 's \<Rightarrow> 's \<times> rat \<times> (int \<times> time) option" where
  "live_rate D now mark s = (case dv_entries_added D RAW_TELEMETRY s of
     (s, Inl _) \<Rightarrow> (s, 0, mark)
   | (s, Inr added) \<Rightarrow> (case mark of
        None \<Rightarrow> (s, 0, Some (added, now))
      | Some (last_added, last_tick) \<Rightarrow> if now = last_tick then (s, 0, mark)
          else (s, of_int (added - last_added) / (now - last_tick), Some (added, now))))"

record live_state =
  lv_last_telemetry :: string
  lv_last_alert :: string
  lv_mark :: "(int \<times> time) option"

record live_message =
  lm_readings :: "fields list"
  lm_alerts :: "fields list"
  lm_stream_length :: nat
  lm_alert_count :: nat
  lm_rate :: rat

definition live_new :: live_state where
  "live_new = \<lparr>lv_last_telemetry = ''0-0'', lv_last_alert = ''0-0'', lv_mark = None\<rparr>"

definition live_tick :: "'s dash_server \<Rightarrow> time \<Rightarrow> live_state \<Rightarrow> ('s, unit, live_state \<times> live_message) action" where
  "live_tick D now l s = (case live_feed D RAW_TELEMETRY (lv_last_telemetry l) s of
     (s, Inl _) \<Rightarrow> raise () s
   | (s, Inr (readings, last_t)) \<Rightarrow> (case live_feed D ALERTS (lv_last_alert l) s of
       (s, Inl _) \<Rightarrow> raise () s
     | (s, Inr (alerts, last_a)) \<Rightarrow> (case dv_xlen D RAW_TELEMETRY s of
         (s, Inl _) \<Rightarrow> raise () s
       | (s, Inr tlen) \<Rightarrow> (case dv_xlen D ALERTS s of
           (s, Inl _) \<Rightarrow> raise () s
         | (s, Inr alen) \<Rightarrow> (case live_rate D now (lv_mark l) s of
             (s, rate, mark) \<Rightarrow> ret (\<lparr>lv_last_telemetry = last_t, lv_last_alert = last_a, lv_mark = mark\<rparr>,
               \<lparr>lm_readings = readings, lm_alerts = alerts, lm_stream_length = tlen, lm_alert_count = alen,
                lm_rate = py_round rate 1\<rparr>) s)))))"

text \<open>
  The loop: per turn the time, whether the client is gone when the message is sent, and what happens to
  the server before the next turn. It ends with the first exception and yields the messages sent.
\<close>

fun ws_live :: "'s dash_server \<Rightarrow> (time \<times> bool \<times> ('s \<Rightarrow> 's)) list \<Rightarrow> live_state \<Rightarrow> 's \<Rightarrow> 's \<times> live_message list" where
  "ws_live D [] l s = (s, [])"
| "ws_live D ((now, gone, between) # ts) l s = (case live_tick D now l s of
     (s, Inl _) \<Rightarrow> (s, [])
   | (s, Inr (l, m)) \<Rightarrow> if gone then (s, [])
       else (case ws_live D ts l (between s) of (s, ms) \<Rightarrow> (s, m # ms)))"

end
