(* ===== verification/DashboardProps.thy ===== *)
theory DashboardProps imports Dashboard begin

section \<open>Properties of the dashboard\<close>

text \<open>
  What the live feed sends of a growing stream, the summary of a failed command, and the commands of a
  restart. The read commands of Redis are the locale \<open>stream_reads\<close>, interpreted on the executable server \<open>ref_dash\<close>.
\<close>

subsection \<open>Stream ids\<close>

definition id_text :: "nat \<times> nat \<Rightarrow> string" where
  "id_text i = nat_str (fst i) @ ''-'' @ nat_str (snd i)"

type_synonym log_entry = "(nat \<times> nat) \<times> fields"

definition entry_of :: "log_entry \<Rightarrow> stream_entry" where
  "entry_of e = (id_text (fst e), snd e)"

lemma digits_no_dash: "CHR ''-'' \<notin> set (nat_str n)"
proof (induction n rule: nat_str.induct)
  case (1 n)
  have "CHR ''-'' \<noteq> digit_char d" if "d < 10" for d
  proof
    assume "CHR ''-'' = digit_char d"
    then have "digit_val (CHR ''-'') = Some d" using digit_val_char[OF that] by simp
    then show False by (simp add: digit_val_def Let_def)
  qed
  then show ?case using 1 by (cases "n < 10") (auto simp: nat_str.simps[of n])
qed

lemma split_on_none: "c \<notin> set ys \<Longrightarrow> split_on c ys = [ys]"
  by (induction ys) auto

lemma split_on_once: "c \<notin> set xs \<Longrightarrow> c \<notin> set ys \<Longrightarrow> split_on c (xs @ c # ys) = [xs, ys]"
  by (induction xs) (auto simp: split_on_none)

lemma parse_id_text [simp]: "parse_id (id_text i) = Some i"
  using split_on_once[OF digits_no_dash digits_no_dash, of "fst i" "snd i"] by (simp add: parse_id_def id_text_def)

lemma stream_id_gt_text [simp]: "stream_id_gt (id_text i) (id_text j) = Some (id_less j i)"
  by (simp add: stream_id_gt_def)

lemma newer_entries: "newer_entry (id_text a) (map entry_of es) = Some (map (with_id \<circ> entry_of) [e \<leftarrow> es. id_less a (fst e)])"
  by (induction es) (simp_all add: entry_of_def[of "_ :: log_entry"])

lemma id_less_trans: "id_less a b \<Longrightarrow> id_less b c \<Longrightarrow> id_less a c"
  by (auto simp: id_less_def)

lemma id_less_irrefl [simp]: "\<not> id_less a a"
  by (simp add: id_less_def)

definition ordered :: "log_entry list \<Rightarrow> bool" where
  "ordered es \<longleftrightarrow> sorted_wrt (\<lambda>x y. id_less (fst x) (fst y)) es"

definition last_n :: "nat \<Rightarrow> 'a list \<Rightarrow> 'a list" where
  "last_n n xs = drop (length xs - n) xs"

lemma rev_take_rev: "rev (take n (rev xs)) = last_n n xs"
  by (simp add: last_n_def take_rev)

text \<open>The id the feed has seen: that of the newest entry, or the one before.\<close>

definition seen :: "log_entry list \<Rightarrow> nat \<times> nat \<Rightarrow> nat \<times> nat" where
  "seen es a = (if es = [] then a else fst (last es))"

lemma seen_newest:
  assumes "ordered es" and "e \<in> set es"
  shows "\<not> id_less (seen es a) (fst e)"
proof -
  obtain xs y where es: "es = xs @ [y]" using assms(2) by (cases es rule: rev_cases) auto
  then show ?thesis using assms by (auto simp: ordered_def seen_def sorted_wrt_append dest: id_less_trans)
qed

lemma filter_last_n:
  assumes "\<forall>x \<in> set old. \<not> P x" and "\<forall>x \<in> set new. P x"
  shows "filter P (last_n n (old @ new)) = last_n n new"
proof -
  have "last_n n (old @ new) = drop (length old + length new - n) old @ last_n n new"
    by (simp add: last_n_def)
  moreover have "filter P (drop j old) = []" for j using assms(1) by (auto simp: filter_empty_conv dest: in_set_dropD)
  moreover have "filter P (last_n n new) = last_n n new" using assms(2) by (auto simp: last_n_def intro!: filter_True dest: in_set_dropD)
  ultimately show ?thesis by simp
qed

text \<open>
  The stream between the turns of the loop: entries are appended with ids above what was seen, and only old ones
  are trimmed. \<open>news\<close> are the entries appended after each turn.
\<close>

fun grows :: "('s \<Rightarrow> log_entry list) \<Rightarrow> nat \<times> nat \<Rightarrow> 's \<Rightarrow> (time \<times> bool \<times> ('s \<Rightarrow> 's)) list \<Rightarrow> log_entry list list \<Rightarrow> bool" where
  "grows es a s ((_, _, f) # ts) (new # news) \<longleftrightarrow> (let a' = seen (es s) a in ordered (es s) \<and>
     (\<exists>k \<le> length (es s). es (f s) = drop k (es s) @ new) \<and> (\<forall>x \<in> set new. id_less a' (fst x)) \<and> grows es a' (f s) ts news)"
| "grows es a s _ _ \<longleftrightarrow> True"

subsection \<open>The reads\<close>

text \<open>\<open>XREVRANGE\<close> gives the newest entries, newest first; no read changes the server.\<close>

locale stream_reads =
  fixes D :: "'s dash_server" and records :: "'s \<Rightarrow> string \<Rightarrow> log_entry list"
  assumes range_reads: "dv_xrevrange D st n s = (s', r) \<Longrightarrow> s' = s"
    and range_newest: "dv_xrevrange D st n s = (s', Inr es) \<Longrightarrow> 0 \<le> n \<Longrightarrow> es = map entry_of (take (nat n) (rev (records s st)))"
    and len_reads: "dv_xlen D st s = (s', q) \<Longrightarrow> s' = s"
    and added_reads: "dv_entries_added D st s = (s', p) \<Longrightarrow> s' = s"
begin

lemma live_feed_sends:
  assumes "live_feed D st (id_text a) s = (s', Inr (rs, last_id))"
  shows "s' = s \<and> rs = map (with_id \<circ> entry_of) [e \<leftarrow> last_n 50 (records s st). id_less a (fst e)] \<and> last_id = id_text (seen (records s st) a)"
proof -
  obtain es where es: "dv_xrevrange D st 50 s = (s', Inr es)" using assms
    by (auto simp: live_feed_def split: prod.splits sum.splits option.splits)
  have "es = map entry_of (take 50 (rev (records s st)))" using range_newest[OF es] by simp
  moreover have "rev (map entry_of (take 50 (rev (records s st)))) = map entry_of (last_n 50 (records s st))"
    by (simp add: rev_map rev_take_rev)
  moreover have "(case map entry_of (take 50 (rev es)) of [] \<Rightarrow> id_text a | e # _ \<Rightarrow> fst e) = id_text (seen es a)" for es :: "log_entry list"
    by (cases es rule: rev_cases) (simp_all add: seen_def entry_of_def)
  ultimately show ?thesis
    using assms range_reads[OF es] by (auto simp: live_feed_def es newer_entries)
qed

lemma live_tick_sends:
  assumes "live_tick D now l s = (s', Inr (l', m))" and "lv_last_telemetry l = id_text a"
  shows "s' = s \<and> lm_readings m = map (with_id \<circ> entry_of) [e \<leftarrow> last_n 50 (records s RAW_TELEMETRY). id_less a (fst e)] \<and>
    lv_last_telemetry l' = id_text (seen (records s RAW_TELEMETRY) a)"
proof -
  obtain s1 readings last_t where t: "live_feed D RAW_TELEMETRY (id_text a) s = (s1, Inr (readings, last_t))"
    using assms by (auto simp: live_tick_def split: prod.splits sum.splits)
  obtain s2 alerts last_a where al: "live_feed D ALERTS (lv_last_alert l) s1 = (s2, Inr (alerts, last_a))"
    using assms by (auto simp: live_tick_def t split: prod.splits sum.splits)
  obtain s3 n3 where x3: "dv_xlen D RAW_TELEMETRY s2 = (s3, Inr n3)"
    using assms by (auto simp: live_tick_def t al split: prod.splits sum.splits)
  obtain s4 n4 where x4: "dv_xlen D ALERTS s3 = (s4, Inr n4)"
    using assms by (auto simp: live_tick_def t al x3 split: prod.splits sum.splits)
  obtain s5 r5 m5 where x5: "live_rate D now (lv_mark l) s4 = (s5, r5, m5)" by (metis prod.exhaust)
  have "s5 = s4"
    using x5 added_reads by (auto simp: live_rate_def split: prod.splits sum.splits option.splits if_splits)
  moreover have "s2 = s1"
  proof -
    obtain r where "dv_xrevrange D ALERTS 50 s1 = (s2, r)"
      using al by (auto simp: live_feed_def split: prod.splits sum.splits option.splits)
    then show ?thesis by (rule range_reads)
  qed
  moreover have "s' = s5 \<and> lm_readings m = readings \<and> lv_last_telemetry l' = last_t"
    using assms by (auto simp: live_tick_def t al x3 x4 x5)
  ultimately show ?thesis using live_feed_sends[OF t] len_reads[OF x3] len_reads[OF x4] by simp
qed

lemma ws_live_sends:
  assumes "ws_live D ts l s = (s', ms)" and "lv_last_telemetry l = id_text a"
    and "grows (\<lambda>s. records s RAW_TELEMETRY) a s ts news" and "Suc i < length ms" and "i < length news"
  shows "lm_readings (ms ! Suc i) = map (with_id \<circ> entry_of) (last_n 50 (news ! i))"
  using assms
proof (induction ts arbitrary: l s a news ms s' i)
  case (Cons t ts)
  obtain now gone f where t: "t = (now, gone, f)" by (cases t)
  obtain new news' where news: "news = new # news'" using Cons.prems(5) by (cases news) auto
  let ?a = "seen (records s RAW_TELEMETRY) a"
  obtain s1 l' m where tick1: "live_tick D now l s = (s1, Inr (l', m))"
    using Cons.prems(1,4) by (auto simp: t split: prod.splits sum.splits if_splits)
  then have tick: "live_tick D now l s = (s, Inr (l', m))" using live_tick_sends[OF tick1 Cons.prems(2)] by simp
  note sent = live_tick_sends[OF tick Cons.prems(2)]
  obtain ms' where rest: "ws_live D ts l' (f s) = (s', ms')" "ms = m # ms'"
    using Cons.prems(1,4) by (auto simp: t tick split: prod.splits if_splits)
  have g: "ordered (records s RAW_TELEMETRY)" "\<forall>x \<in> set new. id_less ?a (fst x)"
    "grows (\<lambda>s. records s RAW_TELEMETRY) ?a (f s) ts news'"
    using Cons.prems(3) by (simp_all add: t news Let_def)
  obtain k where k: "k \<le> length (records s RAW_TELEMETRY)" "records (f s) RAW_TELEMETRY = drop k (records s RAW_TELEMETRY) @ new"
    using Cons.prems(3) by (auto simp: t news Let_def)
  show ?case
  proof (cases i)
    case 0
    then obtain t' ts' where ts: "ts = t' # ts'" "ms' \<noteq> []" using rest Cons.prems(4) by (cases ts) auto
    obtain now' gone' f' where t': "t' = (now', gone', f')" by (cases t')
    obtain m' ms'' where ms': "ms' = m' # ms''" using ts(2) by (cases ms') auto
    obtain s2 l2 where tick': "live_tick D now' l' (f s) = (s2, Inr (l2, m'))"
      using rest(1) by (auto simp: ts t' ms' split: prod.splits sum.splits if_splits)
    have "lm_readings m' = map (with_id \<circ> entry_of) [e \<leftarrow> last_n 50 (drop k (records s RAW_TELEMETRY) @ new). id_less ?a (fst e)]"
      using live_tick_sends[OF tick'] sent by (simp add: k(2))
    also have "[e \<leftarrow> last_n 50 (drop k (records s RAW_TELEMETRY) @ new). id_less ?a (fst e)] = last_n 50 new"
    proof (rule filter_last_n)
      show "\<forall>x \<in> set (drop k (records s RAW_TELEMETRY)). \<not> id_less ?a (fst x)"
        by (intro ballI seen_newest[OF g(1)]) (rule in_set_dropD)
      show "\<forall>x \<in> set new. id_less ?a (fst x)" by (rule g(2))
    qed
    finally show ?thesis using 0 by (simp add: rest(2) news ms')
  next
    case (Suc j)
    then show ?thesis
      using Cons.IH[OF rest(1) _ g(3), of j] sent Cons.prems(4,5) by (simp add: rest(2) news)
  qed
qed simp

end

text \<open>A server whose commands do not fail.\<close>

definition ref_dash :: "(string \<Rightarrow> log_entry list) dash_server" where
  "ref_dash = \<lparr>dv_xrevrange = (\<lambda>st n s. ret (map entry_of (if n < 0 then rev (s st) else take (nat n) (rev (s st)))) s),
     dv_xlen = (\<lambda>st s. ret (length (s st)) s), dv_entries_added = (\<lambda>st s. ret (int (length (s st))) s)\<rparr>"

interpretation ref_dash: stream_reads ref_dash "\<lambda>s st. s st"
  by unfold_locales (auto simp: ref_dash_def)


definition demo_ticks :: "(time \<times> bool \<times> ((string \<Rightarrow> log_entry list) \<Rightarrow> string \<Rightarrow> log_entry list)) list" where
  "demo_ticks = [(0, False, \<lambda>s. s(RAW_TELEMETRY := s RAW_TELEMETRY @ [((2, 1), [(''device_id'', ''b'')])])), (2, False, id)]"


subsection \<open>Commands\<close>

definition one_line :: "string \<Rightarrow> bool" where
  "one_line s \<longleftrightarrow> (\<forall>c \<in> set s. \<not> is_break c)"

lemma lines_from_one_line: "one_line cur \<Longrightarrow> line \<in> set (lines_from cur s) \<Longrightarrow> one_line line"
proof (induction cur s rule: lines_from.induct)
  case (1 cur)
  then show ?case by (cases "cur = []") simp_all
next
  case (2 cur c)
  then show ?case by (cases "is_break c") (auto simp: one_line_def)
next
  case (3 cur c d cs)
  have empty: "one_line []" by (simp add: one_line_def)
  consider (crlf) "c = CHR 0x0D \<and> d = CHR 0x0A" | (brk) "\<not> (c = CHR 0x0D \<and> d = CHR 0x0A)" "is_break c"
    | (char) "\<not> (c = CHR 0x0D \<and> d = CHR 0x0A)" "\<not> is_break c" by blast
  then show ?case
  proof cases
    case crlf
    then have "line = cur \<or> line \<in> set (lines_from [] cs)" using 3(5) by simp
    then show ?thesis using 3(1)[OF crlf empty] 3(4) by blast
  next
    case brk
    then have "line = cur \<or> line \<in> set (lines_from [] (d # cs))" using 3(5) by (simp only: lines_from.simps if_False if_True set_simps insert_iff)
    then show ?thesis using 3(2)[OF brk empty] 3(4) by blast
  next
    case char
    then have "line \<in> set (lines_from (cur @ [c]) (d # cs))" using 3(5) by (simp only: lines_from.simps if_False)
    moreover have "one_line (cur @ [c])" using 3(4) char(2) by (simp add: one_line_def)
    ultimately show ?thesis using 3(3)[OF char] by blast
  qed
qed

text \<open>What a failed command reports. If a line of its error output names an error, the summary is at most ten of
  those lines, each a single line with one of the words; otherwise it is the end of the output, at most
  500 characters. A success reports no error.\<close>

theorem failure_summary:
  "if cr_ok r then cr_stderr (format_result r) = []
   else if error_lines (cr_stderr r) = []
   then length (cr_stderr (format_result r)) \<le> 500 \<and> (\<exists>front. cr_stderr r = front @ cr_stderr (format_result r))
   else \<exists>ls. cr_stderr (format_result r) = join_lines ls \<and> 0 < length ls \<and> length ls \<le> 10 \<and>
     list_all (\<lambda>line. line \<in> set (splitlines (cr_stderr r)) \<and> one_line line \<and>
       list_ex (\<lambda>kw. contains kw (map lower_char line)) ERROR_WORDS) ls"
proof -
  let ?ls = "error_lines (cr_stderr r)"
  have line: "line \<in> set (splitlines (cr_stderr r)) \<and> one_line line \<and> list_ex (\<lambda>kw. contains kw (map lower_char line)) ERROR_WORDS"
    if "line \<in> set (take 10 ?ls)" for line
  proof -
    have "line \<in> set ?ls" using that by (rule in_set_takeD)
    then show ?thesis
      using lines_from_one_line[of "[]" line "cr_stderr r"] by (simp add: error_lines_def splitlines_def one_line_def)
  qed
  show ?thesis
  proof (cases "cr_ok r \<or> ?ls = []")
    case True
    then show ?thesis
      by (auto simp: format_result_def Let_def intro!: exI[of _ "take (length (cr_stderr r) - 500) (cr_stderr r)"])
  next
    case False
    then have "cr_stderr (format_result r) = join_lines (take 10 ?ls)" "take 10 ?ls \<noteq> []" by (simp_all add: format_result_def Let_def)
    then show ?thesis using False line by (auto simp: list_all_iff intro!: exI[of _ "take 10 ?ls"])
  qed
qed

end
