(* ===== verification/Spec2Isabelle.thy ===== *)
theory Spec2Isabelle
  imports Health EdgeServices CoordinationProps SchedulerProps GatewayProps DeviceProps PipelineProps BatchProps CloudProps TrainingProps SimulatorProps EdgeProps ScriptProps DashboardProps
begin

text \<open>
  A verification library for the edge gateway in \<open>src/\<close>: a set of Python services that take sensor
  readings in at the edge, persist them, score them with an ONNX model, and coordinate, schedule,
  secure and manage the nodes and devices around that pipeline; of the cloud services that
  receive, analyse and train on the same data; and of the scripts, the device simulator and the
  dashboard beside them.

  \<^bold>\<open>The program and how its parts interact.\<close>
  Devices publish over MQTT, HTTP or CoAP to \<open>data-ingestion\<close>, which writes every reading to the Redis
  stream \<open>raw_telemetry\<close>. Two consumer groups read that stream: \<open>data-persistence\<close> batches the
  readings into PostgreSQL, \<open>ml-inference\<close> scores them and writes alerts to the stream \<open>alerts\<close>. The
  \<open>coordination\<close> service keeps the membership of the cluster (heartbeats, gossip), elects a leader with a
  Redis lock, replicates the configuration and rolls firmware out; \<open>scheduler\<close> places tasks on edge or
  cloud; \<open>middleware\<close> is the gateway in front (authentication, rate limit, proxy); \<open>device-manager\<close> keeps
  devices, provisioning requests and firmware. In the cloud, \<open>cloud-api\<close> stores telemetry and the
  model registry, \<open>batch-analytics\<close> runs Spark jobs, \<open>ml-training\<close> trains and exports models; its scripts
  train the edge model on telemetry of the \<open>simulator\<close>, which also feeds the gateway for demonstrations. The
  \<open>dashboard\<close> drives docker and shows the streams.

  \<^bold>\<open>Which theory models what.\<close>
  \<^item> \<open>Prelude\<close>: Python data. A dict is an association list in insertion order, a float is an exact
    rational, a time a rational number of seconds; \<open>('s, 'e, 'a) action\<close> is a coroutine that may raise.
  \<^item> \<open>VersionVectors\<close>, \<open>ClusterStates\<close>, \<open>Membership\<close>, \<open>Election\<close>, \<open>ConfigSyncs\<close>, \<open>OtaRollout\<close>, \<open>Servicer\<close>: the
    packages \<open>coordination/state\<close>, \<open>coordination/services\<close> and \<open>coordination/grpc_server\<close>, one theory per
    module, one definition per method; \<open>CoordinationMain\<close>: the process of \<open>coordination/main.py\<close>.
    \<open>CoordinationProps\<close> holds their properties.
  \<^item> \<open>Redis\<close>, \<open>Streams\<close>: \<open>shared/database/redis_client.py\<close>. The server is a record of functions; its laws
    are the locales \<open>redis_kv\<close>, \<open>stream_laws\<close> and \<open>stream_groups\<close>, interpreted on reference stores that compute.
  \<^item> \<open>ResourceMonitors\<close>, \<open>Placement\<close>, \<open>Adaptive\<close>, \<open>Scheduler\<close>: the package \<open>scheduler\<close>; \<open>SchedulerMain\<close>: its
    process; properties in \<open>SchedulerProps\<close>.
  \<^item> \<open>Telemetry\<close>, \<open>StreamMonitors\<close>, \<open>Ingestion\<close>: \<open>shared/models\<close> and \<open>data_ingestion\<close>; \<open>Persistence\<close>:
    \<open>data_persistence\<close>; \<open>Features\<close>, \<open>Inference\<close>, \<open>Detector\<close>: \<open>ml_inference\<close>; \<open>EdgeServices\<close>: the three processes
    on one server and database. Properties in \<open>PipelineProps\<close> and, for the way from ingestion to the table
    and for all processes together, in this theory.
  \<^item> \<open>Gateway\<close> and \<open>GatewayProps\<close>: \<open>middleware\<close> and \<open>shared/auth/jwt_handler.py\<close>; \<open>Health\<close>: the health checks.
  \<^item> \<open>Devices\<close> and \<open>DeviceProps\<close>: \<open>device_manager\<close>.
  \<^item> \<open>Jobs\<close>, \<open>CsvText\<close>, \<open>BatchJobs\<close>: the job runner and the result store of \<open>batch_analytics\<close>; \<open>SparkFrames\<close>,
    \<open>SparkJobs\<close>, \<open>Trends\<close>: its Spark jobs over data frames. Properties in \<open>BatchProps\<close>.
  \<^item> \<open>ModelRegistry\<close>, \<open>CloudTelemetry\<close>, \<open>Analytics\<close>: \<open>cloud_api\<close>; properties in \<open>CloudProps\<close>.
  \<^item> \<open>Training\<close>, \<open>DataLoading\<close>, \<open>Networks\<close>: trainer, tracker, loader and architectures of \<open>ml_training\<close>;
    \<open>ModelScripts\<close>: \<open>train_anomaly.py\<close> and \<open>evaluate.py\<close>; \<open>EdgeTraining\<close>: \<open>train_edge_autoencoder.py\<close> and the start of
    the inference service on its files. Properties in \<open>TrainingProps\<close>, \<open>ScriptProps\<close> and \<open>EdgeProps\<close>.
  \<^item> \<open>Simulator\<close> and \<open>SimulatorProps\<close>: \<open>src/simulator\<close>; \<open>Dashboard\<close> and \<open>DashboardProps\<close>: \<open>src/dashboard/app.py\<close>.

  \<^bold>\<open>How state and operations correspond to the code.\<close>
  A class with attributes is a record with a field per attribute (prefixed by a short tag) and a
  definition per method that takes the record and returns the new one with the result. Shared objects
  (the cluster state, the Redis server, the tables) are explicit state. An exception is the left
  injection of a sum, or None where the code only distinguishes success; a handler's status code is
  \<open>HTTPError\<close>. Log lines and metrics are left out unless a decision depends on them; the events of the
  persistence worker are logged in its state so that an order of effects can be stated.
  Concurrency is a sequence of atomic steps: a coroutine is atomic between two awaits, a method under
  a lock is atomic, a thread is split at its accesses to shared data; where whole processes interleave
  (\<open>EdgeServices\<close>, \<open>CoordinationMain\<close>, \<open>SchedulerMain\<close>) a step is one turn of one of their loops.
  A computation that draws random numbers is a state transformer on the number of draws so far
  (\<open>State_Monad\<close>), with the generator an argument; a property of it holds for every outcome (\<open>pred_state\<close>).

  \<^bold>\<open>What the lemmas show.\<close>
  Each component has its invariant with the preservation by every operation, the effect of each
  operation on its branches, and the refinement or equivalence it has (the comparison of version
  vectors with the pointwise order, the atomic election with its commands, the gauges with their
  definition). The properties, numbered C1 and up, are in the property theories; those with a
  hypothesis have a witness below them at a concrete input.

  \<^bold>\<open>Loops and bounds.\<close>
  The waiting loop of the firmware health check ends by its deadline (a measure on the remaining
  time). The queue of the scheduler is drained by recursion on its length. Endless service loops
  (the persistence worker, the detector, the election loop, the subscriber with reconnection, gossip
  rounds, the fleet manager, the sockets of the dashboard) are runs over a list of what the environment
  delivers, one element per iteration, so that every finite prefix of the loop is covered. Firmware
  downloads and installs take their outcomes from lists given with the run. No fuel is used.

  \<^bold>\<open>What is not modelled.\<close>
  \<^item> Floating point: values are exact rationals (reals where a square root is taken, in \<open>DataLoading\<close>); rounding
    is an argument or left out, as are inf and single precision of feature rows; a nan is an argument.
  \<^item> Text formats and libraries: JSON, CBOR, UUID and date formats, JWT signing, bcrypt, the
    Redis and PostgreSQL servers, docker, and of torch, numpy and ONNX the gradient steps, the recurrent
    layer, the sorting, quantiles and deviations and the export, are arguments; what is assumed of them are
    named hypotheses with a concrete instance in a witness.
  \<^item> Two transactions of the same database run one after the other. Between processes a crash falls
    between two turns.
  \<^item> Construction and closing of clients in the \<open>main.py\<close> files, signal handlers, metrics and logging, the
    gRPC server objects, command lines and printed reports: input and output around the modelled parts.
  \<^item> The Spark session, the moving average, which is a column nothing reads, and \<open>write_to_postgres\<close>, which
    nothing calls; the page of the dashboard; the load and integration tests.
\<close>

section \<open>Across components\<close>

lemma decoded_entries:
  assumes "\<forall>(i, r) \<in> set rs. reading_codec_ok c r"
  shows "\<exists>w'. process_entries c u S (map (\<lambda>(i, r). (i, to_stream_dict c r)) rs) w = (w', Inr ()) \<and>
    wk_srv w' = wk_srv w \<and> wk_db w' = wk_db w \<and>
    wk_buffer w' = wk_buffer w @ map (\<lambda>(j, i, r). telemetry_to_record (u j) r) (enumerate (wk_uuids w) rs) \<and>
    wk_pending_ids w' = wk_pending_ids w @ map fst rs \<and> acked (wk_log w') = acked (wk_log w)"
  using assms
proof (induction rs arbitrary: w)
  case (Cons p rs)
  obtain i r where p: "p = (i, r)" by fastforce
  let ?x = "telemetry_to_record (u (wk_uuids w)) r"
  let ?w = "wk_emit (Buffered i ?x) (w\<lparr>wk_uuids := wk_uuids w + 1, wk_buffer := accumulate ?x (wk_buffer w),
    wk_pending_ids := wk_pending_ids w @ [i], wk_consumed := wk_consumed w + 1\<rparr>)"
  have "from_stream_dict c (to_stream_dict c r) = Some r"
    using Cons.prems by (intro stream_dict_round_trip) (simp add: p)
  then have "process_entries c u S (map (\<lambda>(i, r). (i, to_stream_dict c r)) (p # rs)) w =
      process_entries c u S (map (\<lambda>(i, r). (i, to_stream_dict c r)) rs) ?w"
    by (simp add: p Let_def)
  then show ?case using Cons.IH[of ?w] Cons.prems by (auto simp: p accumulate_def wk_emit_def)
qed simp




definition first_env :: cycle_env where
  "first_env = \<lparr>ce_cancelled = False, ce_now = 1, ce_after = 1\<rparr>"

lemma first_cycle_log:
  "acked (wk_log (worker_cycle demo_codec (\<lambda>_. ''id'') ref_streams (ref_db schema_accepts) demo_settings first_env
     (worker_new one_entry empty_db 0))) = [''1'']"
  by (simp add: first_env_def one_entry_def demo_settings_def empty_db_def worker_defs)
    (simp add: demo_reading_def acked_def nat_str_1)


end
